(* ===== verification/Prelude.thy ===== *)
theory Prelude
  imports Main
begin

text \<open>
  Shared ground of the development.
  \<^item> Python exceptions as values (\<open>exn\<close>), with the class tests that \<open>except\<close> clauses
    and handlers perform.
  \<^item> Fallible stateful code as \<open>('s, 'a) io\<close>: a function of the state that returns either
    an exception or a value, and the state as it was left (a Python exception does not roll
    back what was done before it).
  \<^item> JSON values as the HTTP layer delivers them, with the \<open>dict\<close> reads the source uses.
  \<^item> Clock readings in microseconds, datetimes with or without a time zone.
  \<^item> Generic lemmas on these, collected in \<open>io_simps\<close> and \<open>json_simps\<close>.
\<close>

named_theorems io_simps \<open>equations of the exception and state combinators\<close>
named_theorems json_simps \<open>reads of JSON objects\<close>
named_theorems model_defs \<open>definitions that are transparent for automation\<close>

section \<open>Exceptions\<close>

datatype icm_class =
    ICMError
  | ICMCaseNotFoundError
  | ICMAccessRevokedError
  | ICMContactNotFoundError
  | ICMMultipleContactsError
  | ICMClosedCaseError
  | ICMActiveSRConflictError
  | ICMSRAlreadyWithdrawnError
  | ICMServiceUnavailableError

text \<open>
  The exceptions the source raises, catches or lets through. \<open>ValidationExn\<close> is pydantic's
  ValidationError, \<open>JWTExn\<close> PyJWTError and \<open>JSONDecodeExn\<close> the one of \<open>json\<close>; the first and the last are subclasses of ValueError.
  \<open>CancelledExn\<close> is asyncio's CancelledError, a BaseException that \<open>except Exception\<close> does
  not catch.
\<close>

datatype exn =
    ICMExn icm_class string "string option"
  | PINValidationExn string
  | ReportingPeriodClosedExn string
  | AOLoginExn string
  | HTTPExn nat string
  | HTTPStatusExn nat
  | ConnectExn
  | TimeoutExn
  | ValueExn string
  | ValidationExn
  | JSONDecodeExn
  | KeyExn
  | TypeExn
  | JWTExn
  | AttributeExn
  | RuntimeExn string
  | NotImplementedExn string
  | SQLAlchemyExn
  | RedisExn
  | DecimalOverflowExn
  | CancelledExn

fun is_icm_error :: "exn \<Rightarrow> bool" where
  "is_icm_error (ICMExn _ _ _) = True"
| "is_icm_error _ = False"

fun is_value_error :: "exn \<Rightarrow> bool" where
  "is_value_error (ValueExn _) = True"
| "is_value_error ValidationExn = True"
| "is_value_error JSONDecodeExn = True"
| "is_value_error _ = False"

text \<open>\<open>str(exc)\<close> for the exceptions whose text reaches a response.\<close>

fun exn_str :: "exn \<Rightarrow> string" where
  "exn_str (ICMExn _ m _) = m"
| "exn_str (PINValidationExn m) = m"
| "exn_str (ReportingPeriodClosedExn m) = m"
| "exn_str (AOLoginExn m) = m"
| "exn_str (ValueExn m) = m"
| "exn_str (RuntimeExn m) = m"
| "exn_str (NotImplementedExn m) = m"
| "exn_str _ = []"

text \<open>Whether \<open>except Exception\<close> catches it.\<close>

definition is_exception :: "exn \<Rightarrow> bool" where
  "is_exception e \<longleftrightarrow> e \<noteq> CancelledExn"

section \<open>Results and stateful computations\<close>

type_synonym 'a res = "exn + 'a"
type_synonym ('s, 'a) io = "'s \<Rightarrow> 'a res \<times> 's"

fun bind_res :: "'a res \<Rightarrow> ('a \<Rightarrow> 'b res) \<Rightarrow> 'b res" where
  "bind_res (Inl e) f = Inl e"
| "bind_res (Inr x) f = f x"

lemma bind_res_Inr_iff [simp]: "bind_res r f = Inr y \<longleftrightarrow> (\<exists>x. r = Inr x \<and> f x = Inr y)"
  by (cases r) auto

lemma bind_res_Inl_iff [simp]:
  "bind_res r f = Inl e \<longleftrightarrow> r = Inl e \<or> (\<exists>x. r = Inr x \<and> f x = Inl e)"
  by (cases r) auto

fun is_ok :: "'a res \<Rightarrow> bool" where
  "is_ok (Inr _) = True"
| "is_ok (Inl _) = False"

lemma is_ok_iff: "is_ok r \<longleftrightarrow> (\<exists>x. r = Inr x)"
  by (cases r) auto

text \<open>A comprehension \<open>[f(x) for x in xs]\<close> whose body may raise.\<close>

fun map_res :: "('a \<Rightarrow> 'b res) \<Rightarrow> 'a list \<Rightarrow> 'b list res" where
  "map_res f [] = Inr []"
| "map_res f (x # xs) = bind_res (f x) (\<lambda>y. bind_res (map_res f xs) (\<lambda>ys. Inr (y # ys)))"

lemma map_res_Inr_iff:
  "map_res f xs = Inr ys \<longleftrightarrow> list_all2 (\<lambda>x y. f x = Inr y) xs ys"
  by (induction xs arbitrary: ys) (auto simp: list_all2_Cons1)

definition ret :: "'a \<Rightarrow> ('s, 'a) io" where
  "ret x s = (Inr x, s)"

definition raise :: "exn \<Rightarrow> ('s, 'a) io" where
  "raise e s = (Inl e, s)"

definition bind :: "('s, 'a) io \<Rightarrow> ('a \<Rightarrow> ('s, 'b) io) \<Rightarrow> ('s, 'b) io" where
  "bind m f s = (case m s of (Inl e, t) \<Rightarrow> (Inl e, t) | (Inr x, t) \<Rightarrow> f x t)"

definition lift_res :: "'a res \<Rightarrow> ('s, 'a) io" where
  "lift_res r s = (r, s)"

definition reads :: "('s \<Rightarrow> 'a) \<Rightarrow> ('s, 'a) io" where
  "reads f s = (Inr (f s), s)"

definition modify :: "('s \<Rightarrow> 's) \<Rightarrow> ('s, unit) io" where
  "modify f s = (Inr (), f s)"

text \<open>\<open>try: m except P: h\<close>; the handler starts in the state the exception left.\<close>

definition catch :: "('s, 'a) io \<Rightarrow> (exn \<Rightarrow> bool) \<Rightarrow> (exn \<Rightarrow> ('s, 'a) io) \<Rightarrow> ('s, 'a) io" where
  "catch m P h s = (case m s of (Inl e, t) \<Rightarrow> (if P e then h e t else (Inl e, t)) | (Inr x, t) \<Rightarrow> (Inr x, t))"

lemma ret_apply [simp]: "ret x s = (Inr x, s)" by (simp add: ret_def)
lemma raise_apply [simp]: "raise e s = (Inl e, s)" by (simp add: raise_def)
lemma lift_res_apply [simp]: "lift_res r s = (r, s)" by (simp add: lift_res_def)
lemma reads_apply [simp]: "reads f s = (Inr (f s), s)" by (simp add: reads_def)
lemma modify_apply [simp]: "modify f s = (Inr (), f s)" by (simp add: modify_def)

lemma bind_Inl: "m s = (Inl e, t) \<Longrightarrow> bind m f s = (Inl e, t)" by (simp add: bind_def)
lemma bind_Inr: "m s = (Inr x, t) \<Longrightarrow> bind m f s = f x t" by (simp add: bind_def)

lemma bind_ret [simp]: "bind (ret x) f = f x" by (rule ext) (simp add: bind_def)
lemma bind_raise [simp]: "bind (raise e) f = raise e" by (rule ext) (simp add: bind_def)
lemma bind_reads [simp]: "bind (reads g) f s = f (g s) s" by (simp add: bind_def)
lemma bind_modify [simp]: "bind (modify g) f s = f () (g s)" by (simp add: bind_def)
lemma bind_lift_Inr [simp]: "bind (lift_res (Inr x)) f = f x" by (rule ext) (simp add: bind_def)
lemma bind_lift_Inl [simp]: "bind (lift_res (Inl e)) f = raise e" by (rule ext) (simp add: bind_def)

lemma bind_assoc: "bind (bind m f) g = bind m (\<lambda>x. bind (f x) g)"
  by (rule ext) (simp add: bind_def split: prod.split sum.split)

lemma bind_InrE:
  assumes "bind m f s = (Inr y, u)"
  obtains x t where "m s = (Inr x, t)" and "f x t = (Inr y, u)"
  using assms by (auto simp: bind_def split: prod.splits sum.splits)

lemma bind_InlE:
  assumes "bind m f s = (Inl e, u)"
  obtains (first) "m s = (Inl e, u)"
  | (second) x t where "m s = (Inr x, t)" and "f x t = (Inl e, u)"
  using assms by (auto simp: bind_def split: prod.splits sum.splits)

lemmas io_eqs [io_simps] = bind_def catch_def split_beta

subsection \<open>Frame reasoning\<close>

text \<open>
  \<open>preserves m I\<close>: whatever the outcome, \<open>m\<close> ends in a state that satisfies \<open>I\<close> if it
  started in one. Composing the combinators composes the frame facts.
\<close>

definition preserves :: "('s, 'a) io \<Rightarrow> ('s \<Rightarrow> bool) \<Rightarrow> bool" where
  "preserves m I \<longleftrightarrow> (\<forall>s. I s \<longrightarrow> I (snd (m s)))"

lemma preservesI: "(\<And>s. I s \<Longrightarrow> I (snd (m s))) \<Longrightarrow> preserves m I"
  by (simp add: preserves_def)

lemma preservesD: "preserves m I \<Longrightarrow> I s \<Longrightarrow> I (snd (m s))"
  by (simp add: preserves_def)

lemma preserves_ret [intro, simp]: "preserves (ret x) I" by (simp add: preserves_def)
lemma preserves_raise [intro, simp]: "preserves (raise e) I" by (simp add: preserves_def)
lemma preserves_lift [intro, simp]: "preserves (lift_res r) I" by (simp add: preserves_def)
lemma preserves_reads [intro, simp]: "preserves (reads f) I" by (simp add: preserves_def)

lemma preserves_bind [intro]:
  assumes "preserves m I" and "\<And>x. preserves (f x) I"
  shows "preserves (bind m f) I"
  unfolding preserves_def
proof (intro allI impI)
  fix s assume "I s"
  then have I: "I (snd (m s))" using assms(1) by (rule preservesD[rotated])
  obtain r t where ms: "m s = (r, t)" by (cases "m s")
  show "I (snd (bind m f s))"
    using ms I assms(2) by (cases r) (auto simp: bind_def preserves_def)
qed

lemma preserves_catch [intro]:
  assumes "preserves m I" and "\<And>e. preserves (h e) I"
  shows "preserves (catch m P h) I"
  unfolding preserves_def
proof (intro allI impI)
  fix s assume "I s"
  then have I: "I (snd (m s))" using assms(1) by (rule preservesD[rotated])
  obtain r t where ms: "m s = (r, t)" by (cases "m s")
  show "I (snd (catch m P h s))"
    using ms I assms(2) by (cases r) (auto simp: catch_def preserves_def)
qed

section \<open>JSON\<close>

datatype json =
    JNull
  | JBool bool
  | JInt int
  | JStr string
  | JArr "json list"
  | JObj "(string \<times> json) list"

text \<open>
  \<open>d.get(k)\<close>, \<open>d.get(k, default)\<close> and \<open>d[k]\<close>. On anything but an object Python raises
  AttributeError for \<open>.get\<close>; subscripting a non-object with a string raises TypeError.
\<close>

fun obj_get :: "json \<Rightarrow> string \<Rightarrow> json option res" where
  "obj_get (JObj kvs) k = Inr (map_of kvs k)"
| "obj_get _ k = Inl AttributeExn"

definition obj_get_default :: "json \<Rightarrow> string \<Rightarrow> json \<Rightarrow> json res" where
  "obj_get_default d k v =
     bind_res (obj_get d k) (\<lambda>r. Inr (case r of None \<Rightarrow> v | Some x \<Rightarrow> x))"

fun obj_item :: "json \<Rightarrow> string \<Rightarrow> json res" where
  "obj_item (JObj kvs) k = (case map_of kvs k of None \<Rightarrow> Inl KeyExn | Some v \<Rightarrow> Inr v)"
| "obj_item _ k = Inl TypeExn"

text \<open>Python truthiness of a JSON value.\<close>

fun truthy :: "json \<Rightarrow> bool" where
  "truthy JNull = False"
| "truthy (JBool b) = b"
| "truthy (JInt i) = (i \<noteq> 0)"
| "truthy (JStr s) = (s \<noteq> [])"
| "truthy (JArr xs) = (xs \<noteq> [])"
| "truthy (JObj kvs) = (kvs \<noteq> [])"

lemma obj_get_default_obj [json_simps, simp]:
  "obj_get_default (JObj kvs) k v = Inr (case map_of kvs k of None \<Rightarrow> v | Some x \<Rightarrow> x)"
  by (simp add: obj_get_default_def)

section \<open>Time\<close>

text \<open>Instants and durations are integers of microseconds, the resolution of \<open>datetime\<close>.\<close>

type_synonym instant = int

definition seconds :: "int \<Rightarrow> int" where
  "seconds n = n * 1000000"

lemma seconds_mono [simp]: "seconds m \<le> seconds n \<longleftrightarrow> m \<le> n" by (simp add: seconds_def)
lemma seconds_less [simp]: "seconds m < seconds n \<longleftrightarrow> m < n" by (simp add: seconds_def)
lemma seconds_pos [simp]: "0 < seconds n \<longleftrightarrow> 0 < n" by (simp add: seconds_def)
lemma seconds_zero [simp]: "seconds 0 = 0" by (simp add: seconds_def)

text \<open>
  A datetime is naive (its fields read as if they were UTC) or aware. Comparing the two kinds
  raises TypeError; \<open>replace(tzinfo=timezone.utc)\<close> makes a naive one aware.
\<close>

datatype datetime = Naive instant | Aware instant

fun as_utc :: "datetime \<Rightarrow> datetime" where
  "as_utc (Naive t) = Aware t"
| "as_utc (Aware t) = Aware t"

fun dt_instant :: "datetime \<Rightarrow> instant" where
  "dt_instant (Naive t) = t"
| "dt_instant (Aware t) = t"

fun dt_less :: "datetime \<Rightarrow> datetime \<Rightarrow> bool res" where
  "dt_less (Aware a) (Aware b) = Inr (a < b)"
| "dt_less (Naive a) (Naive b) = Inr (a < b)"
| "dt_less _ _ = Inl TypeExn"

fun dt_le :: "datetime \<Rightarrow> datetime \<Rightarrow> bool res" where
  "dt_le (Aware a) (Aware b) = Inr (a \<le> b)"
| "dt_le (Naive a) (Naive b) = Inr (a \<le> b)"
| "dt_le _ _ = Inl TypeExn"

lemma dt_less_as_utc [simp]: "dt_less (as_utc d) (Aware t) = Inr (dt_instant d < t)"
  by (cases d) auto

lemma dt_less_as_utc2 [simp]: "dt_less (Aware t) (as_utc d) = Inr (t < dt_instant d)"
  by (cases d) auto

section \<open>Generic lemmas\<close>

lemma map_filter_id: "(\<And>x. x \<in> set xs \<Longrightarrow> P x) \<Longrightarrow> filter P xs = xs"
  by (induction xs) auto

lemma append_split_unique:
  assumes "x \<notin> set as" and "x \<notin> set bs" and "as @ x # cs = bs @ x # ds"
  shows "as = bs \<and> cs = ds"
  using assms
proof (induction as arbitrary: bs)
  case Nil
  then show ?case by (cases bs) auto
next
  case (Cons a as)
  then show ?case by (cases bs) auto
qed

text \<open>\<open>UPDATE t SET f WHERE P\<close> on a table as a list of rows, and its row count.\<close>

definition update_where :: "('r \<Rightarrow> bool) \<Rightarrow> ('r \<Rightarrow> 'r) \<Rightarrow> 'r list \<Rightarrow> 'r list" where
  "update_where P f rows = map (\<lambda>r. if P r then f r else r) rows"

definition row_count :: "('r \<Rightarrow> bool) \<Rightarrow> 'r list \<Rightarrow> nat" where
  "row_count P rows = length (filter P rows)"

lemma row_count_0: "row_count P rows = 0 \<longleftrightarrow> (\<forall>r \<in> set rows. \<not> P r)"
  by (simp add: row_count_def filter_empty_conv)

lemma update_where_none: "row_count P rows = 0 \<Longrightarrow> update_where P f rows = rows"
  unfolding update_where_def row_count_0 by (induction rows) auto

lemma set_update_where:
  "set (update_where P f rows) = f ` {r \<in> set rows. P r} \<union> {r \<in> set rows. \<not> P r}"
  by (auto simp: update_where_def image_iff)

lemma map_update_where: "(\<And>r. P r \<Longrightarrow> k (f r) = k r) \<Longrightarrow> map k (update_where P f rows) = map k rows"
  by (induction rows) (auto simp: update_where_def)

lemma filter_update_where:
  "(\<And>r. P r \<Longrightarrow> Q (f r) = Q r) \<Longrightarrow> (\<And>r. P r \<Longrightarrow> \<not> Q r) \<Longrightarrow> filter Q (update_where P f rows) = filter Q rows"
  by (induction rows) (auto simp: update_where_def)

end
