(* ===== verification/Icm_Errors.thy ===== *)
theory Icm_Errors
  imports Prelude
begin

text \<open>
  The error surface of the API: \<open>app/services/icm/exceptions.py\<close> (the class tree is in
  Prelude), \<open>app/services/icm/error_mapping.py\<close> (ICM error bodies to exceptions) and
  \<open>app/exception_handlers.py\<close> with the registrations of \<open>app/main.py\<close> (exceptions to HTTP
  responses).
\<close>

section \<open>ICM error bodies to exceptions\<close>

definition ERROR_MAP :: "(string \<times> icm_class) list" where
  "ERROR_MAP =
    [(''ICM_ERR_NO_CASE'', ICMCaseNotFoundError),
     (''ICM_ERR_REVOKED'', ICMAccessRevokedError),
     (''ICM_ERR_NO_CONTACT'', ICMContactNotFoundError),
     (''ICM_ERR_MULTI_CONTACTS'', ICMMultipleContactsError),
     (''ICM_ERR_CLOSED_CASE'', ICMClosedCaseError),
     (''ICM_ERR_ACTIVE_SR_CONFLICT'', ICMActiveSRConflictError),
     (''ICM_ERR_SR_ALREADY_WITHDRAWN'', ICMSRAlreadyWithdrawnError)]"

text \<open>
  \<open>_ERROR_MAP.get(error_code, ICMError)\<close>: a code that is not a string is no key of the map,
  and a list or an object is unhashable, so the lookup itself raises TypeError. The message is
  kept as text; a message that is not a string only shows in \<open>str(exc)\<close>, here as empty text.
\<close>

fun lookup_class :: "json \<Rightarrow> icm_class res" where
  "lookup_class (JStr c) = Inr (case map_of ERROR_MAP c of None \<Rightarrow> ICMError | Some k \<Rightarrow> k)"
| "lookup_class (JArr _) = Inl TypeExn"
| "lookup_class (JObj _) = Inl TypeExn"
| "lookup_class _ = Inr ICMError"

fun json_text :: "json \<Rightarrow> string" where
  "json_text (JStr s) = s"
| "json_text _ = []"

fun json_code :: "json \<Rightarrow> string option" where
  "json_code (JStr s) = Some s"
| "json_code _ = None"

definition map_icm_error :: "json \<Rightarrow> exn res" where
  "map_icm_error body =
     bind_res (obj_get_default body ''errorCode'' (JStr [])) (\<lambda>code.
     bind_res (obj_get_default body ''message'' (JStr ''ICM error'')) (\<lambda>message.
     bind_res (lookup_class code) (\<lambda>cls.
     Inr (ICMExn cls (json_text message) (json_code code)))))"

lemma map_icm_error_is_icm: "map_icm_error body = Inr e \<Longrightarrow> is_icm_error e"
  by (auto simp: map_icm_error_def)

lemma map_icm_error_not_exn:
  "map_icm_error body = Inl e \<Longrightarrow> e = AttributeExn \<or> e = TypeExn"
  by (cases body) (auto simp: map_icm_error_def obj_get_default_def split: option.splits
      elim!: lookup_class.elims)

text \<open>The codes of the map are distinct, so each of the seven typed classes has one code.\<close>

lemma ERROR_MAP_distinct: "distinct (map fst ERROR_MAP) \<and> distinct (map snd ERROR_MAP)"
  by (simp add: ERROR_MAP_def)

section \<open>Exceptions to HTTP responses\<close>

text \<open>
  The exception classes handlers are registered for. A raised exception's method resolution
  order is the list of its classes from the most specific one; the framework takes the first
  one with a handler.
\<close>

datatype exn_class = IcmC icm_class | PINValidationC | ReportingPeriodClosedC | HTTPExceptionC | OtherC

fun mro :: "exn \<Rightarrow> exn_class list" where
  "mro (ICMExn c _ _) = (if c = ICMError then [IcmC ICMError] else [IcmC c, IcmC ICMError])"
| "mro (PINValidationExn _) = [PINValidationC]"
| "mro (ReportingPeriodClosedExn _) = [ReportingPeriodClosedC]"
| "mro (HTTPExn _ _) = [HTTPExceptionC]"
| "mro _ = [OtherC]"

record response =
  status_code :: nat
  detail :: string

definition icm_unavailable_handler :: "exn \<Rightarrow> response" where
  "icm_unavailable_handler e =
     \<lparr>status_code = 503, detail = ''Service temporarily unavailable. Please try again later.''\<rparr>"

definition icm_conflict_handler :: "exn \<Rightarrow> response" where
  "icm_conflict_handler e =
     \<lparr>status_code = 409, detail = ''An active service request of this type already exists''\<rparr>"

definition icm_sr_withdrawn_handler :: "exn \<Rightarrow> response" where
  "icm_sr_withdrawn_handler e = \<lparr>status_code = 409, detail = ''Service request already withdrawn''\<rparr>"

definition pin_validation_handler :: "exn \<Rightarrow> response" where
  "pin_validation_handler e = \<lparr>status_code = 403, detail = exn_str e\<rparr>"

definition reporting_period_closed_handler :: "exn \<Rightarrow> response" where
  "reporting_period_closed_handler e =
     \<lparr>status_code = 422,
      detail = (if exn_str e \<noteq> [] then exn_str e
                else ''Submission period is closed for this benefit month'')\<rparr>"

definition icm_error_handler :: "exn \<Rightarrow> response" where
  "icm_error_handler e = \<lparr>status_code = 502, detail = ''Upstream service error''\<rparr>"

text \<open>The \<open>add_exception_handler\<close> calls of main.py.\<close>

definition handlers :: "(exn_class \<times> (exn \<Rightarrow> response)) list" where
  "handlers =
    [(IcmC ICMServiceUnavailableError, icm_unavailable_handler),
     (IcmC ICMActiveSRConflictError, icm_conflict_handler),
     (IcmC ICMSRAlreadyWithdrawnError, icm_sr_withdrawn_handler),
     (PINValidationC, pin_validation_handler),
     (IcmC ICMError, icm_error_handler),
     (ReportingPeriodClosedC, reporting_period_closed_handler)]"

fun first_handler :: "(exn_class \<times> (exn \<Rightarrow> response)) list \<Rightarrow> exn_class list \<Rightarrow> (exn \<Rightarrow> response) option" where
  "first_handler hs [] = None"
| "first_handler hs (c # cs) =
     (case map_of hs c of Some h \<Rightarrow> Some h | None \<Rightarrow> first_handler hs cs)"

text \<open>
  What the client receives for an exception that leaves a route: the registered handler's
  response, an HTTPException as itself, anything else as the server's 500.
\<close>

definition respond :: "exn \<Rightarrow> response" where
  "respond e =
     (case e of HTTPExn n d \<Rightarrow> \<lparr>status_code = n, detail = d\<rparr>
      | _ \<Rightarrow> (case first_handler handlers (mro e) of
               Some h \<Rightarrow> h e
             | None \<Rightarrow> \<lparr>status_code = 500, detail = ''Internal Server Error''\<rparr>))"

lemmas handler_defs =
  icm_unavailable_handler_def icm_conflict_handler_def icm_sr_withdrawn_handler_def
  pin_validation_handler_def reporting_period_closed_handler_def icm_error_handler_def

lemma respond_icm:
  "status_code (respond (ICMExn c m ec)) =
     (case c of ICMServiceUnavailableError \<Rightarrow> 503
      | ICMActiveSRConflictError \<Rightarrow> 409
      | ICMSRAlreadyWithdrawnError \<Rightarrow> 409
      | _ \<Rightarrow> 502)"
  by (cases c) (simp_all add: respond_def handlers_def handler_defs)

lemma respond_pin [simp]:
  "respond (PINValidationExn m) = \<lparr>status_code = 403, detail = m\<rparr>"
  by (simp add: respond_def handlers_def handler_defs)

lemma respond_http [simp]: "respond (HTTPExn n d) = \<lparr>status_code = n, detail = d\<rparr>"
  by (simp add: respond_def)

lemma respond_closed [simp]:
  "status_code (respond (ReportingPeriodClosedExn m)) = 422"
  by (simp add: respond_def handlers_def handler_defs)

text \<open>
  No information of an ICM exception reaches the client: the response to one depends on its
  class only.
\<close>

lemma respond_icm_opaque: "respond (ICMExn c m ec) = respond (ICMExn c m' ec')"
  by (cases c) (simp_all add: respond_def handlers_def handler_defs)

text \<open>Every other exception is the server's own error.\<close>

fun has_handler :: "exn \<Rightarrow> bool" where
  "has_handler (ICMExn _ _ _) = True"
| "has_handler (PINValidationExn _) = True"
| "has_handler (ReportingPeriodClosedExn _) = True"
| "has_handler (HTTPExn _ _) = True"
| "has_handler _ = False"

lemma respond_unhandled: "\<not> has_handler e \<Longrightarrow> status_code (respond e) = 500"
  by (cases e) (simp_all add: respond_def handlers_def)

text \<open>
  The response to every error body ICM can send (a JSON object whose \<open>errorCode\<close> is a
  string) is fixed by the code alone: a duplicate service request and an already withdrawn one
  are conflicts (409), every other code, known or unknown, is a bad gateway (502), and neither
  ICM's message nor its code is shown to the client.
\<close>

theorem icm_error_responses:
  assumes "map_of kvs ''errorCode'' = Some (JStr code)"
  shows "\<exists>e. map_icm_error (JObj kvs) = Inr e \<and> respond e =
      (if code = ''ICM_ERR_ACTIVE_SR_CONFLICT''
       then \<lparr>status_code = 409, detail = ''An active service request of this type already exists''\<rparr>
       else if code = ''ICM_ERR_SR_ALREADY_WITHDRAWN''
       then \<lparr>status_code = 409, detail = ''Service request already withdrawn''\<rparr>
       else \<lparr>status_code = 502, detail = ''Upstream service error''\<rparr>)"
  using assms
  by (simp add: map_icm_error_def ERROR_MAP_def respond_def handlers_def handler_defs)

theorem icm_error_responses_witness:
  "\<exists>e. map_icm_error (JObj [(''errorCode'', JStr ''ICM_ERR_NO_CASE'')]) = Inr e \<and>
     respond e = \<lparr>status_code = 502, detail = ''Upstream service error''\<rparr>"
  using icm_error_responses [of "[(''errorCode'', JStr ''ICM_ERR_NO_CASE'')]" "''ICM_ERR_NO_CASE''"]
  by simp

end
