(* ===== verification/Machines.thy ===== *)
theory Machines
  imports Prelude
begin

text \<open>
  Labelled step relations shared by the stateful components: finite runs, invariants of runs,
  and the interface \<open>invariant_machine\<close> that a component's step relation and invariant
  instantiate. \<open>run_ops\<close> is the deterministic counterpart: a sequence of operations executed
  one after the other, each outcome recorded.
\<close>

inductive steps :: "('s \<Rightarrow> 'e \<Rightarrow> 's \<Rightarrow> bool) \<Rightarrow> 's \<Rightarrow> 'e list \<Rightarrow> 's \<Rightarrow> bool"
  for step :: "'s \<Rightarrow> 'e \<Rightarrow> 's \<Rightarrow> bool" where
  steps_nil: "steps step s [] s"
| steps_cons: "step s e t \<Longrightarrow> steps step t es u \<Longrightarrow> steps step s (e # es) u"

inductive_simps steps_Nil [simp]: "steps step s [] t"
inductive_simps steps_Cons: "steps step s (e # es) t"

lemma steps_append: "steps step s es t \<Longrightarrow> steps step t fs u \<Longrightarrow> steps step s (es @ fs) u"
  by (induction rule: steps.induct) (auto intro: steps.intros)

lemma steps_snocE:
  assumes "steps step s (es @ [e]) u"
  obtains t where "steps step s es t" and "step t e u"
  using assms
  by (induction es arbitrary: s thesis) (auto simp: steps_Cons intro: steps.intros)

lemma steps_restrict:
  assumes "steps step s es t" and "\<forall>e \<in> set es. P e"
  shows "steps (\<lambda>s e t. step s e t \<and> P e) s es t"
  using assms by (induction rule: steps.induct) (auto intro: steps.intros)

locale invariant_machine =
  fixes step :: "'s \<Rightarrow> 'e \<Rightarrow> 's \<Rightarrow> bool"
    and inv :: "'s \<Rightarrow> bool"
  assumes inv_step: "inv s \<Longrightarrow> step s e t \<Longrightarrow> inv t"
begin

lemma inv_steps: "steps step s es t \<Longrightarrow> inv s \<Longrightarrow> inv t"
  by (induction rule: steps.induct) (auto dest: inv_step)

text \<open>A fact of single steps from invariant states holds along a run, if it is transitive.\<close>

lemma trans_steps:
  assumes run: "steps step s es t" and "inv s"
    and R: "\<And>u e v. inv u \<Longrightarrow> step u e v \<Longrightarrow> R u v"
    and refl: "\<And>u. R u u" and trans: "\<And>u v w. R u v \<Longrightarrow> R v w \<Longrightarrow> R u w"
  shows "R s t"
  using run \<open>inv s\<close>
proof (induction rule: steps.induct)
  case (steps_nil s)
  show ?case by (rule refl)
next
  case (steps_cons s e t es u)
  have "inv t" using steps_cons.prems steps_cons.hyps(1) by (rule inv_step)
  then have "R t u" by (rule steps_cons.IH)
  moreover have "R s t" using steps_cons.prems steps_cons.hyps(1) by (rule R)
  ultimately show ?case by (rule trans[rotated])
qed

end

text \<open>
  Forward simulation: every concrete step is a run of abstract steps between the abstractions, for the labels that
  \<open>emits\<close> gives it, as long as the invariant of the concrete machine holds. Then so is every concrete run.
\<close>

locale simulation = invariant_machine step inv
  for step :: "'s \<Rightarrow> 'e \<Rightarrow> 's \<Rightarrow> bool" and inv +
  fixes astep :: "'a \<Rightarrow> 'l \<Rightarrow> 'a \<Rightarrow> bool"
    and abs :: "'s \<Rightarrow> 'a"
    and emits :: "'s \<Rightarrow> 'e \<Rightarrow> 'l list"
  assumes sim_step: "inv s \<Longrightarrow> step s e t \<Longrightarrow> steps astep (abs s) (emits s e) (abs t)"
begin

inductive emitted :: "'s \<Rightarrow> 'e list \<Rightarrow> 'l list \<Rightarrow> 's \<Rightarrow> bool" where
  emitted_nil: "emitted s [] [] s"
| emitted_cons: "step s e t \<Longrightarrow> emitted t es ls u \<Longrightarrow> emitted s (e # es) (emits s e @ ls) u"

lemma sim_steps: "steps step s es t \<Longrightarrow> inv s \<Longrightarrow> \<exists>ls. emitted s es ls t \<and> steps astep (abs s) ls (abs t)"
proof (induction rule: steps.induct)
  case (steps_nil s)
  then show ?case by (auto intro: emitted_nil)
next
  case (steps_cons s e t es u)
  have "inv t" using steps_cons.prems steps_cons.hyps(1) by (rule inv_step)
  then obtain ls where "emitted t es ls u" "steps astep (abs t) ls (abs u)" using steps_cons.IH by blast
  then show ?case
    using steps_append[OF sim_step[OF steps_cons.prems steps_cons.hyps(1)]] emitted_cons[OF steps_cons.hyps(1)] by blast
qed

end

end
