(* ===== verification/Circuit_Breaker.thy ===== *)
theory Circuit_Breaker
  imports Machines
begin

text \<open>
  The circuit breaker of the ICM client, \<open>_AsyncCircuitBreaker\<close> in
  \<open>app/services/icm/client.py\<close>.
  \<^item> The atomic sections, each executed under the breaker's lock: \<open>is_open\<close>, \<open>brk_enter\<close>,
    \<open>brk_success\<close>, \<open>brk_failure\<close>.
  \<^item> \<open>bstep\<close>: the interleavings of any number of concurrent calls, a call being admitted or
    refused, and later returning, raising, or being cancelled.
  \<^item> The breaker's invariant over all interleavings, its behaviour over one caller's sequence of
    outcomes, and the two places where concurrent callers get something else than the class
    comment promises: a cancelled probe and a straggler of the closed phase.
\<close>

section \<open>The breaker\<close>

datatype bstate = CLOSED | OPEN | HALF_OPEN

record breaker =
  fail_max :: nat
  reset_timeout :: int
  failures :: nat
  state :: bstate
  opened_at :: "instant option"
  probe_in_flight :: bool

definition breaker_init :: "nat \<Rightarrow> int \<Rightarrow> breaker" where
  "breaker_init n timeout =
     \<lparr>fail_max = n, reset_timeout = timeout, failures = 0, state = CLOSED,
      opened_at = None, probe_in_flight = False\<rparr>"

text \<open>\<open>_is_open\<close>; \<open>self._opened_at or 0\<close> reads an unset or zero time as 0.\<close>

definition is_open :: "instant \<Rightarrow> breaker \<Rightarrow> bool \<times> breaker" where
  "is_open now b =
     (case state b of
        CLOSED \<Rightarrow> (False, b)
      | HALF_OPEN \<Rightarrow> (False, b)
      | OPEN \<Rightarrow>
          (if now - (case opened_at b of None \<Rightarrow> 0 | Some t \<Rightarrow> t) \<ge> reset_timeout b
           then (False, b\<lparr>state := HALF_OPEN\<rparr>)
           else (True, b)))"

definition breaker_open_exn :: exn where
  "breaker_open_exn =
     ICMExn ICMServiceUnavailableError ''ICM circuit breaker is open; service unavailable'' None"

definition probe_busy_exn :: exn where
  "probe_busy_exn =
     ICMExn ICMServiceUnavailableError ''ICM circuit breaker: probe already in flight'' None"

text \<open>The first locked section of \<open>call_async\<close>: admit the call or raise.\<close>

definition brk_enter :: "instant \<Rightarrow> breaker \<Rightarrow> unit res \<times> breaker" where
  "brk_enter now b =
     (let (opened, b1) = is_open now b in
      if opened then (Inl breaker_open_exn, b1)
      else if state b1 = HALF_OPEN then
        (if probe_in_flight b1 then (Inl probe_busy_exn, b1)
         else (Inr (), b1\<lparr>probe_in_flight := True\<rparr>))
      else (Inr (), b1))"

text \<open>The locked section of the \<open>except Exception\<close> branch.\<close>

definition brk_failure :: "instant \<Rightarrow> breaker \<Rightarrow> breaker" where
  "brk_failure now b0 =
     (let b = b0\<lparr>failures := failures b0 + 1\<rparr> in
      if state b = HALF_OPEN then
        b\<lparr>state := OPEN, opened_at := Some now, probe_in_flight := False\<rparr>
      else if failures b \<ge> fail_max b then b\<lparr>state := OPEN, opened_at := Some now\<rparr>
      else b)"

text \<open>The locked section of the \<open>else\<close> branch.\<close>

definition brk_success :: "breaker \<Rightarrow> breaker" where
  "brk_success b = b\<lparr>failures := 0, state := CLOSED, probe_in_flight := False\<rparr>"

lemmas breaker_defs = is_open_def brk_enter_def brk_failure_def brk_success_def Let_def

lemma brk_enter_exn:
  "brk_enter now b = (Inl e, b') \<Longrightarrow> e = breaker_open_exn \<or> e = probe_busy_exn"
  by (auto simp: breaker_defs split: bstate.splits if_splits prod.splits)

lemma brk_config [simp]:
  "fail_max (snd (brk_enter now b)) = fail_max b"
  "reset_timeout (snd (brk_enter now b)) = reset_timeout b"
  "fail_max (brk_failure now b) = fail_max b"
  "reset_timeout (brk_failure now b) = reset_timeout b"
  "fail_max (brk_success b) = fail_max b"
  "reset_timeout (brk_success b) = reset_timeout b"
  by (auto simp: breaker_defs split: bstate.splits)

section \<open>The invariant\<close>

text \<open>
  What the three fields say of each other between two locked sections: closed means fewer
  failures in a row than the threshold, open means the threshold was reached and the opening
  time is known, and half-open is exactly the time a probe is out.
\<close>

definition breaker_inv :: "breaker \<Rightarrow> bool" where
  "breaker_inv b \<longleftrightarrow>
     (case state b of
        CLOSED \<Rightarrow> failures b < fail_max b \<and> \<not> probe_in_flight b
      | OPEN \<Rightarrow> fail_max b \<le> failures b \<and> \<not> probe_in_flight b \<and> opened_at b \<noteq> None
      | HALF_OPEN \<Rightarrow> fail_max b \<le> failures b \<and> probe_in_flight b)"

lemma breaker_inv_init: "0 < n \<Longrightarrow> breaker_inv (breaker_init n timeout)"
  by (simp add: breaker_inv_def breaker_init_def)

lemma breaker_inv_enter: "breaker_inv b \<Longrightarrow> breaker_inv (snd (brk_enter now b))"
  by (cases "state b") (auto simp: breaker_inv_def breaker_defs)

lemma breaker_inv_failure: "breaker_inv b \<Longrightarrow> breaker_inv (brk_failure now b)"
  by (cases "state b") (auto simp: breaker_inv_def breaker_defs)

lemma breaker_inv_success: "0 < fail_max b \<Longrightarrow> breaker_inv (brk_success b)"
  by (auto simp: breaker_inv_def breaker_defs)

lemmas breaker_inv_intros = breaker_inv_enter breaker_inv_failure breaker_inv_success

text \<open>What a call meets, by the state of the breaker.\<close>

lemma enter_closed:
  "state b = CLOSED \<Longrightarrow> brk_enter now b = (Inr (), b)"
  by (simp add: breaker_defs)

lemma enter_open_early:
  "state b = OPEN \<Longrightarrow> opened_at b = Some t \<Longrightarrow> now < t + reset_timeout b \<Longrightarrow>
   brk_enter now b = (Inl breaker_open_exn, b)"
  by (simp add: breaker_defs)

lemma enter_open_late:
  "state b = OPEN \<Longrightarrow> opened_at b = Some t \<Longrightarrow> t + reset_timeout b \<le> now \<Longrightarrow> \<not> probe_in_flight b \<Longrightarrow>
   brk_enter now b = (Inr (), b\<lparr>state := HALF_OPEN, probe_in_flight := True\<rparr>)"
  by (simp add: breaker_defs)

lemma enter_half_open:
  "state b = HALF_OPEN \<Longrightarrow> probe_in_flight b \<Longrightarrow> brk_enter now b = (Inl probe_busy_exn, b)"
  by (simp add: breaker_defs)

section \<open>Concurrent calls\<close>

text \<open>
  Calls are numbered. \<open>flight\<close> holds the calls admitted and not finished, \<open>probes\<close> those of
  them admitted while the breaker was half-open (not a field of the code: it names what the
  class comment speaks of).
\<close>

record bsys =
  brk :: breaker
  flight :: "nat set"
  probes :: "nat set"

datatype bevent =
    Enter nat instant
  | Return nat
  | Raise nat instant
  | Cancel nat

definition land :: "nat \<Rightarrow> breaker \<Rightarrow> bsys \<Rightarrow> bsys" where
  "land c b s = \<lparr>brk = b, flight = flight s - {c}, probes = probes s - {c}\<rparr>"

inductive bstep :: "bsys \<Rightarrow> bevent \<Rightarrow> bsys \<Rightarrow> bool" where
  admit: "c \<notin> flight s \<Longrightarrow> brk_enter now (brk s) = (Inr (), b) \<Longrightarrow>
    bstep s (Enter c now)
      \<lparr>brk = b, flight = insert c (flight s),
       probes = (if state b = HALF_OPEN then insert c (probes s) else probes s)\<rparr>"
| refuse: "c \<notin> flight s \<Longrightarrow> brk_enter now (brk s) = (Inl e, b) \<Longrightarrow>
    bstep s (Enter c now) (s\<lparr>brk := b\<rparr>)"
| finish_ok: "c \<in> flight s \<Longrightarrow> bstep s (Return c) (land c (brk_success (brk s)) s)"
| finish_exn: "c \<in> flight s \<Longrightarrow> bstep s (Raise c now) (land c (brk_failure now (brk s)) s)"
| cancel: "c \<in> flight s \<Longrightarrow> bstep s (Cancel c) (land c (brk s) s)"

inductive_cases bstep_EnterE: "bstep s (Enter c now) t"
inductive_simps bstep_Return: "bstep s (Return c) t"
inductive_simps bstep_Raise: "bstep s (Raise c now) t"
inductive_simps bstep_Cancel: "bstep s (Cancel c) t"

definition bsys_init :: "nat \<Rightarrow> int \<Rightarrow> bsys" where
  "bsys_init n timeout = \<lparr>brk = breaker_init n timeout, flight = {}, probes = {}\<rparr>"

text \<open>The relation is executable: each event has at most one outcome.\<close>

fun bexec :: "bsys \<Rightarrow> bevent \<Rightarrow> bsys option" where
  "bexec s (Enter c now) =
     (if c \<in> flight s then None
      else (case brk_enter now (brk s) of
          (Inr _, b) \<Rightarrow> Some \<lparr>brk = b, flight = insert c (flight s),
            probes = (if state b = HALF_OPEN then insert c (probes s) else probes s)\<rparr>
        | (Inl _, b) \<Rightarrow> Some (s\<lparr>brk := b\<rparr>)))"
| "bexec s (Return c) = (if c \<in> flight s then Some (land c (brk_success (brk s)) s) else None)"
| "bexec s (Raise c now) = (if c \<in> flight s then Some (land c (brk_failure now (brk s)) s) else None)"
| "bexec s (Cancel c) = (if c \<in> flight s then Some (land c (brk s) s) else None)"

lemma bstep_iff_bexec: "bstep s e t \<longleftrightarrow> bexec s e = Some t"
proof
  show "bstep s e t \<Longrightarrow> bexec s e = Some t"
    by (induction rule: bstep.induct) auto
  show "bexec s e = Some t \<Longrightarrow> bstep s e t"
    by (cases e) (auto dest: bstep.admit intro: bstep.intros split: if_splits prod.splits sum.splits)
qed

fun bruns :: "bsys \<Rightarrow> bevent list \<Rightarrow> bsys option" where
  "bruns s [] = Some s"
| "bruns s (e # es) = (case bexec s e of None \<Rightarrow> None | Some t \<Rightarrow> bruns t es)"

lemma steps_iff_bruns: "steps bstep s es t \<longleftrightarrow> bruns s es = Some t"
  by (induction es arbitrary: s) (auto simp: steps_Cons bstep_iff_bexec split: option.splits)

text \<open>
  The system's invariant: the breaker's own, for a positive threshold, and every probe is one
  of the calls that are out.
\<close>

definition bsys_inv :: "bsys \<Rightarrow> bool" where
  "bsys_inv s \<longleftrightarrow> breaker_inv (brk s) \<and> 0 < fail_max (brk s) \<and> probes s \<subseteq> flight s"

lemma enter_pair: "brk_enter now b = (r, b') \<Longrightarrow> snd (brk_enter now b) = b'"
  by simp

lemma bstep_inv:
  assumes "bsys_inv s" and "bstep s e t"
  shows "bsys_inv t"
  using assms(2,1)
proof (induction rule: bstep.induct)
  case (admit c s now b)
  then show ?case
    using breaker_inv_enter[of "brk s" now] brk_config(1)[of now "brk s"]
    by (auto simp: bsys_inv_def)
next
  case (refuse c s now e b)
  then show ?case
    using breaker_inv_enter[of "brk s" now] brk_config(1)[of now "brk s"]
    by (auto simp: bsys_inv_def)
qed (auto simp: bsys_inv_def land_def intro: breaker_inv_intros)

interpretation cb: invariant_machine bstep bsys_inv
  by unfold_locales (rule bstep_inv)

lemma bsys_inv_init: "0 < n \<Longrightarrow> bsys_inv (bsys_init n timeout)"
  by (simp add: bsys_inv_def bsys_init_def breaker_inv_init) (simp add: breaker_init_def)

text \<open>C8.
  In every state the concurrent callers of a breaker can reach, whatever their interleaving
  and timing and whichever calls return, raise or are cancelled: a closed breaker has seen
  fewer failures in a row than its threshold, an open one has reached it and knows its opening
  time, and the breaker is half-open exactly while its probe flag is set, so that a call that
  arrives in the half-open state is refused without a change.
\<close>

theorem breaker_reachable_inv:
  assumes "0 < n" and "steps bstep (bsys_init n timeout) es s"
  shows "breaker_inv (brk s) \<and>
    (state (brk s) = HALF_OPEN \<longleftrightarrow> probe_in_flight (brk s)) \<and>
    (state (brk s) = HALF_OPEN \<longrightarrow> brk_enter now (brk s) = (Inl probe_busy_exn, brk s))"
proof -
  have "bsys_inv s"
    using assms(2) bsys_inv_init[OF assms(1)] by (rule cb.inv_steps)
  then have "breaker_inv (brk s)" by (simp add: bsys_inv_def)
  moreover from this have "state (brk s) = HALF_OPEN \<longleftrightarrow> probe_in_flight (brk s)"
    by (cases "state (brk s)") (auto simp: breaker_inv_def)
  ultimately show ?thesis by (simp add: enter_half_open)
qed

section \<open>One caller's sequence of calls\<close>

text \<open>
  A call is its arrival time, whether it succeeded, and its end time. \<open>streak\<close> is the number
  of failures at the end of a history of outcomes.
\<close>

type_synonym bcall = "instant \<times> bool \<times> instant"

fun outcome :: "bcall \<Rightarrow> bool" where
  "outcome (_, ok, _) = ok"

fun seq_call :: "bcall \<Rightarrow> breaker \<Rightarrow> breaker" where
  "seq_call (t, ok, t') b =
     (case brk_enter t b of
        (Inl e, b') \<Rightarrow> b'
      | (Inr _, b') \<Rightarrow> (if ok then brk_success b' else brk_failure t' b'))"

definition streak :: "bool list \<Rightarrow> nat" where
  "streak os = length (takeWhile Not (rev os))"

lemma streak_snoc [simp]: "streak (os @ [ok]) = (if ok then 0 else Suc (streak os))"
  by (simp add: streak_def)

lemma streak_Nil [simp]: "streak [] = 0"
  by (simp add: streak_def)

lemma seq_calls_closed:
  assumes "0 < n" and "\<forall>k \<le> length cs. streak (take k (map outcome cs)) < n"
  shows "\<exists>o'. fold seq_call cs (breaker_init n timeout) =
    (breaker_init n timeout)\<lparr>failures := streak (map outcome cs), opened_at := o'\<rparr>"
  using assms(2)
proof (induction cs rule: rev_induct)
  case Nil
  then show ?case by (auto simp: breaker_init_def)
next
  case (snoc c cs)
  have "\<forall>k \<le> length cs. streak (take k (map outcome cs)) < n"
    using snoc.prems by (metis (no_types, lifting) le_SucI length_append_singleton length_map
        map_append take_append append_Nil2 diff_is_0_eq take_0)
  then obtain o' where IH: "fold seq_call cs (breaker_init n timeout) =
    (breaker_init n timeout)\<lparr>failures := streak (map outcome cs), opened_at := o'\<rparr>"
    using snoc.IH by blast
  have lt: "streak (map outcome cs @ [outcome c]) < n"
    using snoc.prems[rule_format, of "Suc (length cs)"] by simp
  obtain t ok t' where c: "c = (t, ok, t')" by (cases c)
  show ?case
    using IH lt by (cases ok) (auto simp: c breaker_init_def breaker_defs)
qed

text \<open>C9.
  Over a sequence of calls one after the other, the breaker counts consecutive failures and
  nothing else: as long as no run of failures reaches the threshold it is closed and its
  counter is the length of the current run; with the call that completes the first such run
  it opens, at the end time of that call.
\<close>

theorem breaker_counts_consecutive_failures:
  assumes "0 < n" and "\<forall>k \<le> length cs. streak (take k (map outcome cs)) < n"
  shows "state (fold seq_call cs (breaker_init n timeout)) = CLOSED \<and>
    failures (fold seq_call cs (breaker_init n timeout)) = streak (map outcome cs) \<and>
    (let b = fold seq_call (cs @ [(t, False, t')]) (breaker_init n timeout) in
      if Suc (streak (map outcome cs)) = n
      then state b = OPEN \<and> opened_at b = Some t' \<and> failures b = n
      else state b = CLOSED)"
  using seq_calls_closed[OF assms, of timeout] assms(2)[rule_format, of "length cs"] assms(1)
  by (auto simp: breaker_init_def breaker_defs)

theorem breaker_counts_consecutive_failures_witness:
  "state (fold seq_call [(0, False, 1), (2, False, 3)] (breaker_init 3 30)) = CLOSED \<and>
    failures (fold seq_call [(0, False, 1), (2, False, 3)] (breaker_init 3 30)) =
      streak (map outcome [(0, False, 1), (2, False, 3)]) \<and>
    (let b = fold seq_call ([(0, False, 1), (2, False, 3)] @ [(4, False, 5)]) (breaker_init 3 30) in
      if Suc (streak (map outcome [(0, False, 1), (2, False, 3)])) = 3
      then state b = OPEN \<and> opened_at b = Some 5 \<and> failures b = 3
      else state b = CLOSED)"
proof -
  have le: "k \<le> Suc (Suc 0) \<Longrightarrow> k = 0 \<or> k = 1 \<or> k = 2" for k :: nat by auto
  show ?thesis
    by (rule breaker_counts_consecutive_failures) (auto dest!: le simp: streak_def)
qed

text \<open>
  An open breaker refuses every call that arrives before its recovery time, however many there
  are and without any effect; the first call that arrives at the recovery time or later is let
  through as a probe and every other one is refused while it is out; the probe's success closes
  the breaker with a clean counter, its failure opens it again from the time of the failure.
\<close>

theorem breaker_recovery:
  assumes inv: "breaker_inv b" and op: "state b = OPEN" "opened_at b = Some t0"
    and early: "\<forall>t \<in> set ts. t < t0 + reset_timeout b"
    and late: "t0 + reset_timeout b \<le> t"
  shows "fold (\<lambda>t b'. snd (brk_enter t b')) ts b = b \<and>
    (\<forall>t' \<in> set ts. fst (brk_enter t' b) = Inl breaker_open_exn) \<and>
    (\<exists>p. brk_enter t b = (Inr (), p) \<and> state p = HALF_OPEN \<and>
      brk_enter t' p = (Inl probe_busy_exn, p) \<and>
      state (brk_success p) = CLOSED \<and> failures (brk_success p) = 0 \<and>
      state (brk_failure t'' p) = OPEN \<and> opened_at (brk_failure t'' p) = Some t'')"
proof -
  have early1: "u \<in> set ts \<Longrightarrow> brk_enter u b = (Inl breaker_open_exn, b)" for u
    using op early by (simp add: enter_open_early)
  then have "fold (\<lambda>t b'. snd (brk_enter t b')) ts b = b"
    by (induction ts) auto
  moreover have "\<not> probe_in_flight b" using inv op by (simp add: breaker_inv_def)
  ultimately show ?thesis
    using early1 op late by (simp add: enter_open_late enter_half_open brk_success_def brk_failure_def Let_def)
qed

theorem breaker_recovery_witness:
  "fold (\<lambda>t b'. snd (brk_enter t b')) [20, 39] (brk_failure 10 (breaker_init 1 30)) =
      brk_failure 10 (breaker_init 1 30) \<and>
    fst (brk_enter 20 (brk_failure 10 (breaker_init 1 30))) = Inl breaker_open_exn \<and>
    fst (brk_enter 39 (brk_failure 10 (breaker_init 1 30))) = Inl breaker_open_exn \<and>
    (\<exists>p. brk_enter 40 (brk_failure 10 (breaker_init 1 30)) = (Inr (), p) \<and> state p = HALF_OPEN \<and>
      brk_enter 41 p = (Inl probe_busy_exn, p) \<and>
      state (brk_success p) = CLOSED \<and> failures (brk_success p) = 0 \<and>
      state (brk_failure 42 p) = OPEN \<and> opened_at (brk_failure 42 p) = Some 42)"
  using breaker_recovery [of "brk_failure 10 (breaker_init 1 30)" 10 "[20, 39]" 40 41 42]
  by (simp add: breaker_inv_def brk_failure_def breaker_init_def)

section \<open>Where concurrency departs from the comments\<close>

text \<open>
  A cancelled call runs neither the \<open>except Exception\<close> nor the \<open>else\<close> branch. If it was the
  probe and no other call is out, no transition of the breaker is left but refusals.
\<close>

definition wedged :: "bsys \<Rightarrow> bool" where
  "wedged s \<longleftrightarrow> state (brk s) = HALF_OPEN \<and> probe_in_flight (brk s) \<and> flight s = {}"

lemma wedged_step: "wedged s \<Longrightarrow> bstep s e t \<Longrightarrow> t = s"
  by (erule bstep.cases) (auto simp: wedged_def enter_half_open)

interpretation wedge: invariant_machine bstep wedged
  by unfold_locales (auto dest: wedged_step)

text \<open>C10.
  When the probe of a half-open breaker is cancelled while no other call is out, the breaker
  never recovers: from then on, whatever is called at whatever time, every call is refused and
  the breaker stays half-open.
\<close>

theorem cancelled_probe_wedges:
  assumes inv: "bsys_inv s" and half: "state (brk s) = HALF_OPEN" and only: "flight s = {c}"
    and run: "steps bstep s (Cancel c # es) t"
  shows "brk t = brk s \<and> flight t = {} \<and> fst (brk_enter now (brk t)) = Inl probe_busy_exn"
proof -
  from run only have after: "steps bstep (land c (brk s) s) es t"
    by (simp add: steps_Cons bstep_Cancel)
  have w: "wedged (land c (brk s) s)"
    using inv half only by (simp add: wedged_def land_def bsys_inv_def breaker_inv_def)
  have "land c (brk s) s = t"
    using after w by (rule wedge.trans_steps) (auto dest: wedged_step)
  then show ?thesis using w only by (auto simp: wedged_def land_def enter_half_open)
qed

text \<open>A half-open breaker with only its probe out, reached from the start.\<close>

definition probing :: bsys where
  "probing = \<lparr>brk = (brk_failure 0 (breaker_init 1 30))\<lparr>state := HALF_OPEN, probe_in_flight := True\<rparr>,
     flight = {1}, probes = {1}\<rparr>"

lemma probing_reached: "steps bstep (bsys_init 1 30) [Enter 0 0, Raise 0 0, Enter 1 30] probing"
  unfolding steps_iff_bruns
  by (simp add: bsys_init_def breaker_init_def breaker_defs probing_def land_def)

lemma probing_state: "state (brk probing) = HALF_OPEN"
  by (simp add: probing_def)

theorem breaker_reachable_inv_witness:
  "breaker_inv (brk probing) \<and> probe_in_flight (brk probing) \<and>
    brk_enter 40 (brk probing) = (Inl probe_busy_exn, brk probing)"
  using breaker_reachable_inv[OF _ probing_reached, of 40] probing_state by simp

theorem cancelled_probe_wedges_witness:
  "brk (land 1 (brk probing) probing) = brk probing \<and> flight (land 1 (brk probing) probing) = {} \<and>
    fst (brk_enter 1000000 (brk (land 1 (brk probing) probing))) = Inl probe_busy_exn"
proof (rule cancelled_probe_wedges)
  show "bsys_inv probing"
    using probing_reached bsys_inv_init[of 1 30] by (auto intro: cb.inv_steps)
  show "steps bstep probing [Cancel 1] (land 1 (brk probing) probing)"
    by (auto simp: steps_Cons bstep_Cancel probing_def)
qed (simp_all add: probing_def)

text \<open>
  Two probes can be out at once: a call admitted while the breaker was closed and failing only
  when the breaker is half-open clears the probe flag and opens the breaker again, so that after
  the recovery time a second probe is let through while the first is still out.
\<close>

theorem two_probes_in_flight:
  "\<exists>s. steps bstep (bsys_init 1 30)
      [Enter 0 0, Enter 1 0, Raise 0 0, Enter 2 30, Raise 1 31, Enter 3 61] s \<and>
    probes s = {2, 3} \<and> flight s = {2, 3}"
  unfolding steps_iff_bruns
  by (simp add: bsys_init_def breaker_init_def breaker_defs land_def) auto

end
