(* ===== verification/Icm_Port.thy ===== *)
theory Icm_Port
  imports Icm_Errors
begin

text \<open>
  The interface between the domain services and ICM (Siebel).
  \<^item> \<open>icm_req\<close>: the request a method of a Siebel client class builds (method, path, query
    parameters, JSON body), one definition per method of \<open>app/services/icm/*.py\<close>.
  \<^item> \<open>icm_fun\<close>: what answers requests, a function of the request and of a remote state. The
    services take it as a parameter; Icm_Client gives the one the source uses (token, retries,
    circuit breaker over HTTP).
  \<^item> \<open>base\<close>: the state every service shares: the remote state, the log of the requests made, and
    the readings of the wall clock and of the UUID generator.
\<close>

section \<open>Requests\<close>

datatype http_method = GET | POST | PUT | DELETE

record icm_req =
  rq_method :: http_method
  rq_path :: string
  rq_params :: "(string \<times> json) list"
  rq_json :: json

definition get_req :: "string \<Rightarrow> (string \<times> json) list \<Rightarrow> icm_req" where
  "get_req p ps = \<lparr>rq_method = GET, rq_path = p, rq_params = ps, rq_json = JNull\<rparr>"

definition post_req :: "string \<Rightarrow> json \<Rightarrow> (string \<times> json) list \<Rightarrow> icm_req" where
  "post_req p j ps = \<lparr>rq_method = POST, rq_path = p, rq_params = ps, rq_json = j\<rparr>"

definition put_req :: "string \<Rightarrow> json \<Rightarrow> icm_req" where
  "put_req p j = \<lparr>rq_method = PUT, rq_path = p, rq_params = [], rq_json = j\<rparr>"

definition delete_req :: "string \<Rightarrow> icm_req" where
  "delete_req p = \<lparr>rq_method = DELETE, rq_path = p, rq_params = [], rq_json = JNull\<rparr>"

lemmas req_defs = get_req_def post_req_def put_req_def delete_req_def

fun opt_json :: "string option \<Rightarrow> json" where
  "opt_json None = JNull"
| "opt_json (Some s) = JStr s"

text \<open>Decimal digits of an integer, as an f-string prints it.\<close>

fun show_nat :: "nat \<Rightarrow> string" where
  "show_nat n = (if n < 10 then [char_of (48 + n)] else show_nat (n div 10) @ [char_of (48 + n mod 10)])"

declare show_nat.simps [simp del]

definition show_int :: "int \<Rightarrow> string" where
  "show_int i = (if i < 0 then CHR ''-'' # show_nat (nat (- i)) else show_nat (nat i))"

subsection \<open>Service requests (SiebelSRClient)\<close>

definition create_sr_req :: "string \<Rightarrow> string \<Rightarrow> icm_req" where
  "create_sr_req sr_type profile_id =
     post_req ''/service-requests''
       (JObj [(''sr_type'', JStr sr_type), (''profile_id'', JStr profile_id)]) []"

definition get_sr_list_req :: "string \<Rightarrow> icm_req" where
  "get_sr_list_req profile_id = get_req ''/service-requests'' [(''profile_id'', JStr profile_id)]"

definition get_sr_detail_req :: "string \<Rightarrow> icm_req" where
  "get_sr_detail_req sr_id = get_req (''/service-requests/'' @ sr_id) []"

definition cancel_sr_req :: "string \<Rightarrow> string \<Rightarrow> icm_req" where
  "cancel_sr_req sr_id reason =
     post_req (''/service-requests/'' @ sr_id @ ''/cancel'') (JObj [(''reason'', JStr reason)]) []"

definition get_return_action_req :: "string \<Rightarrow> icm_req" where
  "get_return_action_req sr_type =
     get_req ''/service-requests/return-action'' [(''sr_type'', JStr sr_type)]"

definition get_eligible_types_req :: "string \<Rightarrow> string \<Rightarrow> icm_req" where
  "get_eligible_types_req profile_id case_status =
     get_req ''/service-requests/eligible-types''
       [(''profile_id'', JStr profile_id), (''case_status'', JStr case_status)]"

definition finalize_sr_form_req :: "string \<Rightarrow> json \<Rightarrow> icm_req" where
  "finalize_sr_form_req sr_id answers =
     post_req (''/service-requests/'' @ sr_id @ ''/finalize'') (JObj [(''answers'', answers)]) []"

subsection \<open>Accounts and PINs (SiebelAccountClient)\<close>

definition acct_profile_req :: "string \<Rightarrow> icm_req" where
  "acct_profile_req user_id = get_req (''/profiles/'' @ user_id) []"

definition update_contact_req :: "string \<Rightarrow> json \<Rightarrow> icm_req" where
  "update_contact_req user_id data = put_req (''/profiles/'' @ user_id @ ''/contact'') data"

definition get_case_members_req :: "string \<Rightarrow> icm_req" where
  "get_case_members_req user_id = get_req (''/profiles/'' @ user_id @ ''/case-members'') []"

definition sync_profile_req :: "string \<Rightarrow> icm_req" where
  "sync_profile_req user_id = post_req (''/profiles/'' @ user_id @ ''/sync'') JNull []"

definition validate_pin_req :: "string \<Rightarrow> string \<Rightarrow> icm_req" where
  "validate_pin_req user_id pin =
     post_req (''/profiles/'' @ user_id @ ''/validate-pin'') (JObj [(''pin'', JStr pin)]) []"

definition change_pin_req :: "string \<Rightarrow> string \<Rightarrow> icm_req" where
  "change_pin_req user_id new_pin =
     post_req (''/profiles/'' @ user_id @ ''/change-pin'') (JObj [(''new_pin'', JStr new_pin)]) []"

definition request_pin_reset_req :: "string \<Rightarrow> string \<Rightarrow> icm_req" where
  "request_pin_reset_req user_id email =
     post_req (''/profiles/'' @ user_id @ ''/reset-pin'') (JObj [(''email'', JStr email)]) []"

definition confirm_pin_reset_req :: "string \<Rightarrow> string \<Rightarrow> icm_req" where
  "confirm_pin_reset_req token new_pin =
     post_req ''/pin-reset/confirm'' (JObj [(''token'', JStr token), (''new_pin'', JStr new_pin)]) []"

subsection \<open>Monthly reports (SiebelMonthlyReportClient)\<close>

text \<open>\<open>{"profile_id": profile_id} if profile_id else {}\<close>.\<close>

definition profile_params :: "string option \<Rightarrow> (string \<times> json) list" where
  "profile_params p =
     (case p of None \<Rightarrow> [] | Some s \<Rightarrow> if s = [] then [] else [(''profile_id'', JStr s)])"

definition get_report_period_req :: "string \<Rightarrow> icm_req" where
  "get_report_period_req case_number = get_req (''/cases/'' @ case_number @ ''/report-period'') []"

definition submit_monthly_report_req :: "string \<Rightarrow> json \<Rightarrow> string option \<Rightarrow> icm_req" where
  "submit_monthly_report_req sd81_id data profile_id =
     post_req (''/monthly-reports/'' @ sd81_id @ ''/submit'') data (profile_params profile_id)"

definition get_ia_questionnaire_req :: "string \<Rightarrow> string option \<Rightarrow> icm_req" where
  "get_ia_questionnaire_req sd81_id profile_id =
     get_req (''/monthly-reports/'' @ sd81_id @ ''/questionnaire'') (profile_params profile_id)"

definition list_reports_req :: "string \<Rightarrow> int \<Rightarrow> icm_req" where
  "list_reports_req profile_id days_ago =
     get_req (''/profiles/'' @ profile_id @ ''/monthly-reports'') [(''days_ago'', JInt days_ago)]"

definition start_report_req :: "string \<Rightarrow> icm_req" where
  "start_report_req profile_id = post_req (''/profiles/'' @ profile_id @ ''/monthly-reports'') JNull []"

definition finalize_report_req :: "string \<Rightarrow> json \<Rightarrow> string option \<Rightarrow> icm_req" where
  "finalize_report_req sd81_id answers profile_id =
     post_req (''/monthly-reports/'' @ sd81_id @ ''/finalize'') answers (profile_params profile_id)"

definition restart_report_req :: "string \<Rightarrow> string option \<Rightarrow> icm_req" where
  "restart_report_req sd81_id profile_id =
     post_req (''/monthly-reports/'' @ sd81_id @ ''/restart'') JNull (profile_params profile_id)"

definition report_summary_req :: "string \<Rightarrow> icm_req" where
  "report_summary_req sd81_id = get_req (''/monthly-reports/'' @ sd81_id @ ''/summary'') []"

definition report_pdf_req :: "string \<Rightarrow> string option \<Rightarrow> icm_req" where
  "report_pdf_req sd81_id profile_id =
     get_req (''/monthly-reports/'' @ sd81_id @ ''/pdf'') (profile_params profile_id)"

subsection \<open>Messages and banners (SiebelNotificationClient)\<close>

definition get_banners_req :: "string \<Rightarrow> icm_req" where
  "get_banners_req case_number = get_req (''/cases/'' @ case_number @ ''/banners'') []"

definition get_messages_req :: "string \<Rightarrow> int \<Rightarrow> icm_req" where
  "get_messages_req profile_id page =
     get_req ''/messages'' [(''profile_id'', JStr profile_id), (''page'', JInt page)]"

definition get_message_detail_req :: "string \<Rightarrow> icm_req" where
  "get_message_detail_req message_id = get_req (''/messages/'' @ message_id) []"

definition mark_read_req :: "string \<Rightarrow> icm_req" where
  "mark_read_req message_id = post_req (''/messages/'' @ message_id @ ''/mark-read'') JNull []"

definition send_message_req :: "json \<Rightarrow> icm_req" where
  "send_message_req data = post_req ''/messages'' data []"

definition delete_message_req :: "string \<Rightarrow> icm_req" where
  "delete_message_req msg_id = delete_req (''/messages/'' @ msg_id)"

definition sign_message_req :: "string \<Rightarrow> string \<Rightarrow> icm_req" where
  "sign_message_req msg_id pin =
     post_req (''/messages/'' @ msg_id @ ''/sign'') (JObj [(''pin'', JStr pin)]) []"

subsection \<open>Payments (SiebelPaymentClient)\<close>

definition get_payment_info_req :: "string \<Rightarrow> icm_req" where
  "get_payment_info_req case_number = get_req (''/cases/'' @ case_number @ ''/payment'') []"

definition get_cheque_schedule_req :: "string \<Rightarrow> icm_req" where
  "get_cheque_schedule_req case_number = get_req (''/cases/'' @ case_number @ ''/cheque-schedule'') []"

definition get_t5007_slips_req :: "string \<Rightarrow> icm_req" where
  "get_t5007_slips_req profile_id = get_req (''/profiles/'' @ profile_id @ ''/t5007-slips'') []"

definition get_t5_history_years_req :: "string \<Rightarrow> icm_req" where
  "get_t5_history_years_req profile_id = get_req (''/profiles/'' @ profile_id @ ''/t5-history-years'') []"

definition get_mis_data_req :: "string \<Rightarrow> icm_req" where
  "get_mis_data_req profile_id = get_req (''/profiles/'' @ profile_id @ ''/mis-data'') []"

definition get_t5007_pdf_req :: "string \<Rightarrow> int \<Rightarrow> icm_req" where
  "get_t5007_pdf_req profile_id year =
     get_req (''/profiles/'' @ profile_id @ ''/t5007-slips/'' @ show_int year @ ''/pdf'') []"

subsection \<open>Employment plans (SiebelEPClient)\<close>

definition get_ep_list_req :: "string \<Rightarrow> icm_req" where
  "get_ep_list_req profile_id = get_req (''/profiles/'' @ profile_id @ ''/employment-plans'') []"

definition get_ep_detail_req :: "string \<Rightarrow> icm_req" where
  "get_ep_detail_req ep_id = get_req (''/employment-plans/'' @ ep_id) []"

definition sign_ep_req :: "string \<Rightarrow> json \<Rightarrow> icm_req" where
  "sign_ep_req ep_id data = post_req (''/employment-plans/'' @ ep_id @ ''/sign'') data []"

definition send_to_icm_req :: "string \<Rightarrow> string \<Rightarrow> icm_req" where
  "send_to_icm_req ep_id pin =
     post_req (''/employment-plans/'' @ ep_id @ ''/send'') (JObj [(''pin'', JStr pin)]) []"

definition mark_form_submitted_req :: "string \<Rightarrow> int \<Rightarrow> icm_req" where
  "mark_form_submitted_req ep_id msg_id =
     post_req (''/employment-plans/'' @ ep_id @ ''/mark-submitted'') (JObj [(''msg_id'', JInt msg_id)]) []"

subsection \<open>Attachments (SiebelAttachmentClient)\<close>

definition upload_attachment_req :: "string \<Rightarrow> json \<Rightarrow> icm_req" where
  "upload_attachment_req sr_id data =
     post_req (''/service-requests/'' @ sr_id @ ''/attachments'') data []"

definition get_attachment_req :: "string \<Rightarrow> icm_req" where
  "get_attachment_req attachment_id = get_req (''/attachments/'' @ attachment_id) []"

definition delete_sr_attachment_req :: "string \<Rightarrow> string \<Rightarrow> icm_req" where
  "delete_sr_attachment_req sr_id attachment_id =
     delete_req (''/service-requests/'' @ sr_id @ ''/attachments/'' @ attachment_id)"

definition get_message_attachment_req :: "string \<Rightarrow> string \<Rightarrow> string \<Rightarrow> icm_req" where
  "get_message_attachment_req profile_id msg_id attachment_id =
     get_req (''/profiles/'' @ profile_id @ ''/messages/'' @ msg_id @ ''/attachments/'' @ attachment_id) []"

definition get_sr_attachment_req :: "string \<Rightarrow> string \<Rightarrow> icm_req" where
  "get_sr_attachment_req profile_id sr_id =
     get_req (''/profiles/'' @ profile_id @ ''/service-requests/'' @ sr_id @ ''/attachment'') []"

subsection \<open>Profiles and registration (SiebelProfileClient, SiebelRegistrationClient)\<close>

definition get_tombstone_req :: "string \<Rightarrow> icm_req" where
  "get_tombstone_req bceid_guid = get_req (''/contacts/'' @ bceid_guid @ ''/tombstone'') []"

definition profile_validate_pin_req :: "string \<Rightarrow> string \<Rightarrow> icm_req" where
  "profile_validate_pin_req bceid_guid pin =
     post_req (''/contacts/'' @ bceid_guid @ ''/validate-pin'') (JObj [(''pin'', JStr pin)]) []"

definition update_tombstone_req :: "string \<Rightarrow> json \<Rightarrow> icm_req" where
  "update_tombstone_req bceid_guid data = put_req (''/contacts/'' @ bceid_guid @ ''/tombstone'') data"

definition contact_profile_req :: "string \<Rightarrow> icm_req" where
  "contact_profile_req bceid_guid = get_req (''/contacts/'' @ bceid_guid @ ''/profile'') []"

definition link_profile_req :: "string \<Rightarrow> json \<Rightarrow> icm_req" where
  "link_profile_req bceid_guid data = post_req (''/contacts/'' @ bceid_guid @ ''/link'') data []"

definition has_newer_profile_req :: "string \<Rightarrow> icm_req" where
  "has_newer_profile_req bceid_guid = get_req (''/contacts/'' @ bceid_guid @ ''/has-newer-profile'') []"

definition register_new_applicant_req :: "json \<Rightarrow> icm_req" where
  "register_new_applicant_req data = post_req ''/registrations/new'' data []"

definition register_existing_client_req :: "json \<Rightarrow> icm_req" where
  "register_existing_client_req data = post_req ''/registrations/existing'' data []"

definition get_link_options_req :: "string \<Rightarrow> icm_req" where
  "get_link_options_req bceid_guid = get_req (''/registrations/link-options/'' @ bceid_guid) []"

subsection \<open>Administration (SiebelAdminClient)\<close>

fun param_if :: "string \<Rightarrow> string option \<Rightarrow> (string \<times> json) list" where
  "param_if k None = []"
| "param_if k (Some v) = (if v = [] then [] else [(k, JStr v)])"

definition search_profiles_req :: "string option \<Rightarrow> string option \<Rightarrow> string option \<Rightarrow> int \<Rightarrow> icm_req" where
  "search_profiles_req first_name last_name sin page =
     get_req ''/admin/clients''
       ([(''page'', JInt page), (''page_size'', JInt 10)] @
        param_if ''first_name'' first_name @ param_if ''last_name'' last_name @ param_if ''sin'' sin)"

definition get_client_profile_req :: "string \<Rightarrow> icm_req" where
  "get_client_profile_req guid = get_req (''/admin/clients/'' @ guid) []"

definition get_worker_permissions_req :: "string \<Rightarrow> icm_req" where
  "get_worker_permissions_req idir = get_req (''/admin/workers/'' @ idir @ ''/permissions'') []"

text \<open>\<open>validate_ao_login\<close> makes no request: it is a stub that accepts everything.\<close>

definition validate_ao_login :: "string \<Rightarrow> string \<Rightarrow> json res" where
  "validate_ao_login sr_number sin =
     Inr (JObj [(''sr_number'', JStr sr_number), (''applicant_name'', JStr ''Stub Applicant''),
                (''case_status'', JStr ''Active'')])"

section \<open>The state every service shares\<close>

type_synonym 'i icm_fun = "icm_req \<Rightarrow> 'i \<Rightarrow> json res \<times> 'i"
type_synonym 'i icm_bytes = "icm_req \<Rightarrow> 'i \<Rightarrow> string res \<times> 'i"

record 'i base =
  icm_st :: 'i
  icm_log :: "icm_req list"
  clock :: "nat \<Rightarrow> instant"
  ticks :: nat
  uuids :: "nat \<Rightarrow> string"
  uuid_ix :: nat

text \<open>One call to ICM: logged, answered, and the remote state moves on whatever the answer.\<close>

definition icm_call :: "(icm_req \<Rightarrow> 'i \<Rightarrow> 'r res \<times> 'i) \<Rightarrow> icm_req \<Rightarrow> (('i, 'z) base_scheme, 'r) io" where
  "icm_call icm req s =
     (fst (icm req (icm_st s)),
      s\<lparr>icm_st := snd (icm req (icm_st s)), icm_log := icm_log s @ [req]\<rparr>)"

text \<open>\<open>datetime.now(timezone.utc)\<close> and \<open>str(uuid4())\<close>: the next reading of each source.\<close>

definition now_utc :: "(('i, 'z) base_scheme, instant) io" where
  "now_utc s = (Inr (clock s (ticks s)), s\<lparr>ticks := Suc (ticks s)\<rparr>)"

definition fresh_uuid :: "(('i, 'z) base_scheme, string) io" where
  "fresh_uuid s = (Inr (uuids s (uuid_ix s)), s\<lparr>uuid_ix := Suc (uuid_ix s)\<rparr>)"

lemmas base_ops [io_simps] = icm_call_def now_utc_def fresh_uuid_def

lemma fst_icm_call [simp]: "fst (icm_call icm req s) = fst (icm req (icm_st s))"
  by (simp add: icm_call_def)

lemma log_icm_call [simp]: "icm_log (snd (icm_call icm req s)) = icm_log s @ [req]"
  by (simp add: icm_call_def)

lemma bind_now_utc [simp]:
  "bind now_utc f s = f (clock s (ticks s)) (s\<lparr>ticks := Suc (ticks s)\<rparr>)"
  by (simp add: bind_def now_utc_def)

lemma bind_fresh_uuid [simp]:
  "bind fresh_uuid f s = f (uuids s (uuid_ix s)) (s\<lparr>uuid_ix := Suc (uuid_ix s)\<rparr>)"
  by (simp add: bind_def fresh_uuid_def)

lemma bind_icm_call:
  "bind (icm_call icm req) f s =
     (case icm req (icm_st s) of (r, i) \<Rightarrow>
        (case r of Inl e \<Rightarrow> (Inl e, s\<lparr>icm_st := i, icm_log := icm_log s @ [req]\<rparr>)
         | Inr x \<Rightarrow> f x (s\<lparr>icm_st := i, icm_log := icm_log s @ [req]\<rparr>)))"
  by (simp add: bind_def icm_call_def split: prod.split sum.split)

text \<open>What a computation asked of ICM: the requests logged between two states.\<close>

definition requests :: "('i, 'z) base_scheme \<Rightarrow> ('i, 'y) base_scheme \<Rightarrow> icm_req list" where
  "requests s t = drop (length (icm_log s)) (icm_log t)"

end
