(* ===== verification/Icm_Client.thy ===== *)
theory Icm_Client
  imports Icm_Port Circuit_Breaker
begin

text \<open>
  \<open>ICMClient\<close> of \<open>app/services/icm/client.py\<close>: the OAuth token, the retried HTTP call and the
  circuit breaker around it.
  \<^item> The HTTP transport is the parameter \<open>http\<close>: any function from a request and a network state
    to a response or a transport exception.
  \<^item> The retry loop of the tenacity library is the parameter \<open>retrying\<close>; the locale \<open>tenacity\<close>
    states what the library documents of \<open>AsyncRetrying(stop_after_attempt(n),
    retry_if_exception(p), reraise=True)\<close>. \<open>retry_loop\<close> is a function with that behaviour.
  \<^item> \<open>time.monotonic()\<close> is a stream of readings, so that nothing is assumed of how time passes.
    The breaker's locked sections read it once each, also where the code needs no reading; that
    only shifts the stream.
\<close>

section \<open>Retrying\<close>

locale tenacity =
  fixes retrying :: "nat \<Rightarrow> (exn \<Rightarrow> bool) \<Rightarrow> ('s, 'a) io \<Rightarrow> ('s, 'a) io"
  assumes attempt_ok: "m s = (Inr x, t) \<Longrightarrow> 0 < n \<Longrightarrow> retrying n p m s = (Inr x, t)"
    and attempt_stop: "m s = (Inl e, t) \<Longrightarrow> 0 < n \<Longrightarrow> \<not> p e \<or> n = 1 \<Longrightarrow> retrying n p m s = (Inl e, t)"
    and attempt_again: "m s = (Inl e, t) \<Longrightarrow> p e \<Longrightarrow> 1 < n \<Longrightarrow> retrying n p m s = retrying (n - 1) p m t"
begin

lemma retry_step:
  "0 < n \<Longrightarrow> retrying n p m s =
    (case m s of
       (Inr x, t) \<Rightarrow> (Inr x, t)
     | (Inl e, t) \<Rightarrow> (if p e \<and> 1 < n then retrying (n - 1) p m t else (Inl e, t)))"
  by (cases "m s"; cases "fst (m s)") (auto simp: attempt_ok attempt_stop attempt_again)

text \<open>An outcome of three attempts is the outcome of one of them, the last that was made.\<close>

lemma three_attempts:
  "retrying 3 p m s =
    (case m s of
       (Inr x, t) \<Rightarrow> (Inr x, t)
     | (Inl e, t) \<Rightarrow>
         (if p e then
           (case m t of
              (Inr x, u) \<Rightarrow> (Inr x, u)
            | (Inl e', u) \<Rightarrow> (if p e' then m u else (Inl e', u)))
          else (Inl e, t)))"
  by (simp add: retry_step split: prod.split sum.split)

text \<open>
  A relation between the states before and after \<open>k\<close> attempts that adds up over attempts holds
  of the whole loop for some number of attempts between one and the limit.
\<close>

lemma retry_chain:
  assumes one: "\<And>s. R 1 s (snd (m s))"
    and add: "\<And>a b s t u. R a s t \<Longrightarrow> R b t u \<Longrightarrow> R (a + b) s u" and "0 < n"
  shows "\<exists>k. 0 < k \<and> k \<le> n \<and> R k s (snd (retrying n p m s))"
  using assms(3)
proof (induction n arbitrary: s)
  case 0
  then show ?case by simp
next
  case (Suc n)
  show ?case
  proof (cases "\<exists>e t. m s = (Inl e, t) \<and> p e \<and> 0 < n")
    case True
    then obtain e t where ms: "m s = (Inl e, t)" "p e" "0 < n" by blast
    then obtain k where k: "0 < k" "k \<le> n" "R k t (snd (retrying n p m t))" using Suc.IH by blast
    have "R (1 + k) s (snd (retrying n p m t))"
      using one[of s] ms(1) k(3) by (intro add[of 1 s t]) simp_all
    moreover have "retrying (Suc n) p m s = retrying n p m t"
      using ms by (simp add: retry_step)
    ultimately show ?thesis using k by (intro exI[of _ "1 + k"]) simp
  next
    case False
    then have "retrying (Suc n) p m s = m s"
      by (cases "m s"; cases "fst (m s)") (auto simp: retry_step)
    with one[of s] show ?thesis by (intro exI[of _ 1]) simp
  qed
qed

text \<open>What one attempt keeps, the loop keeps.\<close>

lemma retry_preserves:
  assumes "preserves m I" and "0 < n"
  shows "preserves (retrying n p m) I"
  unfolding preserves_def
proof (intro allI impI)
  fix s assume "I s"
  then show "I (snd (retrying n p m s))"
    using assms(2)
  proof (induction n arbitrary: s)
    case 0
    then show ?case by simp
  next
    case (Suc n)
    have "I (snd (m s))" using assms(1) Suc.prems(1) by (rule preservesD)
    then show ?case using Suc.IH
      by (cases "m s"; cases "fst (m s)"; cases "n = 0") (auto simp: retry_step)
  qed
qed

end

fun retry_loop :: "nat \<Rightarrow> (exn \<Rightarrow> bool) \<Rightarrow> ('s, 'a) io \<Rightarrow> ('s, 'a) io" where
  "retry_loop 0 p m s = m s"
| "retry_loop (Suc n) p m s =
     (case m s of
        (Inr x, t) \<Rightarrow> (Inr x, t)
      | (Inl e, t) \<Rightarrow> (if p e \<and> 0 < n then retry_loop n p m t else (Inl e, t)))"

interpretation rl: tenacity retry_loop
proof (unfold_locales, goal_cases)
  case (1 m s x t n p)
  then show ?case by (cases n) auto
next
  case (2 m s e t n p)
  then show ?case by (cases n) auto
next
  case (3 m s e t p n)
  then show ?case by (cases n) auto
qed

text \<open>\<open>_is_retryable\<close>.\<close>

fun is_retryable :: "exn \<Rightarrow> bool" where
  "is_retryable (ICMExn _ _ _) = False"
| "is_retryable (HTTPStatusExn n) = (500 \<le> n)"
| "is_retryable ConnectExn = True"
| "is_retryable TimeoutExn = True"
| "is_retryable _ = False"

section \<open>The client\<close>

text \<open>
  A response: its status, its body parsed as JSON (\<open>None\<close> when it is not JSON) and its bytes.
  A request on the wire is the token request or an API request with its bearer token.
\<close>

record http_resp =
  resp_status :: nat
  resp_json :: "json option"
  resp_content :: string

datatype wire =
    TokenReq string "(string \<times> string) list"
  | ApiReq string string icm_req

type_synonym 'n http = "wire \<Rightarrow> 'n \<Rightarrow> http_resp res \<times> 'n"

record config =
  base_url :: string
  client_id :: string
  client_secret :: string
  token_url :: string

record 'n client =
  net :: 'n
  wire_log :: "wire list"
  token :: "string option"
  token_expiry :: instant
  cbreaker :: breaker
  mono :: "nat \<Rightarrow> instant"
  mono_ix :: nat

text \<open>The constructor's \<open>base_url.rstrip("/")\<close> and defaults.\<close>

definition rstrip_slash :: "string \<Rightarrow> string" where
  "rstrip_slash s = rev (dropWhile (\<lambda>c. c = CHR ''/'') (rev s))"

definition client_config :: "string \<Rightarrow> string \<Rightarrow> string \<Rightarrow> string \<Rightarrow> config" where
  "client_config url cid secret turl =
     \<lparr>base_url = rstrip_slash url, client_id = cid, client_secret = secret, token_url = turl\<rparr>"

definition client_init :: "'n \<Rightarrow> (nat \<Rightarrow> instant) \<Rightarrow> 'n client" where
  "client_init n m =
     \<lparr>net = n, wire_log = [], token = None, token_expiry = 0,
      cbreaker = breaker_init 5 (seconds 30), mono = m, mono_ix = 0\<rparr>"

definition monotonic :: "('n client, instant) io" where
  "monotonic s = (Inr (mono s (mono_ix s)), s\<lparr>mono_ix := Suc (mono_ix s)\<rparr>)"

definition send :: "'n http \<Rightarrow> wire \<Rightarrow> ('n client, http_resp) io" where
  "send http w s =
     (fst (http w (net s)), s\<lparr>net := snd (http w (net s)), wire_log := wire_log s @ [w]\<rparr>)"

definition is_success :: "http_resp \<Rightarrow> bool" where
  "is_success r \<longleftrightarrow> 200 \<le> resp_status r \<and> resp_status r < 300"

definition raise_for_status :: "http_resp \<Rightarrow> unit res" where
  "raise_for_status r = (if is_success r then Inr () else Inl (HTTPStatusExn (resp_status r)))"

definition resp_body :: "http_resp \<Rightarrow> json res" where
  "resp_body r = (case resp_json r of None \<Rightarrow> Inl JSONDecodeExn | Some j \<Rightarrow> Inr j)"

fun json_int :: "json \<Rightarrow> int res" where
  "json_int (JInt i) = Inr i"
| "json_int (JBool b) = Inr (if b then 1 else 0)"
| "json_int _ = Inl TypeExn"

text \<open>
  \<open>_fetch_token\<close>. The token is stored before the expiry is computed, as in the source. OAuth makes \<open>access_token\<close> a string and
  \<open>expires_in\<close> a number of seconds, here an integer. JSON null is no token, in the code as here; a token of yet another
  type, which the code would send as its \<open>str()\<close>, is taken as none here.
\<close>

definition token_req :: "config \<Rightarrow> wire" where
  "token_req cfg = TokenReq (token_url cfg)
     [(''grant_type'', ''client_credentials''), (''client_id'', client_id cfg),
      (''client_secret'', client_secret cfg)]"

definition fetch_token :: "'n http \<Rightarrow> config \<Rightarrow> ('n client, unit) io" where
  "fetch_token http cfg =
     bind (send http (token_req cfg)) (\<lambda>r.
     bind (lift_res (raise_for_status r)) (\<lambda>_.
     bind (lift_res (resp_body r)) (\<lambda>data.
     bind (lift_res (obj_item data ''access_token'')) (\<lambda>tok.
     bind (modify (token_update (\<lambda>_. json_code tok))) (\<lambda>_.
     bind monotonic (\<lambda>now.
     bind (lift_res (bind_res (obj_get_default data ''expires_in'' (JInt 3600)) json_int)) (\<lambda>ttl.
     modify (token_expiry_update (\<lambda>_. now + seconds ttl - seconds 60)))))))))"

definition no_token_exn :: exn where
  "no_token_exn = ICMExn ICMServiceUnavailableError ''Failed to obtain OAuth token'' None"

text \<open>\<open>_ensure_token\<close>: \<open>self._token is None or time.monotonic() >= self._token_expiry\<close>.\<close>

definition ensure_token :: "'n http \<Rightarrow> config \<Rightarrow> ('n client, string) io" where
  "ensure_token http cfg =
     bind (reads token) (\<lambda>tok0.
     bind (if tok0 = None then ret True
           else bind monotonic (\<lambda>now. reads (\<lambda>s. token_expiry s \<le> now))) (\<lambda>stale.
     bind (if stale then fetch_token http cfg else ret ()) (\<lambda>_.
     bind (reads token) (\<lambda>tok.
     (case tok of None \<Rightarrow> raise no_token_exn | Some t \<Rightarrow> ret t)))))"

text \<open>
  The error branch of \<open>_call\<close> for a response that is no success. \<open>except (ValueError, KeyError)\<close>
  catches only what parsing the body raises; AttributeError (a body that is no object) and
  TypeError (an unhashable code) pass.
\<close>

definition error_of :: "http_resp \<Rightarrow> exn" where
  "error_of r =
     (case bind_res (resp_body r) map_icm_error of
        Inr exc \<Rightarrow> (if 500 \<le> resp_status r then HTTPStatusExn (resp_status r) else exc)
      | Inl e \<Rightarrow> (if is_value_error e \<or> e = KeyExn then HTTPStatusExn (resp_status r) else e))"

definition attempt :: "'n http \<Rightarrow> config \<Rightarrow> icm_req \<Rightarrow> ('n client, json) io" where
  "attempt http cfg req =
     bind (ensure_token http cfg) (\<lambda>tok.
     bind (send http (ApiReq (base_url cfg @ rq_path req) (''Bearer '' @ tok) req)) (\<lambda>r.
     if \<not> is_success r then raise (error_of r) else lift_res (resp_body r)))"

definition call :: "'n http \<Rightarrow> (nat \<Rightarrow> (exn \<Rightarrow> bool) \<Rightarrow> ('n client, json) io \<Rightarrow> ('n client, json) io) \<Rightarrow>
    config \<Rightarrow> icm_req \<Rightarrow> ('n client, json) io" where
  "call http retrying cfg req = retrying 3 is_retryable (attempt http cfg req)"

text \<open>\<open>_call_bytes\<close>: an error status is an HTTPStatusError whatever the body says.\<close>

definition attempt_bytes :: "'n http \<Rightarrow> config \<Rightarrow> icm_req \<Rightarrow> ('n client, string) io" where
  "attempt_bytes http cfg req =
     bind (ensure_token http cfg) (\<lambda>tok.
     bind (send http (ApiReq (base_url cfg @ rq_path req) (''Bearer '' @ tok) req)) (\<lambda>r.
     bind (lift_res (raise_for_status r)) (\<lambda>_. ret (resp_content r))))"

definition call_bytes :: "'n http \<Rightarrow> (nat \<Rightarrow> (exn \<Rightarrow> bool) \<Rightarrow> ('n client, string) io \<Rightarrow> ('n client, string) io) \<Rightarrow>
    config \<Rightarrow> icm_req \<Rightarrow> ('n client, string) io" where
  "call_bytes http retrying cfg req = retrying 3 is_retryable (attempt_bytes http cfg req)"

text \<open>\<open>call_async\<close> of the breaker around a call.\<close>

definition enter_breaker :: "('n client, unit) io" where
  "enter_breaker =
     bind monotonic (\<lambda>now s.
       (fst (brk_enter now (cbreaker s)), s\<lparr>cbreaker := snd (brk_enter now (cbreaker s))\<rparr>))"

definition record_failure :: "('n client, unit) io" where
  "record_failure = bind monotonic (\<lambda>now. modify (cbreaker_update (brk_failure now)))"

definition call_async :: "('n client, 'a) io \<Rightarrow> ('n client, 'a) io" where
  "call_async func =
     bind enter_breaker (\<lambda>_.
     bind (catch func is_exception (\<lambda>e. bind record_failure (\<lambda>_. raise e))) (\<lambda>x.
     bind (modify (cbreaker_update brk_success)) (\<lambda>_. ret x)))"

definition call_with_breaker :: "'n http \<Rightarrow> (nat \<Rightarrow> (exn \<Rightarrow> bool) \<Rightarrow> ('n client, json) io \<Rightarrow> ('n client, json) io) \<Rightarrow>
    config \<Rightarrow> 'n client icm_fun" where
  "call_with_breaker http retrying cfg req = call_async (call http retrying cfg req)"

definition get_bytes :: "'n http \<Rightarrow> (nat \<Rightarrow> (exn \<Rightarrow> bool) \<Rightarrow> ('n client, string) io \<Rightarrow> ('n client, string) io) \<Rightarrow>
    config \<Rightarrow> 'n client icm_bytes" where
  "get_bytes http retrying cfg req = call_async (call_bytes http retrying cfg req)"

lemmas client_io =
  monotonic_def send_def enter_breaker_def record_failure_def call_async_def

section \<open>Tokens\<close>

lemma bind_monotonic [simp]:
  "bind monotonic f s = f (mono s (mono_ix s)) (s\<lparr>mono_ix := Suc (mono_ix s)\<rparr>)"
  by (simp add: bind_def monotonic_def)

text \<open>
  A JSON value read as a token is that string. \<open>same_env s t\<close>: neither the breaker nor the clock's readings differ, and the clock has only
  moved forward. Everything below the breaker keeps it.
\<close>

lemma json_code_Some [simp]: "json_code j = Some t \<longleftrightarrow> j = JStr t"
  by (cases j) auto

definition same_env :: "'n client \<Rightarrow> 'n client \<Rightarrow> bool" where
  "same_env s t \<longleftrightarrow> cbreaker t = cbreaker s \<and> mono t = mono s"

lemma preserves_send [intro, simp]: "preserves (send http w) (same_env s)"
  by (auto simp: preserves_def send_def same_env_def)

lemma preserves_monotonic [intro, simp]: "preserves monotonic (same_env s)"
  by (auto simp: preserves_def monotonic_def same_env_def)

lemma preserves_token [intro, simp]:
  "preserves (modify (token_update f)) (same_env s)"
  "preserves (modify (token_expiry_update g)) (same_env s)"
  by (auto simp: preserves_def same_env_def)

lemma preserves_fetch_token [intro, simp]: "preserves (fetch_token http cfg) (same_env s)"
  unfolding fetch_token_def by (intro preserves_bind preserves_send preserves_lift preserves_monotonic preserves_token)

lemma preserves_ensure_token [intro, simp]: "preserves (ensure_token http cfg) (same_env s)"
  unfolding ensure_token_def by (auto intro!: preserves_bind split: option.split)

lemma preserves_attempt [intro, simp]: "preserves (attempt http cfg req) (same_env s)"
  unfolding attempt_def by (auto intro!: preserves_bind)

lemma preserves_attempt_bytes [intro, simp]: "preserves (attempt_bytes http cfg req) (same_env s)"
  unfolding attempt_bytes_def by (auto intro!: preserves_bind)

lemma same_env_refl [simp]: "same_env s s"
  by (simp add: same_env_def)

text \<open>The lifetime in seconds a token response announces, an hour when it announces none.\<close>

fun announced_ttl :: "(string \<times> json) list \<Rightarrow> int option" where
  "announced_ttl kvs =
     (case map_of kvs ''expires_in'' of None \<Rightarrow> Some 3600 | Some (JInt n) \<Rightarrow> Some n
      | Some (JBool b) \<Rightarrow> Some (if b then 1 else 0) | Some _ \<Rightarrow> None)"

lemma fetch_token_result:
  assumes "fetch_token http cfg s = (Inr (), s')" and "token s' = Some t"
  shows "\<exists>r kvs ttl. fst (http (token_req cfg) (net s)) = Inr r \<and> is_success r \<and>
    resp_json r = Some (JObj kvs) \<and> map_of kvs ''access_token'' = Some (JStr t) \<and>
    announced_ttl kvs = Some ttl \<and> s' = s\<lparr>net := snd (http (token_req cfg) (net s)),
      wire_log := wire_log s @ [token_req cfg], token := Some t, mono_ix := Suc (mono_ix s),
      token_expiry := mono s (mono_ix s) + seconds ttl - seconds 60\<rparr>"
proof -
  from assms(1) obtain r data tok ttl where
    r: "fst (http (token_req cfg) (net s)) = Inr r" "raise_for_status r = Inr ()"
    and data: "resp_body r = Inr data"
    and tok: "obj_item data ''access_token'' = Inr tok"
    and ttl: "bind_res (obj_get_default data ''expires_in'' (JInt 3600)) json_int = Inr ttl"
    and s': "s' = s\<lparr>net := snd (http (token_req cfg) (net s)),
      wire_log := wire_log s @ [token_req cfg], token := json_code tok, mono_ix := Suc (mono_ix s),
      token_expiry := mono s (mono_ix s) + seconds ttl - seconds 60\<rparr>"
    unfolding fetch_token_def
    by (auto elim!: bind_InrE simp: send_def monotonic_def)
  from tok obtain kvs where kvs: "data = JObj kvs" "map_of kvs ''access_token'' = Some tok"
    by (cases data) (auto split: option.splits)
  from ttl kvs(1) have "announced_ttl kvs = Some ttl"
    by (auto split: option.splits elim!: json_int.elims)
  moreover from data kvs(1) have "resp_json r = Some (JObj kvs)"
    by (auto simp: resp_body_def split: option.splits)
  moreover from assms(2) s' have "tok = JStr t" by simp
  ultimately show ?thesis using r kvs s' by (auto simp: raise_for_status_def split: if_splits)
qed

text \<open>
  A call never goes out with a token past its time: whenever \<open>_ensure_token\<close> yields a token, it
  is either the stored one, the clock having been read before its recorded expiry and no request
  made, or one just fetched, whose expiry is recorded as 60 seconds before the lifetime the
  token endpoint announced (an hour when it announces none).
\<close>

theorem token_fresh:
  assumes "ensure_token http cfg s = (Inr t, s')"
  shows "(token s = Some t \<and> mono s (mono_ix s) < token_expiry s \<and> wire_log s' = wire_log s) \<or>
    (\<exists>r kvs ttl. fst (http (token_req cfg) (net s)) = Inr r \<and>
      is_success r \<and> resp_json r = Some (JObj kvs) \<and> map_of kvs ''access_token'' = Some (JStr t) \<and>
      announced_ttl kvs = Some ttl \<and> token s' = Some t \<and>
      token_expiry s' = mono s (mono_ix s' - 1) + seconds ttl - seconds 60)"
proof (cases "token s")
  case None
  with assms have u: "fetch_token http cfg s = (Inr (), s')" "token s' = Some t"
    unfolding ensure_token_def by (auto elim!: bind_InrE split: option.splits)
  from fetch_token_result[OF u] show ?thesis by auto
next
  case (Some t0)
  define s1 where "s1 = s\<lparr>mono_ix := Suc (mono_ix s)\<rparr>"
  show ?thesis
  proof (cases "token_expiry s \<le> mono s (mono_ix s)")
    case True
    with assms Some have u: "fetch_token http cfg s1 = (Inr (), s')" "token s' = Some t"
      unfolding ensure_token_def s1_def
      by (auto elim!: bind_InrE split: option.splits simp: monotonic_def)
    from fetch_token_result[OF u] show ?thesis by (auto simp: s1_def)
  next
    case fresh: False
    with assms Some have "token s = Some t \<and> wire_log s' = wire_log s"
      unfolding ensure_token_def
      by (auto elim!: bind_InrE split: option.splits simp: monotonic_def)
    with fresh show ?thesis by simp
  qed
qed

text \<open>A network whose every answer is a token response.\<close>

definition token_http :: "unit http" where
  "token_http w n =
     (Inr \<lparr>resp_status = 200,
        resp_json = Some (JObj [(''access_token'', JStr ''T''), (''expires_in'', JInt 300)]),
        resp_content = []\<rparr>, n)"

definition demo_config :: config where
  "demo_config = client_config ''https://icm/'' ''id'' ''secret'' ''https://tok''"

definition demo_client :: "unit client" where
  "demo_client = client_init () (\<lambda>n. seconds (int n))"

theorem token_fresh_witness:
  "let s = demo_client; s' = snd (ensure_token token_http demo_config s)
    in (token s = Some ''T'' \<and> mono s (mono_ix s) < token_expiry s \<and> wire_log s' = wire_log s) \<or>
    (\<exists>r kvs ttl. fst (token_http (token_req demo_config) (net s)) = Inr r \<and>
      is_success r \<and> resp_json r = Some (JObj kvs) \<and> map_of kvs ''access_token'' = Some (JStr ''T'') \<and>
      announced_ttl kvs = Some ttl \<and> token s' = Some ''T'' \<and>
      token_expiry s' = mono s (mono_ix s' - 1) + seconds ttl - seconds 60)"
  unfolding Let_def
  by (rule token_fresh)
    (simp add: ensure_token_def fetch_token_def demo_client_def client_init_def token_http_def
      io_simps send_def monotonic_def raise_for_status_def is_success_def resp_body_def)

section \<open>Calls through the breaker\<close>

definition sets_env :: "('n client, 'a) io \<Rightarrow> bool" where
  "sets_env m \<longleftrightarrow> (\<forall>s. preserves m (same_env s))"

lemma sets_envD: "sets_env m \<Longrightarrow> m s = (r, t) \<Longrightarrow> cbreaker t = cbreaker s \<and> mono t = mono s"
  using preservesD[of m "same_env s" s] by (auto simp: sets_env_def same_env_def)

lemma sets_env_call: "tenacity retrying \<Longrightarrow> sets_env (call http retrying cfg req)"
  by (simp add: sets_env_def call_def tenacity.retry_preserves)

lemma sets_env_call_bytes: "tenacity retrying \<Longrightarrow> sets_env (call_bytes http retrying cfg req)"
  by (simp add: sets_env_def call_bytes_def tenacity.retry_preserves)

text \<open>Refused calls reach neither the token endpoint nor ICM.\<close>

lemma call_async_refused:
  assumes "brk_enter (mono s (mono_ix s)) (cbreaker s) = (Inl e, b)"
  shows "call_async func s = (Inl e, s\<lparr>mono_ix := Suc (mono_ix s), cbreaker := b\<rparr>)"
  using assms by (simp add: call_async_def enter_breaker_def bind_Inl bind_def monotonic_def)

lemma call_async_admitted:
  assumes "brk_enter (mono s (mono_ix s)) (cbreaker s) = (Inr (), b)"
  shows "call_async func s =
    (case func (s\<lparr>mono_ix := Suc (mono_ix s), cbreaker := b\<rparr>) of
       (Inr x, t) \<Rightarrow> (Inr x, t\<lparr>cbreaker := brk_success (cbreaker t)\<rparr>)
     | (Inl e, t) \<Rightarrow>
         if is_exception e
         then (Inl e, t\<lparr>mono_ix := Suc (mono_ix t), cbreaker := brk_failure (mono t (mono_ix t)) (cbreaker t)\<rparr>)
         else (Inl e, t))"
  using assms
  by (simp add: call_async_def enter_breaker_def record_failure_def io_simps monotonic_def
      split: prod.split sum.split)

lemma client_breaker:
  assumes "tenacity retrying" and "fst (call_with_breaker http retrying cfg req s) \<noteq> Inl CancelledExn"
  shows "cbreaker (snd (call_with_breaker http retrying cfg req s)) =
    seq_call (mono s (mono_ix s), is_ok (fst (call_with_breaker http retrying cfg req s)),
      mono s (mono_ix (snd (call_with_breaker http retrying cfg req s)) - 1)) (cbreaker s)"
proof -
  let ?s1 = "\<lambda>b. s\<lparr>mono_ix := Suc (mono_ix s), cbreaker := b\<rparr>"
  obtain r b where en: "brk_enter (mono s (mono_ix s)) (cbreaker s) = (r, b)"
    by (cases "brk_enter (mono s (mono_ix s)) (cbreaker s)")
  show ?thesis
  proof (cases r)
    case (Inl e)
    then show ?thesis using en by (simp add: call_with_breaker_def call_async_refused)
  next
    case (Inr x)
    obtain r2 t where run: "call http retrying cfg req (?s1 b) = (r2, t)"
      by (cases "call http retrying cfg req (?s1 b)")
    have env: "cbreaker t = b \<and> mono t = mono s"
      using sets_envD[OF sets_env_call[OF assms(1)] run] by simp
    show ?thesis using en run env assms(2) Inr
      by (cases r2)
        (auto simp: call_with_breaker_def call_async_admitted is_exception_def split: if_splits)
  qed
qed

text \<open>C11.
  The client's breaker is the sequential breaker of Circuit_Breaker: one call through the
  client, with whatever network and retries, that is not cancelled moves the breaker as one
  \<open>seq_call\<close> whose arrival and end times are the clock's first and last readings and whose
  outcome is the call's.
\<close>

theorem client_refines_breaker:
  assumes "tenacity retrying" and "fst (call_with_breaker http retrying cfg req s) \<noteq> Inl CancelledExn"
  shows "cbreaker (snd (call_with_breaker http retrying cfg req s)) =
    seq_call (mono s (mono_ix s), is_ok (fst (call_with_breaker http retrying cfg req s)),
      mono s (mono_ix (snd (call_with_breaker http retrying cfg req s)) - 1)) (cbreaker s)"
  using assms by (rule client_breaker)

text \<open>A client against \<open>token_http\<close>, its breaker closed, the retry loop the reference one.\<close>

theorem client_refines_breaker_witness:
  "cbreaker (snd (call_with_breaker token_http retry_loop demo_config (get_ep_detail_req ''7'') demo_client)) =
    seq_call (mono demo_client (mono_ix demo_client),
      is_ok (fst (call_with_breaker token_http retry_loop demo_config (get_ep_detail_req ''7'') demo_client)),
      mono demo_client (mono_ix (snd (call_with_breaker token_http retry_loop demo_config
        (get_ep_detail_req ''7'') demo_client)) - 1)) (cbreaker demo_client)"
proof (rule client_refines_breaker)
  show "tenacity retry_loop" by (rule rl.tenacity_axioms)
  show "fst (call_with_breaker token_http retry_loop demo_config (get_ep_detail_req ''7'') demo_client)
    \<noteq> Inl CancelledExn"
    by (simp add: call_with_breaker_def call_def attempt_def client_io numeral_3_eq_3
      ensure_token_def fetch_token_def demo_client_def client_init_def token_http_def io_simps
      raise_for_status_def is_success_def resp_body_def breaker_defs breaker_init_def)
qed

section \<open>What goes over the wire\<close>

fun is_api :: "wire \<Rightarrow> bool" where
  "is_api (ApiReq _ _ _) = True"
| "is_api (TokenReq _ _) = False"

definition api_log :: "'n client \<Rightarrow> wire list" where
  "api_log s = filter is_api (wire_log s)"

definition api_reqs :: "config \<Rightarrow> icm_req \<Rightarrow> string list \<Rightarrow> wire list" where
  "api_reqs cfg req toks = map (\<lambda>tok. ApiReq (base_url cfg @ rq_path req) (''Bearer '' @ tok) req) toks"

lemma api_frames:
  "preserves (send http (token_req cfg)) (\<lambda>t. api_log t = l)"
  "preserves monotonic (\<lambda>t. api_log t = l)"
  "preserves (modify (token_update f)) (\<lambda>t. api_log t = l)"
  "preserves (modify (token_expiry_update g)) (\<lambda>t. api_log t = l)"
  by (simp_all add: preserves_def api_log_def send_def monotonic_def token_req_def)

lemma api_log_ensure_token: "api_log (snd (ensure_token http cfg s)) = api_log s"
proof -
  have "preserves (ensure_token http cfg) (\<lambda>t. api_log t = api_log s)"
    unfolding ensure_token_def fetch_token_def
    by (intro preserves_bind api_frames preserves_lift preserves_reads)
      (auto intro!: preserves_bind api_frames split: option.split)
  then show ?thesis by (rule preservesD) simp
qed

lemma api_log_attempt:
  "\<exists>toks. length toks \<le> 1 \<and> api_log (snd (attempt http cfg req s)) = api_log s @ api_reqs cfg req toks"
proof -
  obtain r t where et: "ensure_token http cfg s = (r, t)" by (cases "ensure_token http cfg s")
  have same: "api_log t = api_log s" using api_log_ensure_token[of http cfg s] et by simp
  show ?thesis
  proof (cases r)
    case (Inl e)
    then show ?thesis using et same
      by (intro exI[of _ "[]"]) (simp add: attempt_def bind_Inl api_reqs_def)
  next
    case (Inr tok)
    then have "api_log (snd (attempt http cfg req s)) = api_log t @ api_reqs cfg req [tok]"
      using et by (auto simp: attempt_def bind_Inr bind_def send_def api_log_def api_reqs_def
          split: sum.split)
    then show ?thesis using same by (intro exI[of _ "[tok]"]) simp
  qed
qed

lemma api_log_call:
  assumes "tenacity retrying"
  shows "\<exists>toks. length toks \<le> 3 \<and> api_log (snd (call http retrying cfg req s)) = api_log s @ api_reqs cfg req toks"
proof -
  define R where "R k u v \<longleftrightarrow> (\<exists>toks. length toks \<le> k \<and> api_log v = api_log u @ api_reqs cfg req toks)"
    for k and u v :: "'a client"
  have "R (a + b) u w" if "R a u v" "R b v w" for a b u v w
  proof -
    from that obtain xs ys where "length xs \<le> a" "length ys \<le> b"
      "api_log v = api_log u @ api_reqs cfg req xs" "api_log w = api_log v @ api_reqs cfg req ys"
      unfolding R_def by blast
    then show ?thesis unfolding R_def by (intro exI[of _ "xs @ ys"]) (simp add: api_reqs_def)
  qed
  then have "\<exists>k. 0 < k \<and> k \<le> 3 \<and> R k s (snd (retrying 3 is_retryable (attempt http cfg req) s))"
    using api_log_attempt[of http cfg req]
    by (intro tenacity.retry_chain[OF assms]) (auto simp: R_def)
  then show ?thesis unfolding R_def call_def by (meson le_trans)
qed

text \<open>C16.
  A call through the client puts at most three requests on the wire besides token requests, and
  each of them is the request it was asked to make, to the configured host, with a bearer
  token; a call the breaker refuses puts nothing on the wire at all.
\<close>

theorem call_wire_requests:
  assumes "tenacity retrying"
  shows "(\<exists>toks. length toks \<le> 3 \<and>
      api_log (snd (call_with_breaker http retrying cfg req s)) = api_log s @ api_reqs cfg req toks) \<and>
    (\<not> is_ok (fst (brk_enter (mono s (mono_ix s)) (cbreaker s))) \<longrightarrow>
      wire_log (snd (call_with_breaker http retrying cfg req s)) = wire_log s)"
proof -
  obtain r b where en: "brk_enter (mono s (mono_ix s)) (cbreaker s) = (r, b)"
    by (cases "brk_enter (mono s (mono_ix s)) (cbreaker s)")
  show ?thesis
  proof (cases r)
    case (Inl e)
    then show ?thesis using en
      by (auto simp: call_with_breaker_def call_async_refused api_log_def api_reqs_def intro!: exI[of _ "[]"])
  next
    case (Inr x)
    let ?s1 = "s\<lparr>mono_ix := Suc (mono_ix s), cbreaker := b\<rparr>"
    obtain toks where "length toks \<le> 3"
      "api_log (snd (call http retrying cfg req ?s1)) = api_log ?s1 @ api_reqs cfg req toks"
      using api_log_call[OF assms] by blast
    moreover have "api_log (snd (call_with_breaker http retrying cfg req s)) =
        api_log (snd (call http retrying cfg req ?s1))"
      using en Inr by (auto simp: call_with_breaker_def call_async_admitted api_log_def split: prod.split sum.split)
    ultimately show ?thesis using en Inr by (auto simp: api_log_def)
  qed
qed

definition open_client :: "unit client" where
  "open_client = demo_client\<lparr>cbreaker := brk_failure 0 (breaker_init 1 (seconds 30))\<rparr>"

theorem call_wire_requests_witness:
  "(\<exists>toks. length toks \<le> 3 \<and>
      api_log (snd (call_with_breaker token_http retry_loop demo_config (get_ep_detail_req ''7'') demo_client)) =
      api_log demo_client @ api_reqs demo_config (get_ep_detail_req ''7'') toks) \<and>
    wire_log (snd (call_with_breaker token_http retry_loop demo_config (get_ep_detail_req ''7'') open_client)) =
      wire_log open_client"
proof -
  note wire = call_wire_requests[OF rl.tenacity_axioms, where http = token_http and cfg = demo_config
      and req = "get_ep_detail_req ''7''"]
  have "\<not> is_ok (fst (brk_enter (mono open_client (mono_ix open_client)) (cbreaker open_client)))"
    by (simp add: open_client_def demo_client_def client_init_def breaker_init_def breaker_defs seconds_def)
  with wire[of demo_client] wire[of open_client] show ?thesis by blast
qed

section \<open>What the breaker counts as a failure\<close>

text \<open>Every call fails with an exception of \<open>E\<close>: what the breaker and the user see of it.\<close>

definition always_fails :: "(exn \<Rightarrow> bool) \<Rightarrow> ('n client, 'a) io \<Rightarrow> bool" where
  "always_fails E m \<longleftrightarrow> (\<forall>s. \<exists>e. fst (m s) = Inl e \<and> E e)"

lemma always_failsD: "always_fails E m \<Longrightarrow> \<exists>e t. m s = (Inl e, t) \<and> E e"
  unfolding always_fails_def by (metis fst_conv surj_pair)

lemma always_fails_retry:
  assumes "tenacity retrying" and "always_fails E m"
  shows "always_fails E (retrying 3 p m)"
  unfolding always_fails_def
proof
  fix s
  obtain e t where 1: "m s = (Inl e, t)" "E e" using always_failsD[OF assms(2)] by blast
  obtain e2 t2 where 2: "m t = (Inl e2, t2)" "E e2" using always_failsD[OF assms(2)] by blast
  obtain e3 t3 where 3: "m t2 = (Inl e3, t3)" "E e3" using always_failsD[OF assms(2)] by blast
  show "\<exists>e. fst (retrying 3 p m s) = Inl e \<and> E e"
    using 1 2 3 by (auto simp: tenacity.three_attempts[OF assms(1)])
qed

lemma failing_calls_closed:
  assumes ten: "tenacity retrying" and fails: "always_fails E (attempt http cfg req)"
    and exc: "\<And>e. E e \<Longrightarrow> e \<noteq> CancelledExn" and closed: "state (cbreaker s) = CLOSED"
  shows "\<exists>e now. fst (call_with_breaker http retrying cfg req s) = Inl e \<and> E e \<and>
    cbreaker (snd (call_with_breaker http retrying cfg req s)) = brk_failure now (cbreaker s) \<and>
    now = mono (snd (call_with_breaker http retrying cfg req s))
      (mono_ix (snd (call_with_breaker http retrying cfg req s)) - 1)"
proof -
  let ?s1 = "s\<lparr>mono_ix := Suc (mono_ix s), cbreaker := cbreaker s\<rparr>"
  obtain e t where run: "call http retrying cfg req ?s1 = (Inl e, t)" "E e"
    using always_failsD[OF always_fails_retry[OF ten fails]] unfolding call_def by blast
  have env: "cbreaker t = cbreaker s"
    using sets_envD[OF sets_env_call[OF ten] run(1)] by simp
  have "call_with_breaker http retrying cfg req s =
      (Inl e, t\<lparr>mono_ix := Suc (mono_ix t), cbreaker := brk_failure (mono t (mono_ix t)) (cbreaker s)\<rparr>)"
    using run exc[OF run(2)] env closed
    by (simp add: call_with_breaker_def call_async_admitted enter_closed is_exception_def)
  then show ?thesis using run(2) by simp
qed

fun client_calls :: "'n http \<Rightarrow> (nat \<Rightarrow> (exn \<Rightarrow> bool) \<Rightarrow> ('n client, json) io \<Rightarrow> ('n client, json) io) \<Rightarrow>
    config \<Rightarrow> icm_req list \<Rightarrow> 'n client \<Rightarrow> 'n client" where
  "client_calls http retrying cfg [] s = s"
| "client_calls http retrying cfg (r # rs) s =
     client_calls http retrying cfg rs (snd (call_with_breaker http retrying cfg r s))"

text \<open>As many failing calls as the threshold asks for open a closed breaker.\<close>

lemma failing_calls_open:
  assumes ten: "tenacity retrying" and fails: "\<And>req. always_fails E (attempt http cfg req)"
    and exc: "\<And>e. E e \<Longrightarrow> e \<noteq> CancelledExn" and closed: "state (cbreaker s) = CLOSED"
    and n: "reqs \<noteq> []" "failures (cbreaker s) + length reqs = fail_max (cbreaker s)"
  shows "let t = client_calls http retrying cfg reqs s in
    state (cbreaker t) = OPEN \<and> reset_timeout (cbreaker t) = reset_timeout (cbreaker s) \<and>
    opened_at (cbreaker t) = Some (mono t (mono_ix t - 1))"
  using closed n
proof (induction reqs arbitrary: s)
  case Nil
  then show ?case by simp
next
  case (Cons r rs)
  let ?t = "snd (call_with_breaker http retrying cfg r s)"
  obtain now where now: "cbreaker ?t = brk_failure now (cbreaker s)" "now = mono ?t (mono_ix ?t - 1)"
    using failing_calls_closed[OF ten fails exc Cons.prems(1)] by blast
  show ?case
  proof (cases rs)
    case Nil
    then show ?thesis using now Cons.prems by (simp add: brk_failure_def Let_def)
  next
    case (Cons r2 rs2)
    with now Cons.prems have "state (cbreaker ?t) = CLOSED"
      "failures (cbreaker ?t) + length rs = fail_max (cbreaker ?t)" "rs \<noteq> []"
      by (simp_all add: brk_failure_def Let_def)
    from Cons.IH[OF this(1) this(3) this(2)] show ?thesis using now(1)
      by (simp add: Let_def)
  qed
qed

text \<open>The first breaker that \<open>client_init\<close> makes has threshold 5 and recovery time 30 seconds.\<close>

lemma refused_after:
  assumes "state (cbreaker t) = OPEN" and "opened_at (cbreaker t) = Some o1"
    and "mono t (mono_ix t) < o1 + reset_timeout (cbreaker t)"
  shows "fst (call_with_breaker http retrying cfg req t) = Inl breaker_open_exn \<and>
    wire_log (snd (call_with_breaker http retrying cfg req t)) = wire_log t"
  using enter_open_early[OF assms] by (simp add: call_with_breaker_def call_async_refused)

lemma respond_breaker_open: "status_code (respond breaker_open_exn) = 503"
  by (simp add: breaker_open_exn_def respond_icm)

text \<open>A network whose hosts cannot be reached, and one where ICM answers one business error.\<close>

definition unreachable :: "'n http \<Rightarrow> bool" where
  "unreachable http \<longleftrightarrow> (\<forall>w n. fst (http w n) = Inl ConnectExn \<or> fst (http w n) = Inl TimeoutExn)"

definition business_error :: "'n http \<Rightarrow> string \<Rightarrow> bool" where
  "business_error http code \<longleftrightarrow>
     (\<forall>cfg n. \<exists>t. fst (http (token_req cfg) n) =
        Inr \<lparr>resp_status = 200, resp_json = Some (JObj [(''access_token'', JStr t)]), resp_content = []\<rparr>) \<and>
     (\<forall>url auth req n. \<exists>st kvs. fst (http (ApiReq url auth req) n) =
        Inr \<lparr>resp_status = st, resp_json = Some (JObj kvs), resp_content = []\<rparr> \<and>
        400 \<le> st \<and> st < 500 \<and> map_of kvs ''errorCode'' = Some (JStr code))"

lemma unreachable_send:
  "unreachable http \<Longrightarrow> \<exists>e t. send http w s = (Inl e, t) \<and> (e = ConnectExn \<or> e = TimeoutExn) \<and> token t = token s"
  by (auto simp: unreachable_def send_def)

lemma unreachable_attempt:
  assumes "unreachable http"
  shows "always_fails (\<lambda>e. e = ConnectExn \<or> e = TimeoutExn) (attempt http cfg req)"
  unfolding always_fails_def
proof
  fix s
  have ft: "\<exists>e t. fetch_token http cfg u = (Inl e, t) \<and> (e = ConnectExn \<or> e = TimeoutExn)" for u
    using unreachable_send[OF assms, of "token_req cfg" u] by (auto simp: fetch_token_def bind_Inl)
  have et: "(\<exists>e t. ensure_token http cfg s = (Inl e, t) \<and> (e = ConnectExn \<or> e = TimeoutExn)) \<or>
      (\<exists>x t. ensure_token http cfg s = (Inr x, t))"
    using ft[of s] ft[of "s\<lparr>mono_ix := Suc (mono_ix s)\<rparr>"]
    by (cases "token s"; cases "token_expiry s \<le> mono s (mono_ix s)")
      (auto simp: ensure_token_def bind_Inl bind_assoc)
  then show "\<exists>e. fst (attempt http cfg req s) = Inl e \<and> (e = ConnectExn \<or> e = TimeoutExn)"
  proof (elim disjE exE conjE)
    fix x t assume tok: "ensure_token http cfg s = (Inr x, t)"
    from unreachable_send[OF assms, of "ApiReq (base_url cfg @ rq_path req) (''Bearer '' @ x) req" t]
    show ?thesis using tok by (auto simp: attempt_def bind_Inr bind_Inl)
  qed (auto simp: attempt_def bind_Inl)
qed

lemma business_ensure_token:
  assumes "business_error http code"
  shows "\<exists>x t. ensure_token http cfg s = (Inr x, t)"
proof -
  have ft: "\<exists>t tok. fetch_token http cfg u = (Inr (), t) \<and> token t = Some tok" for u
  proof -
    obtain tok where "fst (http (token_req cfg) (net u)) =
        Inr \<lparr>resp_status = 200, resp_json = Some (JObj [(''access_token'', JStr tok)]), resp_content = []\<rparr>"
      using assms unfolding business_error_def by blast
    then show ?thesis
      by (simp add: fetch_token_def bind_def send_def monotonic_def raise_for_status_def
          is_success_def resp_body_def)
  qed
  show ?thesis
  proof (cases "token s \<noteq> None \<and> mono s (mono_ix s) < token_expiry s")
    case True
    then show ?thesis by (auto simp: ensure_token_def bind_assoc)
  next
    case False
    define u where "u = (if token s = None then s else s\<lparr>mono_ix := Suc (mono_ix s)\<rparr>)"
    obtain t tok where "fetch_token http cfg u = (Inr (), t)" "token t = Some tok" using ft by blast
    then show ?thesis using False
      by (cases "token s") (auto simp: ensure_token_def bind_assoc bind_Inr u_def)
  qed
qed

lemma business_attempt:
  assumes "business_error http code"
  shows "always_fails is_icm_error (attempt http cfg req)"
  unfolding always_fails_def
proof
  fix s
  obtain x t where tok: "ensure_token http cfg s = (Inr x, t)"
    using business_ensure_token[OF assms] by blast
  obtain st kvs where r: "fst (http (ApiReq (base_url cfg @ rq_path req) (''Bearer '' @ x) req) (net t)) =
      Inr \<lparr>resp_status = st, resp_json = Some (JObj kvs), resp_content = []\<rparr>"
    "400 \<le> st" "st < 500" "map_of kvs ''errorCode'' = Some (JStr code)"
    using assms unfolding business_error_def by blast
  then obtain e where "map_icm_error (JObj kvs) = Inr e" "is_icm_error e"
    by (simp add: map_icm_error_def)
  then show "\<exists>e. fst (attempt http cfg req s) = Inl e \<and> is_icm_error e"
    using tok r
    by (simp add: attempt_def bind_Inr bind_def send_def is_success_def error_of_def resp_body_def)
qed

text \<open>C17.
  When the hosts cannot be reached, the user of a call gets the server's own error 500 until
  the breaker opens, not the 503 of a service that is unavailable: after the third attempt the
  transport exception itself leaves the client. Only once five such calls have opened the
  breaker is the answer to a call 503, for 30 seconds.
\<close>

theorem unreachable_icm_is_500:
  assumes ten: "tenacity retrying" and down: "unreachable http"
    and closed: "state (cbreaker s) = CLOSED"
    and n: "reqs \<noteq> []" "failures (cbreaker s) + length reqs = fail_max (cbreaker s)"
  shows "(\<exists>e. fst (call_with_breaker http retrying cfg req s) = Inl e \<and> status_code (respond e) = 500) \<and>
    (let t = client_calls http retrying cfg reqs s in
      mono t (mono_ix t) < mono t (mono_ix t - 1) + reset_timeout (cbreaker s) \<longrightarrow>
        fst (call_with_breaker http retrying cfg req t) = Inl breaker_open_exn \<and>
        status_code (respond breaker_open_exn) = 503)"
proof -
  note fails = unreachable_attempt[OF down]
  have "\<exists>e. fst (call_with_breaker http retrying cfg req s) = Inl e \<and> (e = ConnectExn \<or> e = TimeoutExn)"
    using failing_calls_closed[OF ten fails _ closed] by blast
  then have "\<exists>e. fst (call_with_breaker http retrying cfg req s) = Inl e \<and> status_code (respond e) = 500"
    by (auto simp: respond_unhandled)
  moreover have "let t = client_calls http retrying cfg reqs s in
      state (cbreaker t) = OPEN \<and> reset_timeout (cbreaker t) = reset_timeout (cbreaker s) \<and>
      opened_at (cbreaker t) = Some (mono t (mono_ix t - 1))"
    using ten fails _ closed n by (rule failing_calls_open) auto
  ultimately show ?thesis
    by (auto simp: Let_def respond_breaker_open refused_after)
qed

text \<open>
  Answers of a working ICM open the breaker: calls answered with a typed business error (status
  4xx with an error code, such as a contact without a case or a duplicate service request) count
  as failures, so that as many of them in a row as the threshold, from whatever users, open it,
  and every further call within the recovery time is refused with 503 without reaching ICM.
\<close>

theorem business_errors_open_breaker:
  assumes ten: "tenacity retrying" and up: "business_error http code"
    and closed: "state (cbreaker s) = CLOSED"
    and n: "reqs \<noteq> []" "failures (cbreaker s) + length reqs = fail_max (cbreaker s)"
  shows "let t = client_calls http retrying cfg reqs s in
      state (cbreaker t) = OPEN \<and>
      (mono t (mono_ix t) < mono t (mono_ix t - 1) + reset_timeout (cbreaker s) \<longrightarrow>
        fst (call_with_breaker http retrying cfg req t) = Inl breaker_open_exn \<and>
        wire_log (snd (call_with_breaker http retrying cfg req t)) = wire_log t \<and>
        status_code (respond breaker_open_exn) = 503)"
proof -
  have "let t = client_calls http retrying cfg reqs s in
      state (cbreaker t) = OPEN \<and> reset_timeout (cbreaker t) = reset_timeout (cbreaker s) \<and>
      opened_at (cbreaker t) = Some (mono t (mono_ix t - 1))"
    using ten business_attempt[OF up] _ closed n by (rule failing_calls_open) auto
  then show ?thesis by (auto simp: Let_def respond_breaker_open refused_after)
qed

definition down_http :: "unit http" where
  "down_http w n = (Inl ConnectExn, n)"

definition no_case_http :: "unit http" where
  "no_case_http w n =
     (case w of
        TokenReq _ _ \<Rightarrow> (Inr \<lparr>resp_status = 200, resp_json = Some (JObj [(''access_token'', JStr ''T'')]),
          resp_content = []\<rparr>, n)
      | ApiReq _ _ _ \<Rightarrow> (Inr \<lparr>resp_status = 404,
          resp_json = Some (JObj [(''errorCode'', JStr ''ICM_ERR_NO_CASE'')]), resp_content = []\<rparr>, n))"

lemma mono_call: "tenacity retrying \<Longrightarrow> mono (snd (call_with_breaker http retrying cfg req s)) = mono s"
proof -
  assume ten: "tenacity retrying"
  obtain r b where en: "brk_enter (mono s (mono_ix s)) (cbreaker s) = (r, b)"
    by (cases "brk_enter (mono s (mono_ix s)) (cbreaker s)")
  obtain r2 t where run: "call http retrying cfg req (s\<lparr>mono_ix := Suc (mono_ix s), cbreaker := b\<rparr>) = (r2, t)"
    by (cases "call http retrying cfg req (s\<lparr>mono_ix := Suc (mono_ix s), cbreaker := b\<rparr>)")
  from sets_envD[OF sets_env_call[OF ten] run] en run show ?thesis
    by (cases r; cases r2) (simp_all add: call_with_breaker_def call_async_refused call_async_admitted)
qed

lemma mono_calls: "tenacity retrying \<Longrightarrow> mono (client_calls http retrying cfg reqs s) = mono s"
  by (induction reqs arbitrary: s) (simp_all add: mono_call)

lemma demo_clock:
  "mono (client_calls http retry_loop cfg reqs demo_client) n <
     mono (client_calls http retry_loop cfg reqs demo_client) (n - 1) + seconds 30"
  by (cases n) (simp_all add: mono_calls[OF rl.tenacity_axioms] demo_client_def client_init_def seconds_def)

lemma demo_closed:
  "state (cbreaker demo_client) = CLOSED"
  "failures (cbreaker demo_client) + length (replicate 5 x) = fail_max (cbreaker demo_client)"
  "reset_timeout (cbreaker demo_client) = seconds 30"
  by (simp_all add: demo_client_def client_init_def breaker_init_def)

theorem unreachable_icm_is_500_witness:
  "(\<exists>e. fst (call_with_breaker down_http retry_loop demo_config (get_ep_detail_req ''7'') demo_client) = Inl e \<and>
      status_code (respond e) = 500) \<and>
    fst (call_with_breaker down_http retry_loop demo_config (get_ep_detail_req ''7'')
      (client_calls down_http retry_loop demo_config (replicate 5 (get_ep_detail_req ''7'')) demo_client)) =
      Inl breaker_open_exn"
proof -
  have "unreachable down_http" by (simp add: unreachable_def down_http_def)
  from unreachable_icm_is_500[OF rl.tenacity_axioms this demo_closed(1) _ demo_closed(2), where
      cfg = demo_config and req = "get_ep_detail_req ''7''" and x1 = "get_ep_detail_req ''7''"]
  show ?thesis using demo_clock by (simp add: Let_def demo_closed(3))
qed

theorem business_errors_open_breaker_witness:
  "state (cbreaker (client_calls no_case_http retry_loop demo_config (replicate 5 (get_ep_detail_req ''7'')) demo_client)) = OPEN \<and>
    fst (call_with_breaker no_case_http retry_loop demo_config (get_ep_detail_req ''7'')
      (client_calls no_case_http retry_loop demo_config (replicate 5 (get_ep_detail_req ''7'')) demo_client)) =
      Inl breaker_open_exn"
proof -
  have "business_error no_case_http ''ICM_ERR_NO_CASE''"
    by (simp add: business_error_def no_case_http_def token_req_def)
  from business_errors_open_breaker[OF rl.tenacity_axioms this demo_closed(1) _ demo_closed(2), where
      cfg = demo_config and req = "get_ep_detail_req ''7''" and x1 = "get_ep_detail_req ''7''"]
  show ?thesis using demo_clock by (simp add: Let_def demo_closed(3))
qed

end
