(* ===== verification/Validators.thy ===== *)
theory Validators
  imports Dates
begin

text \<open>
  The registration validators, \<open>app/domains/registration/validators.py\<close>: SIN (Luhn), PHN
  (modulo 11), names, PIN and minimum age. Texts are lists of Unicode code points (\<open>ustr\<close>),
  because what \<open>\d\<close>, \<open>int\<close>, \<open>str.strip\<close> and \<open>$\<close> accept beyond ASCII decides some of the
  properties. A ValueError carries its message; the en dash of the name message is written as
  a hyphen here.
\<close>

section \<open>Text as code points\<close>

type_synonym ustr = "nat list"

definition ascii :: "string \<Rightarrow> ustr" where
  "ascii s = map of_char s"

text \<open>
  The zeros of the decimal digit ranges (category Nd) of Unicode 15.0, the version of Python
  3.12. Each range has ten consecutive code points; they are what \<open>\d\<close> matches and what
  \<open>int\<close> accepts.
\<close>

definition nd_zeros :: "nat list" where
  "nd_zeros =
    [48, 1632, 1776, 1984, 2406, 2534, 2662, 2790, 2918, 3046, 3174, 3302, 3430, 3558, 3664,
     3792, 3872, 4160, 4240, 6112, 6160, 6470, 6608, 6784, 6800, 6992, 7088, 7232, 7248, 42528,
     43216, 43264, 43472, 43504, 43600, 44016, 65296, 66720, 68912, 69734, 69872, 69942, 70096,
     70384, 70736, 70864, 71248, 71360, 71472, 71904, 72016, 72784, 73040, 73120, 73552, 92768,
     92864, 93008, 120782, 120792, 120802, 120812, 120822, 123200, 123632, 124144, 125264, 130032]"

text \<open>The value of a digit, \<open>None\<close> for any other code point.\<close>

definition digit_val :: "nat \<Rightarrow> nat option" where
  "digit_val c =
     (case List.find (\<lambda>z. z \<le> c \<and> c < z + 10) nd_zeros of None \<Rightarrow> None | Some z \<Rightarrow> Some (c - z))"

definition is_digit :: "nat \<Rightarrow> bool" where
  "is_digit c \<longleftrightarrow> digit_val c \<noteq> None"

definition int_of_digit :: "nat \<Rightarrow> nat" where
  "int_of_digit c = (case digit_val c of None \<Rightarrow> 0 | Some v \<Rightarrow> v)"

definition is_space :: "nat \<Rightarrow> bool" where
  "is_space c \<longleftrightarrow> 9 \<le> c \<and> c \<le> 13 \<or> 28 \<le> c \<and> c \<le> 32 \<or> c \<in> {133, 160, 5760, 8232, 8233, 8239, 8287, 12288} \<or>
     8192 \<le> c \<and> c \<le> 8202"

definition strip :: "ustr \<Rightarrow> ustr" where
  "strip s = rev (dropWhile is_space (rev (dropWhile is_space s)))"

lemma digit_val_bound: "digit_val c = Some v \<Longrightarrow> v < 10"
  by (auto simp: digit_val_def find_Some_iff split: option.splits)

lemma int_of_digit_bound: "int_of_digit c < 10"
  by (auto simp: int_of_digit_def split: option.split dest: digit_val_bound)

lemma find_first: "P x \<Longrightarrow> List.find P (x # xs) = Some x"
  by simp

lemma digit_val_ascii: "v < 10 \<Longrightarrow> digit_val (48 + v) = Some v"
  by (simp add: digit_val_def nd_zeros_def)

lemma strip_empty_iff: "strip s = [] \<longleftrightarrow> (\<forall>c \<in> set s. is_space c)"
proof -
  have "(\<forall>c \<in> set (dropWhile is_space s). is_space c) \<longleftrightarrow> (\<forall>c \<in> set s. is_space c)"
    by (induction s) auto
  then show ?thesis by (simp add: strip_def dropWhile_eq_Nil_conv)
qed

section \<open>SIN\<close>

text \<open>\<open>re.sub(r"\D", "", raw)\<close>.\<close>

definition only_digits :: "ustr \<Rightarrow> ustr" where
  "only_digits raw = filter is_digit raw"

definition luhn_term :: "nat \<Rightarrow> nat \<Rightarrow> nat" where
  "luhn_term i n =
     (if i mod 2 = 1 then (if n * 2 > 9 then n * 2 - 9 else n * 2) else n)"

text \<open>The loop over \<open>enumerate(digits)\<close>.\<close>

fun luhn_loop :: "nat \<Rightarrow> ustr \<Rightarrow> nat \<Rightarrow> nat" where
  "luhn_loop i [] tot = tot"
| "luhn_loop i (ch # cs) tot = luhn_loop (i + 1) cs (tot + luhn_term i (int_of_digit ch))"

definition validate_sin :: "ustr \<Rightarrow> ustr res" where
  "validate_sin raw =
     (let digits = only_digits raw in
      if length digits \<noteq> 9 then Inl (ValueExn ''SIN must be 9 digits'')
      else if digits = ascii ''000000000'' then Inl (ValueExn ''SIN must be valid'')
      else if luhn_loop 0 digits 0 mod 10 \<noteq> 0 then Inl (ValueExn ''SIN must be valid'')
      else Inr digits)"

section \<open>PHN\<close>

definition phn_weights :: "nat list" where
  "phn_weights = [2, 4, 8, 5, 10, 9, 7, 3, 1]"

definition phn_check :: "ustr \<Rightarrow> nat" where
  "phn_check digits =
     (let tot = (\<Sum>i \<leftarrow> [0..<9]. int_of_digit (digits ! i) * phn_weights ! i);
          remainder = tot mod 11
      in if remainder \<noteq> 0 then 11 - remainder else 0)"

definition validate_phn :: "ustr \<Rightarrow> ustr res" where
  "validate_phn raw =
     (if raw = [] \<or> strip raw = [] then Inr []
      else
        let digits = only_digits raw in
        if length digits \<noteq> 10 then Inl (ValueExn ''Personal Health Number must be 10 digits'')
        else if phn_check digits = 10 then Inl (ValueExn ''Personal Health Number must be valid'')
        else if phn_check digits \<noteq> int_of_digit (digits ! 9)
        then Inl (ValueExn ''Personal Health Number must be valid'')
        else Inr digits)"

section \<open>Names, PIN, age\<close>

definition is_name_char :: "nat \<Rightarrow> bool" where
  "is_name_char c \<longleftrightarrow> 65 \<le> c \<and> c \<le> 90 \<or> 97 \<le> c \<and> c \<le> 122 \<or> c = 45 \<or> c = 39 \<or> c = 32"

text \<open>
  \<open>re.match\<close> of \<open>^[A-Za-z\-' ]{2,50}$\<close>: \<open>$\<close> without MULTILINE matches at the end and just
  before a newline that ends the text.
\<close>

definition name_re :: "ustr \<Rightarrow> bool" where
  "name_re s \<longleftrightarrow>
     (let body = takeWhile is_name_char s; rest = dropWhile is_name_char s in
      2 \<le> length body \<and> length body \<le> 50 \<and> (rest = [] \<or> rest = [10]))"

definition validate_name :: "ustr \<Rightarrow> ustr res" where
  "validate_name name =
     (if \<not> name_re name
      then Inl (ValueExn ''Name must be 2-50 characters and contain only letters, hyphens, apostrophes, or spaces'')
      else Inr name)"

text \<open>\<open>re.fullmatch(r"\d{4}", pin)\<close>.\<close>

definition validate_pin :: "ustr \<Rightarrow> ustr res" where
  "validate_pin pin =
     (if \<not> (length pin = 4 \<and> list_all is_digit pin) then Inl (ValueExn ''A valid PIN must be 4 digits'')
      else Inr pin)"

text \<open>The comparison of the two pairs is a Boolean, subtracted as 0 or 1.\<close>

definition age_on :: "date \<Rightarrow> date \<Rightarrow> int" where
  "age_on today dob =
     year today - year dob -
     (if month today < month dob \<or> month today = month dob \<and> day today < day dob then 1 else 0)"

definition validate_age :: "date \<Rightarrow> date \<Rightarrow> date res" where
  "validate_age today dob =
     (if age_on today dob < 16 then Inl (ValueExn ''Applicant must be at least 16 years old to register'')
      else Inr dob)"

section \<open>Check digits\<close>

text \<open>
  Both numbers are protected by a sum over positions modulo \<open>M\<close>. What makes such a sum detect a
  wrong digit is that at each position different digits contribute differently.
\<close>

definition check_sum :: "(nat \<Rightarrow> nat \<Rightarrow> nat) \<Rightarrow> ustr \<Rightarrow> nat" where
  "check_sum trm ds = (\<Sum>i<length ds. trm i (int_of_digit (ds ! i)))"

lemma check_sum_update:
  assumes "i < length ds"
  shows "check_sum trm (ds[i := c]) + trm i (int_of_digit (ds ! i)) = check_sum trm ds + trm i (int_of_digit c)"
proof -
  let ?R = "{..<length ds} - {i}"
  have "check_sum trm ds = trm i (int_of_digit (ds ! i)) + (\<Sum>j\<in>?R. trm j (int_of_digit (ds ! j)))"
    unfolding check_sum_def using assms by (intro sum.remove) auto
  moreover have "check_sum trm (ds[i := c]) = trm i (int_of_digit c) +
      (\<Sum>j\<in>?R. trm j (int_of_digit (ds[i := c] ! j)))"
    unfolding check_sum_def using assms by (subst sum.remove[of _ i]) auto
  moreover have "(\<Sum>j\<in>?R. trm j (int_of_digit (ds[i := c] ! j))) = (\<Sum>j\<in>?R. trm j (int_of_digit (ds ! j)))"
    by (intro sum.cong) auto
  ultimately show ?thesis by simp
qed

lemma mod_add_cancel:
  fixes a b x y M :: nat
  assumes "x + a = y + b" and "x mod M = y mod M"
  shows "a mod M = b mod M"
proof -
  have "int a mod int M = int b mod int M"
  proof -
    have "int x mod int M = int y mod int M" using assms(2) by (metis zmod_int)
    moreover have "int a = int y + int b - int x" using assms(1) by linarith
    ultimately show ?thesis by (metis (no_types, opaque_lifting) add_diff_cancel_left' mod_diff_left_eq mod_diff_right_eq)
  qed
  then show ?thesis by (metis zmod_int of_nat_eq_iff)
qed

locale check_digits =
  fixes trm :: "nat \<Rightarrow> nat \<Rightarrow> nat" and M n :: nat
  assumes trm_inj: "i < n \<Longrightarrow> a < 10 \<Longrightarrow> b < 10 \<Longrightarrow> trm i a mod M = trm i b mod M \<Longrightarrow> a = b"
begin

lemma single_error:
  assumes "length ds = n" and "i < n" and "check_sum trm ds mod M = 0"
    and "int_of_digit c \<noteq> int_of_digit (ds ! i)"
  shows "check_sum trm (ds[i := c]) mod M \<noteq> 0"
proof
  assume "check_sum trm (ds[i := c]) mod M = 0"
  then have "check_sum trm (ds[i := c]) mod M = check_sum trm ds mod M"
    using assms(3) by (rule trans[OF _ sym])
  then have "trm i (int_of_digit (ds ! i)) mod M = trm i (int_of_digit c) mod M"
    using assms(1,2) by (intro mod_add_cancel[OF check_sum_update]) simp_all
  then show False using trm_inj[OF assms(2) int_of_digit_bound int_of_digit_bound] assms(4) by metis
qed

text \<open>Swapping two neighbours goes unseen only where the two terms of the pair add up alike.\<close>

lemma swap_error:
  assumes "length ds = n" and "Suc i < n" and "check_sum trm ds mod M = 0"
    and "check_sum trm (ds[i := ds ! Suc i, Suc i := ds ! i]) mod M = 0"
  shows "(trm i (int_of_digit (ds ! i)) + trm (Suc i) (int_of_digit (ds ! Suc i))) mod M =
    (trm i (int_of_digit (ds ! Suc i)) + trm (Suc i) (int_of_digit (ds ! i))) mod M"
proof -
  have 1: "check_sum trm (ds[i := ds ! Suc i]) + trm i (int_of_digit (ds ! i)) =
      check_sum trm ds + trm i (int_of_digit (ds ! Suc i))"
    using assms by (intro check_sum_update) simp
  have 2: "check_sum trm (ds[i := ds ! Suc i, Suc i := ds ! i]) + trm (Suc i) (int_of_digit (ds ! Suc i)) =
      check_sum trm (ds[i := ds ! Suc i]) + trm (Suc i) (int_of_digit (ds ! i))"
    using check_sum_update[of "Suc i" "ds[i := ds ! Suc i]" trm "ds ! i"] assms by simp
  from 1 2 have "check_sum trm (ds[i := ds ! Suc i, Suc i := ds ! i]) +
      (trm i (int_of_digit (ds ! i)) + trm (Suc i) (int_of_digit (ds ! Suc i))) =
      check_sum trm ds + (trm i (int_of_digit (ds ! Suc i)) + trm (Suc i) (int_of_digit (ds ! i)))"
    by linarith
  then show ?thesis by (rule mod_add_cancel) (simp add: assms)
qed

end

text \<open>The digits below ten, to decide statements about one or two digits.\<close>

lemma all_digits: "(\<forall>a<10. P (a::nat)) \<longleftrightarrow> list_all P [0, 1, 2, 3, 4, 5, 6, 7, 8, 9]"
proof -
  have "(\<forall>a<10. P a) \<longleftrightarrow> list_all P [0..<10]" by (auto simp: list_all_iff)
  also have "[0..<10] = [0, 1, 2, 3, 4, 5, 6, 7, 8, 9::nat]" by (simp add: upt_rec)
  finally show ?thesis .
qed

lemma luhn_injective:
  "list_all (\<lambda>a. list_all (\<lambda>b. luhn_term 0 a mod 10 = luhn_term 0 b mod 10 \<longrightarrow> a = b)
     [0, 1, 2, 3, 4, 5, 6, 7, 8, 9]) [0, 1, 2, 3, 4, 5, 6, 7, 8, 9]"
  "list_all (\<lambda>a. list_all (\<lambda>b. luhn_term 1 a mod 10 = luhn_term 1 b mod 10 \<longrightarrow> a = b)
     [0, 1, 2, 3, 4, 5, 6, 7, 8, 9]) [0, 1, 2, 3, 4, 5, 6, 7, 8, 9]"
  by code_simp+

lemma luhn_swaps:
  "list_all (\<lambda>a. list_all (\<lambda>b. (luhn_term 0 a + luhn_term 1 b) mod 10 = (luhn_term 0 b + luhn_term 1 a) mod 10 \<longrightarrow>
     a = b \<or> a = 0 \<and> b = 9 \<or> a = 9 \<and> b = 0)
     [0, 1, 2, 3, 4, 5, 6, 7, 8, 9]) [0, 1, 2, 3, 4, 5, 6, 7, 8, 9]"
  by code_simp

lemma luhn_term_inj:
  assumes "a < 10" and "b < 10" and "luhn_term i a mod 10 = luhn_term i b mod 10"
  shows "a = b"
proof -
  have "luhn_term i = luhn_term (i mod 2)" by (rule ext) (simp add: luhn_term_def)
  moreover have "i mod 2 = 0 \<or> i mod 2 = 1" by auto
  ultimately show ?thesis using assms luhn_injective[folded all_digits] by metis
qed

lemma luhn_swap:
  assumes "a < 10" and "b < 10"
    and "(luhn_term i a + luhn_term (Suc i) b) mod 10 = (luhn_term i b + luhn_term (Suc i) a) mod 10"
  shows "a = b \<or> {a, b} = {0, 9}"
proof -
  have *: "(luhn_term 0 x + luhn_term 1 y) mod 10 = (luhn_term 0 y + luhn_term 1 x) mod 10 \<Longrightarrow>
      x < 10 \<Longrightarrow> y < 10 \<Longrightarrow> x = y \<or> {x, y} = {0, 9}" for x y
    using luhn_swaps[folded all_digits] by blast
  show ?thesis
  proof (cases "i mod 2 = 0")
    case True
    then have "luhn_term i = luhn_term 0" "luhn_term (Suc i) = luhn_term 1"
      by (auto simp: luhn_term_def fun_eq_iff mod_Suc)
    then show ?thesis using *[of a b] assms by simp
  next
    case False
    then have "luhn_term i = luhn_term 1" "luhn_term (Suc i) = luhn_term 0"
      by (auto simp: luhn_term_def fun_eq_iff mod_Suc)
    then show ?thesis using *[of b a] assms by (simp add: add.commute insert_commute eq_commute)
  qed
qed

interpretation sin: check_digits luhn_term 10 9
  by unfold_locales (rule luhn_term_inj)

text \<open>The PHN's check digit is a tenth term of weight 1.\<close>

definition phn_term :: "nat \<Rightarrow> nat \<Rightarrow> nat" where
  "phn_term i d = d * (phn_weights @ [1]) ! i"

lemma phn_injective:
  "list_all (\<lambda>i. list_all (\<lambda>a. list_all (\<lambda>b. phn_term i a mod 11 = phn_term i b mod 11 \<longrightarrow> a = b)
     [0, 1, 2, 3, 4, 5, 6, 7, 8, 9]) [0, 1, 2, 3, 4, 5, 6, 7, 8, 9]) [0, 1, 2, 3, 4, 5, 6, 7, 8, 9]"
  by code_simp

lemma phn_term_inj:
  "i < 10 \<Longrightarrow> a < 10 \<Longrightarrow> b < 10 \<Longrightarrow> phn_term i a mod 11 = phn_term i b mod 11 \<Longrightarrow> a = b"
  using phn_injective[folded all_digits] by blast

lemma phn_swaps:
  "list_all (\<lambda>i. list_all (\<lambda>a. list_all (\<lambda>b. (phn_term i a + phn_term (Suc i) b) mod 11 = (phn_term i b + phn_term (Suc i) a) mod 11 \<longrightarrow> a = b)
     [0, 1, 2, 3, 4, 5, 6, 7, 8, 9]) [0, 1, 2, 3, 4, 5, 6, 7, 8, 9]) [0, 1, 2, 3, 4, 5, 6, 7]"
  by code_simp

lemma list_allD: "list_all P xs \<Longrightarrow> x \<in> set xs \<Longrightarrow> P x"
  by (simp add: list_all_iff)

lemma phn_swap:
  assumes "i < 8" and "a < 10" and "b < 10"
    and "(phn_term i a + phn_term (Suc i) b) mod 11 = (phn_term i b + phn_term (Suc i) a) mod 11"
  shows "a = b"
proof -
  have "i \<in> set [0, 1, 2, 3, 4, 5, 6, 7]" using assms(1) by auto
  from list_allD[OF phn_swaps this, folded all_digits] show ?thesis using assms by blast
qed

interpretation phn: check_digits phn_term 11 10
  by unfold_locales (rule phn_term_inj)

section \<open>What is accepted\<close>

lemma only_digits_id [simp]: "list_all is_digit ds \<Longrightarrow> only_digits ds = ds"
  by (simp add: only_digits_def filter_id_conv list_all_iff)

lemma only_digits_all [simp]: "list_all is_digit (only_digits raw)"
  by (simp add: only_digits_def list_all_iff)

lemma list_all_update: "list_all P ds \<Longrightarrow> P c \<Longrightarrow> list_all P (ds[i := c])"
  by (auto simp: list_all_iff dest: set_update_subset_insert[THEN subsetD])

lemma list_all_swap: "list_all P ds \<Longrightarrow> Suc i < length ds \<Longrightarrow> list_all P (ds[i := ds ! Suc i, Suc i := ds ! i])"
  by (intro list_all_update) (auto simp: list_all_iff)

lemma luhn_loop_sum:
  "luhn_loop i ds tot = tot + (\<Sum>j<length ds. luhn_term (i + j) (int_of_digit (ds ! j)))"
proof (induction ds arbitrary: i tot)
  case Nil
  then show ?case by simp
next
  case (Cons c ds)
  show ?case by (simp add: Cons.IH sum.lessThan_Suc_shift del: sum.lessThan_Suc)
qed

lemma luhn_loop_check_sum: "luhn_loop 0 ds 0 = check_sum luhn_term ds"
  by (simp add: luhn_loop_sum check_sum_def)

lemma validate_sin_iff:
  "validate_sin raw = Inr s \<longleftrightarrow>
     s = only_digits raw \<and> length s = 9 \<and> s \<noteq> ascii ''000000000'' \<and> check_sum luhn_term s mod 10 = 0"
  by (auto simp: validate_sin_def Let_def luhn_loop_check_sum)

lemma phn_check_digit:
  assumes "length ds = 10"
  shows "phn_check ds = int_of_digit (ds ! 9) \<longleftrightarrow> check_sum phn_term ds mod 11 = 0"
proof -
  define t where "t = (\<Sum>i \<leftarrow> [0..<9]. int_of_digit (ds ! i) * phn_weights ! i)"
  define d where "d = int_of_digit (ds ! 9)"
  have "(\<Sum>i<9. phn_term i (int_of_digit (ds ! i))) = t"
    unfolding t_def interv_sum_list_conv_sum_set_nat set_upt
  proof (intro sum.cong)
    fix i :: nat assume "i \<in> {0..<9}"
    then have "(phn_weights @ [1]) ! i = phn_weights ! i"
      by (subst nth_append) (simp add: phn_weights_def)
    then show "phn_term i (int_of_digit (ds ! i)) = int_of_digit (ds ! i) * phn_weights ! i"
      by (simp add: phn_term_def)
  qed auto
  then have cs: "check_sum phn_term ds = t + d"
  proof -
    have "length ds = Suc 9" using assms by simp
    then have "check_sum phn_term ds = (\<Sum>i<9. phn_term i (int_of_digit (ds ! i))) + phn_term 9 d"
      unfolding check_sum_def d_def by (simp only: sum.lessThan_Suc)
    moreover have "phn_term 9 d = d" by (simp add: phn_term_def phn_weights_def)
    ultimately show ?thesis using \<open>(\<Sum>i<9. phn_term i (int_of_digit (ds ! i))) = t\<close> by simp
  qed
  have d: "d < 10" by (simp add: d_def int_of_digit_bound)
  have "(if t mod 11 \<noteq> 0 then 11 - t mod 11 else 0) = d \<longleftrightarrow> (t + d) mod 11 = 0"
  proof -
    define r where "r = t mod 11"
    have r: "r < 11" by (simp add: r_def)
    have "(t + d) mod 11 = (r + d) mod 11" by (simp add: r_def mod_add_left_eq)
    moreover have "(r + d) mod 11 = 0 \<longleftrightarrow> r + d = 0 \<or> r + d = 11"
      using r d by presburger
    ultimately show ?thesis using r d unfolding r_def[symmetric] by auto
  qed
  then show ?thesis by (simp add: phn_check_def Let_def t_def[symmetric] d_def[symmetric] cs)
qed

lemma validate_phn_iff:
  assumes "p \<noteq> []"
  shows "validate_phn raw = Inr p \<longleftrightarrow>
    strip raw \<noteq> [] \<and> p = only_digits raw \<and> length p = 10 \<and> check_sum phn_term p mod 11 = 0"
proof -
  have "raw = [] \<Longrightarrow> strip raw = []" by (simp add: strip_def)
  moreover have "phn_check ds = 10 \<Longrightarrow> phn_check ds \<noteq> int_of_digit (ds ! 9)" for ds
    using int_of_digit_bound[of "ds ! 9"] by linarith
  ultimately show ?thesis
    using assms phn_check_digit[of "only_digits raw"]
    by (cases "length (only_digits raw) = 10") (auto simp: validate_phn_def Let_def)
qed

section \<open>Properties\<close>

lemma digit_swap_length [simp]: "length (ds[i := a, j := b]) = length ds"
  by simp

lemma validate_sin_parts:
  "validate_sin raw = Inr s \<Longrightarrow> length s = 9 \<and> list_all is_digit s \<and> check_sum luhn_term s mod 10 = 0"
  by (auto simp: validate_sin_iff)

lemma validate_phn_parts:
  "validate_phn raw = Inr p \<Longrightarrow> p \<noteq> [] \<Longrightarrow> length p = 10 \<and> list_all is_digit p \<and> check_sum phn_term p mod 11 = 0"
  by (auto simp: validate_phn_iff)

lemma sin_rejects: "list_all is_digit ds \<Longrightarrow> check_sum luhn_term ds mod 10 \<noteq> 0 \<Longrightarrow> \<not> is_ok (validate_sin ds)"
  by (auto simp: is_ok_iff validate_sin_iff)

lemma strip_digits:
  assumes "list_all is_digit ds" and "ds \<noteq> []"
  shows "strip ds \<noteq> []"
proof -
  have "list_all (\<lambda>z. list_all (\<lambda>k. \<not> is_space (z + k)) [0, 1, 2, 3, 4, 5, 6, 7, 8, 9]) nd_zeros"
    by (simp add: nd_zeros_def is_space_def)
  then have no_space: "list_all (\<lambda>z. \<forall>k<10. \<not> is_space (z + k)) nd_zeros"
    by (simp only: all_digits)
  have "\<not> is_space c" if "is_digit c" for c
  proof -
    from that obtain z where z: "z \<in> set nd_zeros" "z \<le> c" "c < z + 10"
      by (auto simp: is_digit_def digit_val_def find_Some_iff split: option.splits) (metis nth_mem)
    have "\<forall>k<10. \<not> is_space (z + k)" using no_space z(1) unfolding list_all_iff by blast
    moreover have "c - z < 10" and "z + (c - z) = c" using z by auto
    ultimately show ?thesis by metis
  qed
  then show ?thesis using assms by (cases ds) (auto simp: strip_empty_iff)
qed

lemma phn_rejects:
  "list_all is_digit ds \<Longrightarrow> ds \<noteq> [] \<Longrightarrow> check_sum phn_term ds mod 11 \<noteq> 0 \<Longrightarrow> \<not> is_ok (validate_phn ds)"
  using strip_digits[of ds] phn_check_digit[of ds]
  by (auto simp: is_ok_iff validate_phn_def Let_def split: if_splits)

text \<open>C18.
  The SIN check catches the usual slips: an accepted SIN is cleaned to nine digits and accepted
  again as it is; with any one digit mistyped, or with two different neighbours swapped, unless
  these are 0 and 9, it is rejected.
\<close>

theorem sin_errors_detected:
  assumes "validate_sin raw = Inr s" and "i < 9" and "is_digit c"
  shows "validate_sin s = Inr s \<and>
    (int_of_digit c \<noteq> int_of_digit (s ! i) \<longrightarrow> \<not> is_ok (validate_sin (s[i := c]))) \<and>
    (Suc i < 9 \<and> int_of_digit (s ! i) \<noteq> int_of_digit (s ! Suc i) \<and>
      {int_of_digit (s ! i), int_of_digit (s ! Suc i)} \<noteq> {0, 9} \<longrightarrow>
      \<not> is_ok (validate_sin (s[i := s ! Suc i, Suc i := s ! i])))"
proof -
  have s: "length s = 9" "list_all is_digit s" "check_sum luhn_term s mod 10 = 0"
    using validate_sin_parts[OF assms(1)] by blast+
  have "validate_sin s = Inr s" using assms(1) by (auto simp: validate_sin_iff)
  moreover have "\<not> is_ok (validate_sin (s[i := c]))" if "int_of_digit c \<noteq> int_of_digit (s ! i)"
    by (intro sin_rejects list_all_update sin.single_error s assms that)
  moreover have "\<not> is_ok (validate_sin (s[i := s ! Suc i, Suc i := s ! i]))"
    if "Suc i < 9" and "int_of_digit (s ! i) \<noteq> int_of_digit (s ! Suc i)"
      and "{int_of_digit (s ! i), int_of_digit (s ! Suc i)} \<noteq> {0, 9}"
  proof (intro sin_rejects list_all_swap notI)
    assume "check_sum luhn_term (s[i := s ! Suc i, Suc i := s ! i]) mod 10 = 0"
    then have "(luhn_term i (int_of_digit (s ! i)) + luhn_term (Suc i) (int_of_digit (s ! Suc i))) mod 10 =
        (luhn_term i (int_of_digit (s ! Suc i)) + luhn_term (Suc i) (int_of_digit (s ! i))) mod 10"
      by (rule sin.swap_error[OF s(1) that(1) s(3)])
    from luhn_swap[OF int_of_digit_bound int_of_digit_bound this] that(2,3) show False by blast
  qed (use that(1) s in simp_all)
  ultimately show ?thesis by (intro conjI impI; (elim conjE)?; assumption?) simp_all
qed

text \<open>
  So does the PHN check: an accepted number that is not empty is accepted again as it is; with
  any one of its ten digits mistyped, or with any two different neighbours among its first nine
  swapped, it is rejected.
\<close>

theorem phn_errors_detected:
  assumes "validate_phn raw = Inr p" and "p \<noteq> []" and "i < 10" and "is_digit c"
  shows "validate_phn p = Inr p \<and>
    (int_of_digit c \<noteq> int_of_digit (p ! i) \<longrightarrow> \<not> is_ok (validate_phn (p[i := c]))) \<and>
    (i < 8 \<and> int_of_digit (p ! i) \<noteq> int_of_digit (p ! Suc i) \<longrightarrow>
      \<not> is_ok (validate_phn (p[i := p ! Suc i, Suc i := p ! i])))"
proof -
  have p: "length p = 10" "list_all is_digit p" "check_sum phn_term p mod 11 = 0"
    using validate_phn_parts[OF assms(1,2)] by blast+
  have "validate_phn p = Inr p" 
    unfolding validate_phn_iff[OF assms(2)] using p strip_digits[OF p(2) assms(2)] by simp
  moreover have "\<not> is_ok (validate_phn (p[i := c]))" if "int_of_digit c \<noteq> int_of_digit (p ! i)"
    by (intro phn_rejects list_all_update phn.single_error p assms that) (simp add: assms)
  moreover have "\<not> is_ok (validate_phn (p[i := p ! Suc i, Suc i := p ! i]))"
    if "i < 8" and "int_of_digit (p ! i) \<noteq> int_of_digit (p ! Suc i)"
  proof (intro phn_rejects list_all_swap notI)
    assume "check_sum phn_term (p[i := p ! Suc i, Suc i := p ! i]) mod 11 = 0"
      then have "(phn_term i (int_of_digit (p ! i)) + phn_term (Suc i) (int_of_digit (p ! Suc i))) mod 11 =
          (phn_term i (int_of_digit (p ! Suc i)) + phn_term (Suc i) (int_of_digit (p ! i))) mod 11"
        using that(1) by (intro phn.swap_error[OF p(1) _ p(3)]) simp_all
      from phn_swap[OF that(1) int_of_digit_bound int_of_digit_bound this] that(2) show False by blast
  qed (use that(1) assms(2) p(1,2) in simp_all)
  ultimately show ?thesis by (intro conjI impI; (elim conjE)?; assumption?) simp_all
qed

lemmas eval_text =
  validate_sin_def validate_phn_def validate_pin_def validate_name_def name_re_def is_name_char_def
  phn_check_def phn_weights_def luhn_term_def only_digits_def strip_def is_space_def is_digit_def
  int_of_digit_def digit_val_def nd_zeros_def ascii_def Let_def upt_rec

theorem sin_errors_detected_witness:
  "validate_sin (ascii ''046454286'') = Inr (ascii ''046454286'') \<and>
    \<not> is_ok (validate_sin ((ascii ''046454286'')[3 := 57])) \<and>
    \<not> is_ok (validate_sin ((ascii ''046454286'')[3 := 53, Suc 3 := 52]))"
proof -
  have "validate_sin (ascii ''046 454-286'') = Inr (ascii ''046454286'')" by (simp add: eval_text)
  from sin_errors_detected[OF this, of 3 57] show ?thesis
    by (simp add: ascii_def is_digit_def digit_val_def nd_zeros_def int_of_digit_def doubleton_eq_iff)
qed

theorem phn_errors_detected_witness:
  "validate_phn (ascii ''9000000004'') = Inr (ascii ''9000000004'') \<and>
    \<not> is_ok (validate_phn ((ascii ''9000000004'')[3 := 57])) \<and>
    \<not> is_ok (validate_phn ((ascii ''9000000004'')[0 := 48, Suc 0 := 57]))"
proof -
  have phn: "validate_phn (ascii ''9000 000 004'') = Inr (ascii ''9000000004'')" by (simp add: eval_text)
  have ne: "ascii ''9000000004'' \<noteq> []" by (simp add: ascii_def)
  show ?thesis
    using phn_errors_detected[OF phn ne, of 3 57] phn_errors_detected[OF phn ne, of 0 57]
    by (simp add: ascii_def is_digit_def digit_val_def nd_zeros_def int_of_digit_def doubleton_eq_iff)
qed

lemma replicate_9: "replicate 9 (x::nat) = [x, x, x, x, x, x, x, x, x]"
  by (simp add: eval_nat_numeral)

text \<open>
  What the validators accept beyond the documented formats. The all-zero SIN, rejected in
  ASCII, is accepted when its zeros are written in another script, and the all-zero PHN, whose
  first digit should be 9, is accepted as it is; a PIN of four digits of another script is a
  valid PIN; a name may end with a newline.
\<close>

theorem accepted_beyond_format:
  "\<not> is_ok (validate_sin (ascii ''000000000'')) \<and>
   validate_sin (replicate 9 1632) = Inr (replicate 9 1632) \<and>
   validate_phn (ascii ''0000000000'') = Inr (ascii ''0000000000'') \<and>
   validate_pin [1633, 1634, 1635, 1636] = Inr [1633, 1634, 1635, 1636] \<and>
   validate_name (ascii ''Jo'' @ [10]) = Inr (ascii ''Jo'' @ [10])"
proof (intro conjI)
  show "\<not> is_ok (validate_sin (ascii ''000000000''))" by (simp add: eval_text)
  show "validate_sin (replicate 9 1632) = Inr (replicate 9 1632)" by (simp add: eval_text replicate_9)
  show "validate_phn (ascii ''0000000000'') = Inr (ascii ''0000000000'')" by (simp add: eval_text)
  show "validate_pin [1633, 1634, 1635, 1636] = Inr [1633, 1634, 1635, 1636]" by (simp add: eval_text)
  show "validate_name (ascii ''Jo'' @ [10]) = Inr (ascii ''Jo'' @ [10])" by (simp add: eval_text)
qed

text \<open>
  A name is accepted exactly when it is 2 to 50 of the allowed characters, up to one final
  newline.
\<close>

lemma validate_name_iff:
  "validate_name name = Inr name' \<longleftrightarrow> name' = name \<and>
    (\<exists>body. list_all is_name_char body \<and> 2 \<le> length body \<and> length body \<le> 50 \<and>
      (name = body \<or> name = body @ [10]))"
proof -
  have nl: "\<not> is_name_char 10" by (simp add: is_name_char_def)
  have "name_re name \<longleftrightarrow> (\<exists>body. list_all is_name_char body \<and> 2 \<le> length body \<and> length body \<le> 50 \<and>
      (name = body \<or> name = body @ [10]))"
  proof
    assume "name_re name"
    then show "\<exists>body. list_all is_name_char body \<and> 2 \<le> length body \<and> length body \<le> 50 \<and>
      (name = body \<or> name = body @ [10])"
      unfolding name_re_def Let_def
      by (intro exI[of _ "takeWhile is_name_char name"])
        (metis append_Nil2 list_all_iff set_takeWhileD takeWhile_dropWhile_id)
  next
    assume "\<exists>body. list_all is_name_char body \<and> 2 \<le> length body \<and> length body \<le> 50 \<and>
      (name = body \<or> name = body @ [10])"
    then obtain body where b: "list_all is_name_char body" "2 \<le> length body" "length body \<le> 50"
      "name = body \<or> name = body @ [10]" by blast
    have split: "takeWhile is_name_char (body @ r) = body @ takeWhile is_name_char r \<and>
        dropWhile is_name_char (body @ r) = dropWhile is_name_char r" for r
      using b(1) by (simp add: list_all_iff)
    from b split[of "[]"] split[of "[10]"] nl show "name_re name"
      by (auto simp: name_re_def Let_def simp del: takeWhile_append dropWhile_append takeWhile_eq_all_conv)
  qed
  then show ?thesis by (auto simp: validate_name_def)
qed

lemma validate_pin_iff:
  "validate_pin pin = Inr p \<longleftrightarrow> p = pin \<and> length pin = 4 \<and> list_all is_digit pin"
  by (auto simp: validate_pin_def)

text \<open>C19.
  The minimum age is exactly the 16th birthday: a date of birth is accepted from the day with
  the same month and day sixteen years later on (for the 29th of February in a common year,
  from the 1st of March), and from then on every day.
\<close>

theorem age_accepted_from_16th_birthday:
  "is_ok (validate_age today dob) \<longleftrightarrow> Date (year dob + 16) (month dob) (day dob) \<le> today"
  by (cases today; cases dob) (auto simp: validate_age_def age_on_def)

end
