(* ===== verification/Pin_Hash.thy ===== *)
theory Pin_Hash
  imports Validators "HOL-Library.Word"
begin

text \<open>
  The PIN digest of \<open>RegistrationService\<close> (\<open>hash_pin\<close>, \<open>verify_pin\<close> in
  \<open>app/domains/registration/service.py\<close>) with the conversions it goes through: \<open>str.encode\<close>
  (UTF-8), \<open>bytes.hex\<close> and \<open>bytes.fromhex\<close>. PBKDF2 itself is a parameter: a function of the
  password bytes, the salt and the iteration count.
\<close>

section \<open>Bytes\<close>

type_synonym byte = "8 word"

text \<open>UTF-8 of a code point; surrogates raise UnicodeEncodeError, a ValueError.\<close>

definition utf8_char :: "nat \<Rightarrow> byte list res" where
  "utf8_char c =
     (if c < 128 then Inr [of_nat c]
      else if c < 2048 then Inr [of_nat (192 + c div 64), of_nat (128 + c mod 64)]
      else if 55296 \<le> c \<and> c \<le> 57343 then Inl (ValueExn ''surrogates not allowed'')
      else if c < 65536 then
        Inr [of_nat (224 + c div 4096), of_nat (128 + c div 64 mod 64), of_nat (128 + c mod 64)]
      else
        Inr [of_nat (240 + c div 262144), of_nat (128 + c div 4096 mod 64),
             of_nat (128 + c div 64 mod 64), of_nat (128 + c mod 64)])"

definition utf8 :: "ustr \<Rightarrow> byte list res" where
  "utf8 s = bind_res (map_res utf8_char s) (\<lambda>bs. Inr (concat bs))"

definition hex_digits :: string where
  "hex_digits = ''0123456789abcdef''"

definition hex_byte :: "byte \<Rightarrow> string" where
  "hex_byte b = [hex_digits ! (unat b div 16), hex_digits ! (unat b mod 16)]"

definition to_hex :: "byte list \<Rightarrow> string" where
  "to_hex bs = concat (map hex_byte bs)"

text \<open>\<open>bytes.fromhex\<close>: pairs of hexadecimal digits of either case, ASCII whitespace between them.\<close>

definition hex_val :: "char \<Rightarrow> nat option" where
  "hex_val c =
     (let n = (of_char c :: nat) in
      if 48 \<le> n \<and> n \<le> 57 then Some (n - 48)
      else if 97 \<le> n \<and> n \<le> 102 then Some (n - 87)
      else if 65 \<le> n \<and> n \<le> 70 then Some (n - 55)
      else None)"

definition hex_space :: "char \<Rightarrow> bool" where
  "hex_space c \<longleftrightarrow> (let n = (of_char c :: nat) in n = 32 \<or> 9 \<le> n \<and> n \<le> 13)"

fun from_hex :: "string \<Rightarrow> byte list res" where
  "from_hex [] = Inr []"
| "from_hex [c] = (if hex_space c then Inr [] else Inl (ValueExn ''non-hexadecimal number found''))"
| "from_hex (c # d # cs) =
     (if hex_space c then from_hex (d # cs)
      else case (hex_val c, hex_val d) of
        (Some h, Some l) \<Rightarrow> bind_res (from_hex cs) (\<lambda>bs. Inr (of_nat (16 * h + l) # bs))
      | _ \<Rightarrow> Inl (ValueExn ''non-hexadecimal number found''))"

section \<open>Hashing and verifying\<close>

type_synonym kdf = "byte list \<Rightarrow> byte list \<Rightarrow> nat \<Rightarrow> byte list"

definition hash_pin :: "kdf \<Rightarrow> byte list \<Rightarrow> ustr \<Rightarrow> (string \<times> string) res" where
  "hash_pin pbkdf2 salt pin =
     bind_res (utf8 pin) (\<lambda>pw. Inr (to_hex (pbkdf2 pw salt 260000), to_hex salt))"

text \<open>\<open>hmac.compare_digest\<close> compares ASCII texts only.\<close>

definition compare_digest :: "string \<Rightarrow> string \<Rightarrow> bool res" where
  "compare_digest a b =
     (if list_all (\<lambda>c. (of_char c :: nat) < 128) (a @ b) then Inr (a = b) else Inl TypeExn)"

definition verify_pin :: "kdf \<Rightarrow> ustr \<Rightarrow> string \<Rightarrow> string \<Rightarrow> bool res" where
  "verify_pin pbkdf2 pin stored_hash stored_salt =
     bind_res (from_hex stored_salt) (\<lambda>salt.
     bind_res (utf8 pin) (\<lambda>pw.
     compare_digest (to_hex (pbkdf2 pw salt 260000)) stored_hash))"

section \<open>Round trips\<close>

lemma hex_digit_val:
  assumes "n < 16"
  shows "hex_val (hex_digits ! n) = Some n \<and> \<not> hex_space (hex_digits ! n) \<and> (of_char (hex_digits ! n) :: nat) < 128"
proof -
  have "n \<in> set [0..<16]" using assms by simp
  moreover have "list_all (\<lambda>n. hex_val (hex_digits ! n) = Some n \<and> \<not> hex_space (hex_digits ! n) \<and>
      (of_char (hex_digits ! n) :: nat) < 128) [0..<16]"
    by (simp add: upt_rec hex_digits_def hex_val_def hex_space_def Let_def)
  ultimately show ?thesis by (rule list_allD[rotated])
qed

lemma byte_bounds: "unat (b :: byte) div 16 < 16" "unat b mod 16 < 16"
proof -
  have "unat b < 256" using unsigned_less[of b] by simp
  then show "unat b div 16 < 16" by auto
qed simp

lemma from_hex_to_hex: "from_hex (to_hex bs) = Inr bs"
proof (induction bs)
  case Nil
  then show ?case by (simp add: to_hex_def)
next
  case (Cons b bs)
  have "(of_nat (16 * (unat b div 16) + unat b mod 16) :: byte) = b" by simp
  then show ?case
    using Cons hex_digit_val[OF byte_bounds(1)[of b]] hex_digit_val[OF byte_bounds(2)[of b]]
    by (simp add: to_hex_def hex_byte_def)
qed

lemma to_hex_inj: "to_hex a = to_hex b \<longleftrightarrow> a = b"
  by (metis from_hex_to_hex sum.inject(2))

lemma to_hex_ascii: "list_all (\<lambda>c. (of_char c :: nat) < 128) (to_hex bs)"
  using hex_digit_val byte_bounds by (induction bs) (auto simp: to_hex_def hex_byte_def)

lemma compare_hex: "compare_digest (to_hex a) (to_hex b) = Inr (a = b)"
  using to_hex_ascii by (simp add: compare_digest_def to_hex_inj)

text \<open>A PIN the validator accepts can be encoded.\<close>

lemma digit_utf8:
  assumes "is_digit c"
  shows "\<exists>bs. utf8_char c = Inr bs"
proof -
  have "list_all (\<lambda>z. z + 10 \<le> 55296 \<or> 57343 < z) nd_zeros" by (simp add: nd_zeros_def)
  moreover from assms obtain z where "z \<in> set nd_zeros" "z \<le> c" "c < z + 10"
    by (auto simp: is_digit_def digit_val_def find_Some_iff split: option.splits) (metis nth_mem)
  ultimately have "\<not> (55296 \<le> c \<and> c \<le> 57343)" unfolding list_all_iff by fastforce
  then show ?thesis by (auto simp: utf8_char_def)
qed

lemma digits_utf8: "list_all is_digit pin \<Longrightarrow> \<exists>bs. utf8 pin = Inr bs"
proof -
  assume "list_all is_digit pin"
  then have "\<exists>bss. map_res utf8_char pin = Inr bss"
  proof (induction pin)
    case Nil
    then show ?case by simp
  next
    case (Cons c pin)
    then obtain b bss where "utf8_char c = Inr b" "map_res utf8_char pin = Inr bss"
      using digit_utf8[of c] by auto
    then show ?case by simp
  qed
  then show ?thesis by (auto simp: utf8_def)
qed

text \<open>
  Verification after hashing: a text verifies against the stored pair exactly when the key
  derivation gives it the same key.
\<close>

lemma verify_hash_pin:
  assumes "hash_pin pbkdf2 salt pin = Inr (h, s)" and "utf8 pin = Inr pw" and "utf8 pin' = Inr pw'"
  shows "verify_pin pbkdf2 pin' h s = Inr (pbkdf2 pw' salt 260000 = pbkdf2 pw salt 260000)"
  using assms by (auto simp: hash_pin_def verify_pin_def from_hex_to_hex compare_hex)

end
