(* ===== verification/Reg_Schemas.thy ===== *)
theory Reg_Schemas
  imports Validators
begin

text \<open>
  The request models of the registration wizard: the enumerations of
  \<open>app/domains/registration/models.py\<close> and the validation of
  \<open>app/domains/registration/schemas.py\<close>. A record is the request after pydantic has parsed its
  field types; \<open>validate_...\<close> runs the field validators and then the model validators, and
  yields the model (with the values the validators return) or a ValidationError.
\<close>

section \<open>Enumerations\<close>

datatype account_creation_type = SELF | WITH_HELPER | POA | PARENT

datatype link_status = LINKED | UNLINKED | PENDING

datatype phone_type = HOME | CELL | WORK | MESSAGE

datatype gender = MALE | FEMALE | UNKNOWN

datatype registration_step = ACCOUNT_TYPE | PERSONAL_INFO | EMAIL_VERIFY | PIN_CREATION | BCEID_LINK | COMPLETE

text \<open>The values of \<open>RegistrationStep(int, Enum)\<close>, which order the steps.\<close>

fun step_value :: "registration_step \<Rightarrow> int" where
  "step_value ACCOUNT_TYPE = 1"
| "step_value PERSONAL_INFO = 2"
| "step_value EMAIL_VERIFY = 3"
| "step_value PIN_CREATION = 4"
| "step_value BCEID_LINK = 5"
| "step_value COMPLETE = 6"

instantiation registration_step :: linorder
begin

definition less_eq_registration_step :: "registration_step \<Rightarrow> registration_step \<Rightarrow> bool" where
  "less_eq_registration_step a b \<longleftrightarrow> step_value a \<le> step_value b"

definition less_registration_step :: "registration_step \<Rightarrow> registration_step \<Rightarrow> bool" where
  "less_registration_step a b \<longleftrightarrow> step_value a < step_value b"

instance
proof
  fix x y :: registration_step
  show "x \<le> y \<Longrightarrow> y \<le> x \<Longrightarrow> x = y"
    by (cases x; cases y) (simp_all add: less_eq_registration_step_def)
qed (auto simp: less_eq_registration_step_def less_registration_step_def)

end

section \<open>Requests\<close>

record spouse_info =
  sp_first_name :: ustr
  sp_middle_name :: "ustr option"
  sp_last_name :: ustr
  sp_sin :: ustr
  sp_phn :: "ustr option"
  sp_date_of_birth :: date
  sp_gender :: gender

record open_case =
  last_assistance_payment_amount :: "ustr option"
  has_drivers_licence :: bool
  drivers_licence_expiry :: "date option"
  has_previous_address :: bool
  previous_address :: "ustr option"
  paying_service_providers :: bool
  service_providers_description :: "ustr option"
  payment_method :: "ustr option"

record personal_info =
  first_name :: ustr
  middle_name :: "ustr option"
  last_name :: ustr
  email :: ustr
  email_confirm :: ustr
  sin :: ustr
  phn :: "ustr option"
  date_of_birth :: date
  gender :: gender
  phone_number :: ustr
  phone_type :: phone_type
  has_open_case :: bool
  open_case_identification :: "open_case option"
  spouse :: "spouse_info option"

record pin_request =
  pin :: ustr
  pin_confirm :: ustr

record bceid_link_request =
  bceid_guid :: string
  bceid_username :: string
  program_type :: string

definition bceid_link_defaults :: "string \<Rightarrow> string \<Rightarrow> bceid_link_request" where
  "bceid_link_defaults guid name = \<lparr>bceid_guid = guid, bceid_username = name, program_type = ''EA''\<rparr>"

section \<open>Validation\<close>

text \<open>
  Pydantic turns a ValueError of a validator into its ValidationError, after having tried every
  field; only that one exists matters to the caller.
\<close>

definition checked :: "'a res \<Rightarrow> 'a res" where
  "checked r = (case r of Inr x \<Rightarrow> Inr x | Inl e \<Rightarrow> Inl (if is_value_error e then ValidationExn else e))"

text \<open>\<open>return validate_phn(v) or None\<close>, with \<open>None\<close> passed through.\<close>

definition validate_phn_field :: "ustr option \<Rightarrow> ustr option res" where
  "validate_phn_field v =
     (case v of None \<Rightarrow> Inr None
      | Some p \<Rightarrow> bind_res (validate_phn p) (\<lambda>d. Inr (if d = [] then None else Some d)))"

definition validate_middle_name :: "ustr option \<Rightarrow> ustr option res" where
  "validate_middle_name v =
     (case v of None \<Rightarrow> Inr None
      | Some m \<Rightarrow> if strip m = [] then Inr None else bind_res (validate_name m) (\<lambda>n. Inr (Some n)))"

definition validate_spouse :: "date \<Rightarrow> spouse_info \<Rightarrow> spouse_info res" where
  "validate_spouse today r = checked (
     bind_res (validate_name (sp_first_name r)) (\<lambda>fn.
     bind_res (validate_name (sp_last_name r)) (\<lambda>ln.
     bind_res (validate_sin (sp_sin r)) (\<lambda>sn.
     bind_res (validate_phn_field (sp_phn r)) (\<lambda>ph.
     bind_res (validate_age today (sp_date_of_birth r)) (\<lambda>dob.
     Inr (r\<lparr>sp_first_name := fn, sp_last_name := ln, sp_sin := sn, sp_phn := ph, sp_date_of_birth := dob\<rparr>)))))))"

definition email_must_match :: "personal_info \<Rightarrow> personal_info res" where
  "email_must_match r =
     (if email r \<noteq> email_confirm r then Inl (ValueExn ''email and email_confirm must match'') else Inr r)"

text \<open>A model instance is truthy; an absent or empty amount is falsy.\<close>

definition open_case_payment_mandatory :: "personal_info \<Rightarrow> personal_info res" where
  "open_case_payment_mandatory r =
     (case open_case_identification r of
        Some oc \<Rightarrow>
          (if has_open_case r then
             (case last_assistance_payment_amount oc of
                None \<Rightarrow> Inl (ValueExn ''last_assistance_payment_amount is required when has_open_case is True'')
              | Some a \<Rightarrow>
                  if a = [] then Inl (ValueExn ''last_assistance_payment_amount is required when has_open_case is True'')
                  else Inr r)
           else Inr r)
      | None \<Rightarrow> Inr r)"

definition validate_personal :: "date \<Rightarrow> personal_info \<Rightarrow> personal_info res" where
  "validate_personal today r = checked (
     bind_res (validate_name (first_name r)) (\<lambda>fn.
     bind_res (validate_name (last_name r)) (\<lambda>ln.
     bind_res (validate_middle_name (middle_name r)) (\<lambda>mn.
     bind_res (validate_sin (sin r)) (\<lambda>sn.
     bind_res (validate_phn_field (phn r)) (\<lambda>ph.
     bind_res (validate_age today (date_of_birth r)) (\<lambda>dob.
     bind_res (case spouse r of None \<Rightarrow> Inr None | Some s \<Rightarrow> bind_res (validate_spouse today s) (\<lambda>s'. Inr (Some s'))) (\<lambda>sp.
     bind_res (email_must_match
       (r\<lparr>first_name := fn, middle_name := mn, last_name := ln, sin := sn, phn := ph, date_of_birth := dob,
          spouse := sp\<rparr>)) (\<lambda>r1.
     open_case_payment_mandatory r1)))))))))"

definition pins_must_match :: "pin_request \<Rightarrow> pin_request res" where
  "pins_must_match r =
     (if pin r \<noteq> pin_confirm r then Inl (ValueExn ''PIN and PIN confirmation do not match'') else Inr r)"

definition validate_pin_request :: "pin_request \<Rightarrow> pin_request res" where
  "validate_pin_request r = checked (
     bind_res (validate_pin (pin r)) (\<lambda>p.
     bind_res (validate_pin (pin_confirm r)) (\<lambda>c.
     pins_must_match (r\<lparr>pin := p, pin_confirm := c\<rparr>))))"

lemma checked_Inr [simp]: "checked r = Inr x \<longleftrightarrow> r = Inr x"
  by (cases r) (auto simp: checked_def)

section \<open>What a validated request guarantees\<close>

text \<open>\<open>model_dump(exclude={"email_confirm", "spouse"}, exclude_none=True)\<close>: what is stored.\<close>

record registrant =
  rg_first_name :: ustr
  rg_middle_name :: "ustr option"
  rg_last_name :: ustr
  rg_email :: ustr
  rg_sin :: ustr
  rg_phn :: "ustr option"
  rg_date_of_birth :: date
  rg_gender :: gender
  rg_phone_number :: ustr
  rg_phone_type :: phone_type
  rg_has_open_case :: bool
  rg_open_case :: "open_case option"

definition dump_registrant :: "personal_info \<Rightarrow> registrant" where
  "dump_registrant r =
     \<lparr>rg_first_name = first_name r, rg_middle_name = middle_name r, rg_last_name = last_name r,
      rg_email = email r, rg_sin = sin r, rg_phn = phn r, rg_date_of_birth = date_of_birth r,
      rg_gender = gender r, rg_phone_number = phone_number r, rg_phone_type = phone_type r,
      rg_has_open_case = has_open_case r, rg_open_case = open_case_identification r\<rparr>"

definition valid_name :: "ustr \<Rightarrow> bool" where
  "valid_name n \<longleftrightarrow> is_ok (validate_name n)"

definition valid_sin :: "ustr \<Rightarrow> bool" where
  "valid_sin s \<longleftrightarrow> length s = 9 \<and> list_all is_digit s \<and> check_sum luhn_term s mod 10 = 0"

definition valid_phn :: "ustr option \<Rightarrow> bool" where
  "valid_phn p \<longleftrightarrow>
     (case p of None \<Rightarrow> True
      | Some d \<Rightarrow> length d = 10 \<and> list_all is_digit d \<and> check_sum phn_term d mod 11 = 0)"

definition of_age :: "date \<Rightarrow> date \<Rightarrow> bool" where
  "of_age today dob \<longleftrightarrow> Date (year dob + 16) (month dob) (day dob) \<le> today"

definition valid_registrant :: "date \<Rightarrow> registrant \<Rightarrow> bool" where
  "valid_registrant today r \<longleftrightarrow>
     valid_name (rg_first_name r) \<and> valid_name (rg_last_name r) \<and>
     (case rg_middle_name r of None \<Rightarrow> True | Some m \<Rightarrow> valid_name m) \<and>
     valid_sin (rg_sin r) \<and> valid_phn (rg_phn r) \<and> of_age today (rg_date_of_birth r)"

definition valid_spouse :: "date \<Rightarrow> spouse_info \<Rightarrow> bool" where
  "valid_spouse today s \<longleftrightarrow>
     valid_name (sp_first_name s) \<and> valid_name (sp_last_name s) \<and>
     valid_sin (sp_sin s) \<and> valid_phn (sp_phn s) \<and> of_age today (sp_date_of_birth s)"

lemma validate_name_valid: "validate_name n = Inr m \<Longrightarrow> m = n \<and> valid_name n"
  by (auto simp: valid_name_def validate_name_def split: if_splits)

lemma validate_sin_valid: "validate_sin s = Inr t \<Longrightarrow> valid_sin t"
  using validate_sin_parts unfolding valid_sin_def by blast

lemma validate_phn_valid: "validate_phn_field v = Inr p \<Longrightarrow> valid_phn p"
  using validate_phn_parts
  by (auto simp: validate_phn_field_def valid_phn_def split: option.splits if_splits)

lemma validate_age_valid: "validate_age today dob = Inr d \<Longrightarrow> d = dob \<and> of_age today dob"
  by (cases today; cases dob) (auto simp: validate_age_def age_on_def of_age_def split: if_splits)

lemmas field_valid = validate_name_valid validate_sin_valid validate_phn_valid validate_age_valid

lemma validate_spouse_valid: "validate_spouse today s = Inr t \<Longrightarrow> valid_spouse today t"
  by (auto simp: validate_spouse_def valid_spouse_def dest!: field_valid)

lemma email_must_match_iff: "email_must_match r = Inr r1 \<longleftrightarrow> r1 = r \<and> email r = email_confirm r"
  by (auto simp: email_must_match_def)

lemma open_case_same: "open_case_payment_mandatory r = Inr r1 \<Longrightarrow> r1 = r"
  by (auto simp: open_case_payment_mandatory_def split: option.splits if_splits)

lemma validate_middle_valid:
  "validate_middle_name v = Inr m \<Longrightarrow> (case m of None \<Rightarrow> True | Some n \<Rightarrow> valid_name n)"
  by (auto simp: validate_middle_name_def split: option.splits if_splits dest!: field_valid)

lemma validate_personal_valid:
  assumes "validate_personal today r = Inr p"
  shows "valid_registrant today (dump_registrant p) \<and> email p = email_confirm p \<and>
    (case spouse p of None \<Rightarrow> True | Some s \<Rightarrow> valid_spouse today s)"
proof -
  from assms obtain fn ln mn sn ph dob sp where
    v: "validate_name (first_name r) = Inr fn" "validate_name (last_name r) = Inr ln"
      "validate_middle_name (middle_name r) = Inr mn" "validate_sin (sin r) = Inr sn"
      "validate_phn_field (phn r) = Inr ph" "validate_age today (date_of_birth r) = Inr dob"
    and sp: "(case spouse r of None \<Rightarrow> Inr None | Some s \<Rightarrow> bind_res (validate_spouse today s) (\<lambda>s'. Inr (Some s'))) = Inr sp"
    and p: "email r = email_confirm r"
      "p = r\<lparr>first_name := fn, middle_name := mn, last_name := ln, sin := sn, phn := ph, date_of_birth := dob,
          spouse := sp\<rparr>"
    by (auto simp: validate_personal_def email_must_match_iff dest!: open_case_same)
  have "case sp of None \<Rightarrow> True | Some s \<Rightarrow> valid_spouse today s"
    using sp validate_spouse_valid by (auto split: option.splits)
  then show ?thesis
    using v p validate_middle_valid[OF v(3)]
    by (auto simp: valid_registrant_def dump_registrant_def dest!: field_valid)
qed

lemma validate_pin_request_iff:
  "validate_pin_request r = Inr q \<longleftrightarrow> q = r \<and> pin r = pin_confirm r \<and> length (pin r) = 4 \<and> list_all is_digit (pin r)"
  by (auto simp: validate_pin_request_def validate_pin_iff pins_must_match_def)

section \<open>What validation leaves open\<close>

text \<open>
  The mandatory payment amount of an applicant with an open case can be left out: whatever valid
  request declares an open case and sends no case identification at all is accepted as well. And
  a spouse's middle name is not validated: any text is accepted for it.
\<close>

theorem open_case_and_middle_name_unchecked:
  assumes "validate_personal today r = Inr p" and "validate_spouse today sp0 = Inr sp1"
  shows "validate_personal today (r\<lparr>has_open_case := True, open_case_identification := None\<rparr>) =
      Inr (p\<lparr>has_open_case := True, open_case_identification := None\<rparr>) \<and>
    validate_spouse today (sp0\<lparr>sp_middle_name := m\<rparr>) = Inr (sp1\<lparr>sp_middle_name := m\<rparr>)"
proof -
  from assms(1) obtain fn ln mn sn ph dob sp where
    "validate_name (first_name r) = Inr fn" "validate_name (last_name r) = Inr ln"
    "validate_middle_name (middle_name r) = Inr mn" "validate_sin (sin r) = Inr sn"
    "validate_phn_field (phn r) = Inr ph" "validate_age today (date_of_birth r) = Inr dob"
    "(case spouse r of None \<Rightarrow> Inr None | Some s \<Rightarrow> bind_res (validate_spouse today s) (\<lambda>s'. Inr (Some s'))) = Inr sp"
    and p: "email r = email_confirm r"
      "p = r\<lparr>first_name := fn, middle_name := mn, last_name := ln, sin := sn, phn := ph, date_of_birth := dob,
          spouse := sp\<rparr>"
    by (auto simp: validate_personal_def email_must_match_iff dest!: open_case_same)
  then have "validate_personal today (r\<lparr>has_open_case := True, open_case_identification := None\<rparr>) =
      Inr (p\<lparr>has_open_case := True, open_case_identification := None\<rparr>)"
    by (simp add: validate_personal_def email_must_match_def open_case_payment_mandatory_def)
  moreover have "validate_spouse today (sp0\<lparr>sp_middle_name := m\<rparr>) = Inr (sp1\<lparr>sp_middle_name := m\<rparr>)"
    using assms(2) by (auto simp: validate_spouse_def)
  ultimately show ?thesis by simp
qed

definition sample_spouse :: spouse_info where
  "sample_spouse =
     \<lparr>sp_first_name = ascii ''Ann'', sp_middle_name = None, sp_last_name = ascii ''Lee'',
      sp_sin = ascii ''046454286'', sp_phn = None, sp_date_of_birth = Date 1990 1 1, sp_gender = FEMALE\<rparr>"

definition sample_personal :: personal_info where
  "sample_personal =
     \<lparr>first_name = ascii ''Ann'', middle_name = None, last_name = ascii ''Lee'', email = ascii ''a@b'',
      email_confirm = ascii ''a@b'', sin = ascii ''046454286'', phn = None, date_of_birth = Date 1990 1 1,
      gender = FEMALE, phone_number = ascii ''2505550100'', phone_type = CELL, has_open_case = False,
      open_case_identification = None, spouse = None\<rparr>"

lemma sample_fields:
  "validate_name (ascii ''Ann'') = Inr (ascii ''Ann'')" "validate_name (ascii ''Lee'') = Inr (ascii ''Lee'')"
  "validate_sin (ascii ''046454286'') = Inr (ascii ''046454286'')"
  "validate_age (Date 2026 1 1) (Date 1990 1 1) = Inr (Date 1990 1 1)"
  by (simp_all add: eval_text validate_age_def age_on_def)

lemma sample_spouse_valid: "validate_spouse (Date 2026 1 1) sample_spouse = Inr sample_spouse"
  by (simp add: validate_spouse_def sample_spouse_def validate_phn_field_def sample_fields)

lemma sample_personal_valid: "validate_personal (Date 2026 1 1) sample_personal = Inr sample_personal"
  by (simp add: validate_personal_def sample_personal_def validate_middle_name_def validate_phn_field_def
      email_must_match_def open_case_payment_mandatory_def sample_fields)

theorem open_case_and_middle_name_unchecked_witness:
  "validate_personal (Date 2026 1 1) (sample_personal\<lparr>has_open_case := True, open_case_identification := None\<rparr>) =
      Inr (sample_personal\<lparr>has_open_case := True, open_case_identification := None\<rparr>) \<and>
    validate_spouse (Date 2026 1 1) (sample_spouse\<lparr>sp_middle_name := Some (ascii ''123'')\<rparr>) =
      Inr (sample_spouse\<lparr>sp_middle_name := Some (ascii ''123'')\<rparr>)"
  by (rule open_case_and_middle_name_unchecked[OF sample_personal_valid sample_spouse_valid])

end
