(* ===== verification/Registration.thy ===== *)
theory Registration
  imports Pin_Hash Reg_Schemas Icm_Errors Machines
begin

text \<open>
  The registration wizard: \<open>RegistrationService\<close> of \<open>app/domains/registration/service.py\<close> over
  the table \<open>registration_sessions\<close>, and the routes of \<open>app/routers/registration.py\<close>.
  \<^item> The table is a list of rows; an UPDATE is \<open>update_where\<close> with its row count, and the unique
    constraints of the table (token, invite token) raise SQLAlchemy's IntegrityError.
  \<^item> The clock (of the process and of the database, \<open>NOW()\<close>), \<open>uuid4\<close> and \<open>os.urandom\<close> are
    streams of readings, of which nothing is assumed.
  \<^item> \<open>rstep\<close>: the machine of the routes and of the background task that issues invite tokens
    after a response, in any order.
\<close>

section \<open>State\<close>

record reg_row =
  r_token :: string
  r_act :: account_creation_type
  r_step :: int
  r_registrant :: "registrant option"
  r_spouse :: "spouse_info option"
  r_invite :: "string option"
  r_invite_used :: bool
  r_pin_hash :: "string option"
  r_pin_salt :: "string option"
  r_user_id :: "int option"
  r_expires :: instant

record reg_state =
  sessions :: "reg_row list"
  background :: "string list"
  r_clock :: "nat \<Rightarrow> instant"
  r_ticks :: nat
  r_uuids :: "nat \<Rightarrow> string"
  r_uuid_ix :: nat
  r_random :: "nat \<Rightarrow> byte list"
  r_random_ix :: nat

definition INVITE_TOKEN_TTL_HOURS :: int where "INVITE_TOKEN_TTL_HOURS = 72"
definition SESSION_TTL_HOURS :: int where "SESSION_TTL_HOURS = 168"

definition r_now :: "(reg_state, instant) io" where
  "r_now s = (Inr (r_clock s (r_ticks s)), s\<lparr>r_ticks := Suc (r_ticks s)\<rparr>)"

definition generate_token :: "(reg_state, string) io" where
  "generate_token s = (Inr (r_uuids s (r_uuid_ix s)), s\<lparr>r_uuid_ix := Suc (r_uuid_ix s)\<rparr>)"

definition urandom :: "(reg_state, byte list) io" where
  "urandom s = (Inr (r_random s (r_random_ix s)), s\<lparr>r_random_ix := Suc (r_random_ix s)\<rparr>)"

lemma bind_r_now [simp]: "bind r_now f s = f (r_clock s (r_ticks s)) (s\<lparr>r_ticks := Suc (r_ticks s)\<rparr>)"
  by (simp add: bind_def r_now_def)

lemma bind_generate_token [simp]:
  "bind generate_token f s = f (r_uuids s (r_uuid_ix s)) (s\<lparr>r_uuid_ix := Suc (r_uuid_ix s)\<rparr>)"
  by (simp add: bind_def generate_token_def)

lemma bind_urandom [simp]:
  "bind urandom f s = f (r_random s (r_random_ix s)) (s\<lparr>r_random_ix := Suc (r_random_ix s)\<rparr>)"
  by (simp add: bind_def urandom_def)

text \<open>The unique constraints: tokens, and invite tokens that are not NULL.\<close>

definition invites :: "reg_row list \<Rightarrow> string list" where
  "invites rows = map the (filter (\<lambda>i. i \<noteq> None) (map r_invite rows))"

definition rows_unique :: "reg_row list \<Rightarrow> bool" where
  "rows_unique rows \<longleftrightarrow> distinct (map r_token rows) \<and> distinct (invites rows)"

definition insert_row :: "reg_row \<Rightarrow> (reg_state, unit) io" where
  "insert_row r s =
     (if rows_unique (sessions s @ [r]) then (Inr (), s\<lparr>sessions := sessions s @ [r]\<rparr>)
      else (Inl SQLAlchemyExn, s))"

text \<open>An UPDATE; the value is the row count. \<open>require_row\<close> is the check on it.\<close>

definition update_rows :: "(reg_row \<Rightarrow> bool) \<Rightarrow> (reg_row \<Rightarrow> reg_row) \<Rightarrow> (reg_state, nat) io" where
  "update_rows P f s =
     (let rows = update_where P f (sessions s) in
      if rows_unique rows then (Inr (row_count P (sessions s)), s\<lparr>sessions := rows\<rparr>)
      else (Inl SQLAlchemyExn, s))"

definition require_row :: "string \<Rightarrow> nat \<Rightarrow> (reg_state, unit) io" where
  "require_row token n =
     (if n = 0 then raise (ValueExn (''Registration session not found: '' @ token)) else ret ())"

definition has_token :: "string \<Rightarrow> reg_row \<Rightarrow> bool" where
  "has_token t r \<longleftrightarrow> r_token r = t"

section \<open>The service\<close>

definition start_registration :: "account_creation_type \<Rightarrow> (reg_state, string) io" where
  "start_registration act =
     bind generate_token (\<lambda>token.
     bind r_now (\<lambda>now.
     bind (insert_row \<lparr>r_token = token, r_act = act, r_step = 1, r_registrant = None, r_spouse = None,
        r_invite = None, r_invite_used = False, r_pin_hash = None, r_pin_salt = None, r_user_id = None,
        r_expires = now + seconds (SESSION_TTL_HOURS * 3600)\<rparr>) (\<lambda>_.
     ret token)))"

definition get_session_by_token :: "string \<Rightarrow> (reg_state, reg_row option) io" where
  "get_session_by_token token =
     bind r_now (\<lambda>now. reads (\<lambda>s. List.find (\<lambda>r. has_token token r \<and> now < r_expires r) (sessions s)))"

definition advance_step :: "string \<Rightarrow> int \<Rightarrow> (reg_state, unit) io" where
  "advance_step token to_step =
     bind (update_rows (has_token token) (\<lambda>r. r\<lparr>r_step := max (r_step r) to_step\<rparr>)) (require_row token)"

definition save_registrant_data :: "string \<Rightarrow> registrant \<Rightarrow> spouse_info option \<Rightarrow> (reg_state, unit) io" where
  "save_registrant_data token rd sd =
     bind (update_rows (has_token token)
       (\<lambda>r. r\<lparr>r_registrant := Some rd, r_spouse := sd, r_step := max (r_step r) 2\<rparr>)) (require_row token)"

definition issue_invite_token :: "string \<Rightarrow> (reg_state, string) io" where
  "issue_invite_token token =
     bind generate_token (\<lambda>invite.
     bind (bind (update_rows (has_token token)
       (\<lambda>r. r\<lparr>r_invite := Some invite, r_invite_used := False, r_step := max (r_step r) 3\<rparr>))
       (require_row token)) (\<lambda>_. ret invite))"

text \<open>\<open>UPDATE ... WHERE ... RETURNING token\<close>.\<close>

definition invite_open :: "string \<Rightarrow> instant \<Rightarrow> reg_row \<Rightarrow> bool" where
  "invite_open invite now r \<longleftrightarrow> r_invite r = Some invite \<and> \<not> r_invite_used r \<and> now < r_expires r"

definition consume_invite_token :: "string \<Rightarrow> (reg_state, string option) io" where
  "consume_invite_token invite =
     bind r_now (\<lambda>now.
     bind (reads (\<lambda>s. List.find (invite_open invite now) (sessions s))) (\<lambda>row.
     bind (update_rows (invite_open invite now)
       (\<lambda>r. r\<lparr>r_invite_used := True, r_step := max (r_step r) 4\<rparr>)) (\<lambda>_.
     ret (map_option r_token row))))"

definition save_pin :: "kdf \<Rightarrow> string \<Rightarrow> ustr \<Rightarrow> (reg_state, unit) io" where
  "save_pin kdf token p =
     bind urandom (\<lambda>salt.
     bind (lift_res (hash_pin kdf salt p)) (\<lambda>hs.
     bind (update_rows (has_token token)
       (\<lambda>r. r\<lparr>r_pin_hash := Some (fst hs), r_pin_salt := Some (snd hs), r_step := max (r_step r) 5\<rparr>))
       (require_row token)))"

definition complete_registration :: "string \<Rightarrow> int \<Rightarrow> (reg_state, unit) io" where
  "complete_registration token user_id =
     bind (update_rows (has_token token) (\<lambda>r. r\<lparr>r_user_id := Some user_id, r_step := 6\<rparr>)) (require_row token)"

section \<open>The routes\<close>

definition require_session :: "string \<Rightarrow> (reg_state, reg_row) io" where
  "require_session token =
     bind (get_session_by_token token) (\<lambda>st.
     case st of None \<Rightarrow> raise (HTTPExn 404 ''Registration session not found or expired'') | Some r \<Rightarrow> ret r)"

text \<open>A request body that does not validate is answered 422 by the framework.\<close>

definition parse_body :: "'a res \<Rightarrow> (reg_state, 'a) io" where
  "parse_body r = (case r of Inr x \<Rightarrow> ret x | Inl _ \<Rightarrow> raise (HTTPExn 422 ''Unprocessable Entity''))"

datatype reg_reply =
    StartReply string
  | StepState string int account_creation_type
  | NextStep nat
  | Redirect string
  | LinkPending
  | Issued

definition start_route :: "account_creation_type \<Rightarrow> (reg_state, reg_reply) io" where
  "start_route act = bind (start_registration act) (\<lambda>t. ret (StartReply t))"

definition verify_email :: "string \<Rightarrow> (reg_state, reg_reply) io" where
  "verify_email invite =
     bind (consume_invite_token invite) (\<lambda>t.
     case t of
       None \<Rightarrow> raise (HTTPExn 410 ''This verification link has expired or has already been used'')
     | Some tok \<Rightarrow> ret (Redirect (''/registration/'' @ tok @ ''/pin'')))"

definition get_step_state :: "string \<Rightarrow> int \<Rightarrow> (reg_state, reg_reply) io" where
  "get_step_state token step_number =
     bind (require_session token) (\<lambda>st. ret (StepState (r_token st) (r_step st) (r_act st)))"

text \<open>The background task is queued for after the response.\<close>

definition save_personal_info :: "string \<Rightarrow> date \<Rightarrow> personal_info \<Rightarrow> (reg_state, reg_reply) io" where
  "save_personal_info token today data =
     bind (require_session token) (\<lambda>st.
     bind (parse_body (validate_personal today data)) (\<lambda>d.
     if r_step st < 1 then raise (HTTPExn 409 ''Previous steps must be completed first'')
     else
       bind (save_registrant_data (r_token st) (dump_registrant d) (spouse d)) (\<lambda>_.
       bind (modify (\<lambda>s. s\<lparr>background := background s @ [r_token st]\<rparr>)) (\<lambda>_.
       ret (NextStep 3)))))"

definition save_pin_route :: "kdf \<Rightarrow> string \<Rightarrow> pin_request \<Rightarrow> (reg_state, reg_reply) io" where
  "save_pin_route kdf token req =
     bind (require_session token) (\<lambda>st.
     bind (parse_body (validate_pin_request req)) (\<lambda>b.
     if r_step st < 4 then raise (HTTPExn 409 ''Email verification must be completed first'')
     else bind (save_pin kdf (r_token st) (pin b)) (\<lambda>_. ret (NextStep 5))))"

definition link_bceid :: "string \<Rightarrow> (reg_state, reg_reply) io" where
  "link_bceid token =
     bind (require_session token) (\<lambda>st.
     if r_step st < 5 then raise (HTTPExn 409 ''Previous steps must be completed first'')
     else ret LinkPending)"

datatype reg_event =
    Start account_creation_type
  | Personal string date personal_info
  | Background string
  | Verify string
  | StepGet string int
  | SetPin string pin_request
  | Link string

definition run_background :: "string \<Rightarrow> (reg_state, reg_reply) io" where
  "run_background token =
     bind (reads background) (\<lambda>b.
     if token \<in> set b then
       bind (modify (\<lambda>s. s\<lparr>background := remove1 token (background s)\<rparr>)) (\<lambda>_.
       bind (issue_invite_token token) (\<lambda>_. ret Issued))
     else ret Issued)"

fun reg_handle :: "kdf \<Rightarrow> reg_event \<Rightarrow> (reg_state, reg_reply) io" where
  "reg_handle kdf (Start act) = start_route act"
| "reg_handle kdf (Personal t today d) = save_personal_info t today d"
| "reg_handle kdf (Background t) = run_background t"
| "reg_handle kdf (Verify i) = verify_email i"
| "reg_handle kdf (StepGet t n) = get_step_state t n"
| "reg_handle kdf (SetPin t p) = save_pin_route kdf t p"
| "reg_handle kdf (Link t) = link_bceid t"

inductive rstep :: "kdf \<Rightarrow> reg_state \<Rightarrow> reg_event \<Rightarrow> reg_state \<Rightarrow> bool" for kdf where
  rstep: "reg_handle kdf e s = (r, t) \<Longrightarrow> rstep kdf s e t"

inductive_simps rstep_iff: "rstep kdf s e t"

section \<open>What a step does to the table\<close>

definition new_row :: "string \<Rightarrow> account_creation_type \<Rightarrow> instant \<Rightarrow> reg_row" where
  "new_row token act now =
     \<lparr>r_token = token, r_act = act, r_step = 1, r_registrant = None, r_spouse = None,
      r_invite = None, r_invite_used = False, r_pin_hash = None, r_pin_salt = None, r_user_id = None,
      r_expires = now + seconds (SESSION_TTL_HOURS * 3600)\<rparr>"

definition with_registrant :: "personal_info \<Rightarrow> reg_row \<Rightarrow> reg_row" where
  "with_registrant p r =
     r\<lparr>r_registrant := Some (dump_registrant p), r_spouse := spouse p, r_step := max (r_step r) 2\<rparr>"

definition with_invite :: "string \<Rightarrow> reg_row \<Rightarrow> reg_row" where
  "with_invite i r = r\<lparr>r_invite := Some i, r_invite_used := False, r_step := max (r_step r) 3\<rparr>"

definition with_used :: "reg_row \<Rightarrow> reg_row" where
  "with_used r = r\<lparr>r_invite_used := True, r_step := max (r_step r) 4\<rparr>"

definition with_pin :: "string \<Rightarrow> string \<Rightarrow> reg_row \<Rightarrow> reg_row" where
  "with_pin h sl r = r\<lparr>r_pin_hash := Some h, r_pin_salt := Some sl, r_step := max (r_step r) 5\<rparr>"

lemmas row_ops = new_row_def with_registrant_def with_invite_def with_used_def with_pin_def

text \<open>
  The five writes of the wizard with the conditions under which they happen; every other step
  leaves the table as it is. The relation forgets responses, clocks and random bytes.
\<close>

inductive effect :: "kdf \<Rightarrow> reg_state \<Rightarrow> reg_event \<Rightarrow> reg_state \<Rightarrow> bool" for kdf s where
  quiet: "sessions t = sessions s \<Longrightarrow> set (background t) \<subseteq> set (background s) \<Longrightarrow> effect kdf s e t"
| started: "sessions t = sessions s @ [new_row tok act now] \<Longrightarrow> rows_unique (sessions t) \<Longrightarrow>
    background t = background s \<Longrightarrow> effect kdf s (Start act) t"
| saved: "validate_personal today d = Inr p \<Longrightarrow> \<exists>r \<in> set (sessions s). has_token tok r \<Longrightarrow>
    sessions t = update_where (has_token tok) (with_registrant p) (sessions s) \<Longrightarrow>
    background t = background s @ [tok] \<Longrightarrow> effect kdf s (Personal tok today d) t"
| issued: "tok \<in> set (background s) \<Longrightarrow> i = r_uuids s (r_uuid_ix s) \<Longrightarrow> r_uuid_ix t = Suc (r_uuid_ix s) \<Longrightarrow>
    sessions t = update_where (has_token tok) (with_invite i) (sessions s) \<Longrightarrow> rows_unique (sessions t) \<Longrightarrow>
    background t = remove1 tok (background s) \<Longrightarrow> effect kdf s (Background tok) t"
| verified: "sessions t = update_where (invite_open i now) with_used (sessions s) \<Longrightarrow>
    background t = background s \<Longrightarrow> effect kdf s (Verify i) t"
| pinned: "List.find (\<lambda>r. has_token tok r \<and> now < r_expires r) (sessions s) = Some row \<Longrightarrow>
    4 \<le> r_step row \<Longrightarrow> validate_pin_request req = Inr req \<Longrightarrow> hash_pin kdf salt (pin req) = Inr (h, sl) \<Longrightarrow>
    sessions t = update_where (has_token tok) (with_pin h sl) (sessions s) \<Longrightarrow>
    background t = background s \<Longrightarrow> effect kdf s (SetPin tok req) t"

lemma quietI: "sessions t = sessions s \<Longrightarrow> background t = background s \<Longrightarrow> effect kdf s e t"
  by (rule quiet) auto

lemma find_has_token: "List.find (\<lambda>r. has_token tok r \<and> P r) rows = Some r \<Longrightarrow> r_token r = tok \<and> r \<in> set rows \<and> P r"
  by (auto simp: find_Some_iff has_token_def)

lemma require_session_cases:
  "(\<exists>e t. require_session tok s = (Inl e, t) \<and> sessions t = sessions s \<and> background t = background s) \<or>
   (\<exists>row t. require_session tok s = (Inr row, t) \<and> t = s\<lparr>r_ticks := Suc (r_ticks s)\<rparr> \<and>
     List.find (\<lambda>r. has_token tok r \<and> r_clock s (r_ticks s) < r_expires r) (sessions s) = Some row)"
  by (simp add: require_session_def get_session_by_token_def bind_assoc
      split: option.split)

lemma update_rows_eq:
  "update_rows P f s =
     (if rows_unique (update_where P f (sessions s))
      then (Inr (row_count P (sessions s)), s\<lparr>sessions := update_where P f (sessions s)\<rparr>)
      else (Inl SQLAlchemyExn, s))"
  by (simp add: update_rows_def Let_def)

text \<open>An UPDATE followed by its row check.\<close>

lemma checked_update:
  "bind (update_rows P f) (require_row tok) s =
     (if \<not> rows_unique (update_where P f (sessions s)) then (Inl SQLAlchemyExn, s)
      else if row_count P (sessions s) = 0 then (Inl (ValueExn (''Registration session not found: '' @ tok)), s)
      else (Inr (), s\<lparr>sessions := update_where P f (sessions s)\<rparr>))"
  by (simp add: bind_def update_rows_eq require_row_def update_where_none)

lemma checked_update_then:
  "bind (update_rows P f) (\<lambda>n. bind (require_row tok n) g) s =
     (if \<not> rows_unique (update_where P f (sessions s)) then (Inl SQLAlchemyExn, s)
      else if row_count P (sessions s) = 0 then (Inl (ValueExn (''Registration session not found: '' @ tok)), s)
      else g () (s\<lparr>sessions := update_where P f (sessions s)\<rparr>))"
  by (simp add: bind_def update_rows_eq require_row_def update_where_none)

lemma effect_start: "start_route act s = (r, t) \<Longrightarrow> effect kdf s (Start act) t"
  by (auto simp: start_route_def start_registration_def insert_row_def bind_def generate_token_def r_now_def
      new_row_def[symmetric] split: if_splits intro: quietI started)

lemma effect_verify:
  assumes "verify_email i s = (r, t)"
  shows "effect kdf s (Verify i) t"
proof -
  have "sessions t = sessions s \<and> background t = background s \<or>
      sessions t = update_where (invite_open i (r_clock s (r_ticks s))) with_used (sessions s) \<and>
      background t = background s"
    using assms unfolding with_used_def[abs_def]
    by (auto simp: verify_email_def consume_invite_token_def bind_def r_now_def update_rows_eq
        split: option.splits if_splits)
  then show ?thesis by (auto intro: quietI verified)
qed

lemma effect_background:
  assumes "run_background tok s = (r, t)"
  shows "effect kdf s (Background tok) t"
proof (cases "tok \<in> set (background s)")
  case False
  then show ?thesis using assms by (auto simp: run_background_def intro: quietI)
next
  case True
  let ?i = "r_uuids s (r_uuid_ix s)"
  let ?u = "s\<lparr>background := remove1 tok (background s), r_uuid_ix := Suc (r_uuid_ix s)\<rparr>"
  have sub: "set (remove1 tok (background s)) \<subseteq> set (background s)" by (rule set_remove1_subset)
  from True assms have "t = ?u \<or> (t = ?u\<lparr>sessions := update_where (has_token tok) (with_invite ?i) (sessions s)\<rparr> \<and>
      rows_unique (sessions t))"
    unfolding with_invite_def[abs_def]
    by (auto simp: run_background_def issue_invite_token_def bind_assoc checked_update_then bind_Inl bind_Inr
        split: if_splits)
  then show ?thesis
  proof
    assume "t = ?u"
    then show ?thesis using sub by (intro quiet) auto
  next
    assume "t = ?u\<lparr>sessions := update_where (has_token tok) (with_invite ?i) (sessions s)\<rparr> \<and> rows_unique (sessions t)"
    then show ?thesis using True by (intro issued) auto
  qed
qed

text \<open>
  The handlers with two statements after the first one, the SELECT of \<open>_require_session\<close>. The row they work with is the
  one that was read, while the table may have moved on.
\<close>

definition personal_rest :: "reg_row \<Rightarrow> date \<Rightarrow> personal_info \<Rightarrow> (reg_state, reg_reply) io" where
  "personal_rest st today data =
     bind (parse_body (validate_personal today data)) (\<lambda>d.
     if r_step st < 1 then raise (HTTPExn 409 ''Previous steps must be completed first'')
     else
       bind (save_registrant_data (r_token st) (dump_registrant d) (spouse d)) (\<lambda>_.
       bind (modify (\<lambda>s. s\<lparr>background := background s @ [r_token st]\<rparr>)) (\<lambda>_.
       ret (NextStep 3))))"

definition pin_rest :: "kdf \<Rightarrow> reg_row \<Rightarrow> pin_request \<Rightarrow> (reg_state, reg_reply) io" where
  "pin_rest kdf st req =
     bind (parse_body (validate_pin_request req)) (\<lambda>b.
     if r_step st < 4 then raise (HTTPExn 409 ''Email verification must be completed first'')
     else bind (save_pin kdf (r_token st) (pin b)) (\<lambda>_. ret (NextStep 5)))"

lemma two_steps:
  "save_personal_info tok today data = bind (require_session tok) (\<lambda>st. personal_rest st today data)"
  "save_pin_route kdf tok req = bind (require_session tok) (\<lambda>st. pin_rest kdf st req)"
  by (simp_all add: save_personal_info_def personal_rest_def save_pin_route_def pin_rest_def)

definition not_stale :: "reg_state \<Rightarrow> reg_row \<Rightarrow> bool" where
  "not_stale s row \<longleftrightarrow> (\<exists>r \<in> set (sessions s). r_token r = r_token row \<and> r_step row \<le> r_step r)"

lemma effect_personal_rest:
  assumes "personal_rest row today d s = (r, t)" and "not_stale s row"
  shows "effect kdf s (Personal (r_token row) today d) t"
proof (cases "validate_personal today d")
  case (Inl e)
  then show ?thesis using assms(1) by (auto simp: personal_rest_def parse_body_def intro: quietI)
next
  case (Inr p)
  have "sessions t = sessions s \<and> background t = background s \<or>
      sessions t = update_where (has_token (r_token row)) (with_registrant p) (sessions s) \<and>
      background t = background s @ [r_token row]"
    using assms(1) Inr unfolding with_registrant_def[abs_def]
    by (auto simp: personal_rest_def parse_body_def save_registrant_data_def bind_assoc checked_update_then split: if_splits)
  moreover have "\<exists>r \<in> set (sessions s). has_token (r_token row) r"
    using assms(2) by (auto simp: has_token_def not_stale_def)
  ultimately show ?thesis using Inr by (auto intro: quietI saved)
qed

lemma validate_pin_request_same: "validate_pin_request r = Inr q \<Longrightarrow> q = r"
  by (simp add: validate_pin_request_iff)

text \<open>The step that was read bounds the step of the row there is now, so that the guard on the old row holds of the new one.\<close>

lemma effect_pin_rest:
  assumes "pin_rest kdf row req s = (r, t)" and "r_step row \<le> r_step cur"
    and "List.find (\<lambda>r. has_token (r_token row) r \<and> now < r_expires r) (sessions s) = Some cur"
  shows "effect kdf s (SetPin (r_token row) req) t"
proof (cases "is_ok (validate_pin_request req) \<and> 4 \<le> r_step row")
  case False
  with assms(1) show ?thesis
    by (cases "validate_pin_request req") (auto simp: pin_rest_def parse_body_def split: if_splits intro: quietI)
next
  case True
  then have q: "validate_pin_request req = Inr req" and st: "4 \<le> r_step row"
    using validate_pin_request_same by (auto simp: is_ok_iff)
  have "sessions t = sessions s \<and> background t = background s \<or>
      (\<exists>h sl. hash_pin kdf (r_random s (r_random_ix s)) (pin req) = Inr (h, sl) \<and>
        sessions t = update_where (has_token (r_token row)) (with_pin h sl) (sessions s) \<and> background t = background s)"
    using assms(1) q st unfolding with_pin_def[abs_def]
    by (cases "hash_pin kdf (r_random s (r_random_ix s)) (pin req)")
      (auto simp: pin_rest_def bind_assoc parse_body_def save_pin_def checked_update_then split: if_splits)
  moreover have "4 \<le> r_step cur" using st assms(2) by simp
  ultimately show ?thesis using q assms(3) by (auto intro: quietI pinned)
qed

text \<open>In one go: the row that was read is the row there is.\<close>

lemma require_session_live:
  "require_session tok s = (Inr row, u) \<Longrightarrow> u = s\<lparr>r_ticks := Suc (r_ticks s)\<rparr> \<and> r_token row = tok \<and> not_stale s row \<and>
     List.find (\<lambda>r. has_token tok r \<and> r_clock s (r_ticks s) < r_expires r) (sessions s) = Some row"
  using require_session_cases[of tok s] by (auto simp: not_stale_def dest: find_has_token)

lemma require_session_fails: "require_session tok s = (Inl e, u) \<Longrightarrow> sessions u = sessions s \<and> background u = background s"
  using require_session_cases[of tok s] by auto

lemma effect_ticks: "effect kdf (s\<lparr>r_ticks := n\<rparr>) e t \<Longrightarrow> effect kdf s e t"
  by (erule effect.cases) (auto intro: effect.intros)

lemma effect_personal:
  assumes "save_personal_info tok today d s = (r, t)"
  shows "effect kdf s (Personal tok today d) t"
proof (cases "require_session tok s")
  case (Pair x u)
  show ?thesis
  proof (cases x)
    case (Inl e)
    then show ?thesis using assms Pair require_session_fails by (auto simp: two_steps bind_Inl intro: quietI)
  next
    case (Inr row)
    note live = require_session_live[OF Pair[unfolded Inr]]
    have "personal_rest row today d u = (r, t)" using assms Pair Inr by (simp add: two_steps bind_Inr)
    moreover have "not_stale u row" using live by (auto simp: not_stale_def)
    ultimately show ?thesis using effect_personal_rest[of row today d u] live effect_ticks by metis
  qed
qed

lemma effect_pin:
  assumes "save_pin_route kdf tok req s = (r, t)"
  shows "effect kdf s (SetPin tok req) t"
proof (cases "require_session tok s")
  case (Pair x u)
  show ?thesis
  proof (cases x)
    case (Inl e)
    then show ?thesis using assms Pair require_session_fails by (auto simp: two_steps bind_Inl intro: quietI)
  next
    case (Inr row)
    note live = require_session_live[OF Pair[unfolded Inr]]
    have "pin_rest kdf row req u = (r, t)" using assms Pair Inr by (simp add: two_steps bind_Inr)
    moreover have "List.find (\<lambda>r. has_token (r_token row) r \<and> r_clock s (r_ticks s) < r_expires r) (sessions u) = Some row"
      using live by simp
    ultimately have "effect kdf u (SetPin (r_token row) req) t" using effect_pin_rest[OF _ order_refl] by blast
    then show ?thesis using live effect_ticks by metis
  qed
qed

lemma effect_reads:
  "get_step_state tok n s = (r, t) \<Longrightarrow> effect kdf s (StepGet tok n) t"
  "link_bceid tok s = (r, t) \<Longrightarrow> effect kdf s (Link tok) t"
  by (auto simp: get_step_state_def link_bceid_def require_session_def get_session_by_token_def bind_def r_now_def
      split: option.splits if_splits intro: quietI)

lemma rstep_effect: "rstep kdf s e t \<Longrightarrow> effect kdf s e t"
  by (cases e) (auto simp: rstep_iff intro: effect_start effect_personal effect_background effect_verify
      effect_pin effect_reads)

section \<open>The invariant of the wizard\<close>

text \<open>
  What the columns of a row say of each other: the step is between 1 and 5, and from step 2 on
  there are registrant data, from step 3 on an invite token, only at step 5 a PIN; an invite is
  used only from step 4 on; no user is linked; the stored data went through validation.
\<close>

definition row_inv :: "reg_row \<Rightarrow> bool" where
  "row_inv r \<longleftrightarrow> 1 \<le> r_step r \<and> r_step r \<le> 5 \<and> r_user_id r = None \<and>
     (2 \<le> r_step r \<longleftrightarrow> r_registrant r \<noteq> None) \<and> (3 \<le> r_step r \<longleftrightarrow> r_invite r \<noteq> None) \<and>
     (r_invite_used r \<longrightarrow> 4 \<le> r_step r) \<and> (5 \<le> r_step r \<longleftrightarrow> r_pin_hash r \<noteq> None) \<and>
     (r_pin_hash r = None \<longleftrightarrow> r_pin_salt r = None) \<and>
     (\<forall>d. r_registrant r = Some d \<longrightarrow> (\<exists>today. valid_registrant today d)) \<and>
     (\<forall>d. r_spouse r = Some d \<longrightarrow> (\<exists>today. valid_spouse today d))"

definition reg_inv :: "reg_state \<Rightarrow> bool" where
  "reg_inv s \<longleftrightarrow> (\<forall>r \<in> set (sessions s). row_inv r) \<and> rows_unique (sessions s) \<and>
     (\<forall>tok \<in> set (background s). \<exists>r \<in> set (sessions s). has_token tok r \<and> 2 \<le> r_step r)"

lemma row_inv_new: "row_inv (new_row tok act now)"
  by (simp add: row_inv_def new_row_def)

lemma row_inv_registrant:
  assumes "row_inv r" and "validate_personal today d = Inr p"
  shows "row_inv (with_registrant p r)"
proof -
  have "\<exists>today. valid_registrant today (dump_registrant p)"
    and "\<forall>x. spouse p = Some x \<longrightarrow> (\<exists>today. valid_spouse today x)"
    using validate_personal_valid[OF assms(2)] by auto
  then show ?thesis using assms(1)
    by (cases "r_step r < 2") (auto simp: row_inv_def with_registrant_def max_def)
qed

lemma row_inv_invite: "row_inv r \<Longrightarrow> 2 \<le> r_step r \<Longrightarrow> row_inv (with_invite i r)"
  by (auto simp: row_inv_def with_invite_def max_def)

lemma row_inv_used: "row_inv r \<Longrightarrow> r_invite r \<noteq> None \<Longrightarrow> row_inv (with_used r)"
  by (auto simp: row_inv_def with_used_def max_def)

lemma row_inv_pin: "row_inv r \<Longrightarrow> 4 \<le> r_step r \<Longrightarrow> row_inv (with_pin h sl r)"
  by (auto simp: row_inv_def with_pin_def max_def)

text \<open>Writes that keep tokens and invites keep the table unique; steps never go back.\<close>

lemma keeps_columns [simp]:
  "r_token (with_registrant p r) = r_token r" "r_invite (with_registrant p r) = r_invite r"
  "r_token (with_invite i r) = r_token r" "r_token (with_used r) = r_token r"
  "r_invite (with_used r) = r_invite r" "r_token (with_pin h sl r) = r_token r"
  "r_invite (with_pin h sl r) = r_invite r"
  "r_step (with_registrant p r) = max (r_step r) 2" "r_step (with_invite i r) = max (r_step r) 3"
  "r_step (with_used r) = max (r_step r) 4" "r_step (with_pin h sl r) = max (r_step r) 5"
  by (simp_all add: row_ops)

lemma unique_update:
  "(\<And>r. r_token (f r) = r_token r) \<Longrightarrow> (\<And>r. r_invite (f r) = r_invite r) \<Longrightarrow> rows_unique rows \<Longrightarrow>
   rows_unique (update_where P f rows)"
  by (simp add: rows_unique_def invites_def map_update_where)

lemma unique_row:
  assumes "rows_unique rows" and "r \<in> set rows" and "r' \<in> set rows" and "r_token r = r_token r'"
  shows "r = r'"
  using assms by (auto simp: rows_unique_def distinct_map dest: inj_onD)

lemma find_has_token_all:
  assumes "rows_unique rows" and "List.find (\<lambda>r. has_token tok r \<and> P r) rows = Some row"
    and "r \<in> set rows" and "has_token tok r"
  shows "r = row"
  using find_has_token[OF assms(2)] assms by (auto simp: has_token_def intro: unique_row)

lemma update_keeps_row:
  assumes "r \<in> set rows" and "\<And>r. r_token (f r) = r_token r" and "\<And>r. r_step r \<le> r_step (f r)"
  shows "\<exists>r' \<in> set (update_where P f rows). r_token r' = r_token r \<and> r_step r \<le> r_step r'"
  using assms by (cases "P r") (auto simp: set_update_where image_iff)

lemma effect_keeps_rows:
  assumes "effect kdf s e t" and "r \<in> set (sessions s)"
  shows "\<exists>r' \<in> set (sessions t). r_token r' = r_token r \<and> r_step r \<le> r_step r'"
  using assms
proof (cases rule: effect.cases)
  case (saved today d p tok)
  show ?thesis using update_keeps_row[OF assms(2), of "with_registrant p"] saved by simp
next
  case (issued tok i)
  show ?thesis using update_keeps_row[OF assms(2), of "with_invite i"] issued by simp
next
  case (verified i now)
  show ?thesis using update_keeps_row[OF assms(2), of with_used] verified by simp
next
  case (pinned tok now row req salt h sl)
  show ?thesis using update_keeps_row[OF assms(2), of "with_pin h sl"] pinned by simp
qed auto

lemma effect_rows_inv:
  assumes inv: "reg_inv s" and eff: "effect kdf s e t"
  shows "(\<forall>r \<in> set (sessions t). row_inv r) \<and> rows_unique (sessions t)"
proof -
  from inv have rows: "\<And>r. r \<in> set (sessions s) \<Longrightarrow> row_inv r" and uniq: "rows_unique (sessions s)"
    and bg: "\<And>tok. tok \<in> set (background s) \<Longrightarrow> \<exists>r \<in> set (sessions s). has_token tok r \<and> 2 \<le> r_step r"
    by (auto simp: reg_inv_def)
  show ?thesis
    using eff
  proof (cases rule: effect.cases)
    case quiet
    then show ?thesis using rows uniq by simp
  next
    case (started tok act now)
    then show ?thesis using rows row_inv_new by auto
  next
    case (saved today d p tok)
    then show ?thesis using rows uniq row_inv_registrant[OF _ saved(2)]
      by (auto simp: set_update_where intro!: unique_update)
  next
    case (issued tok i)
    then obtain r0 where r0: "r0 \<in> set (sessions s)" "has_token tok r0" "2 \<le> r_step r0" using bg by blast
    have "2 \<le> r_step r" if "r \<in> set (sessions s)" "has_token tok r" for r
      using unique_row[OF uniq that(1) r0(1)] that(2) r0 by (simp add: has_token_def)
    then show ?thesis using issued rows by (auto simp: set_update_where intro!: row_inv_invite)
  next
    case (verified i now)
    then show ?thesis using rows uniq
      by (auto simp: set_update_where invite_open_def intro!: unique_update row_inv_used)
  next
    case (pinned tok now row req salt h sl)
    have "4 \<le> r_step r" if "r \<in> set (sessions s)" "has_token tok r" for r
      using find_has_token_all[OF uniq pinned(2) that] pinned(3) by simp
    then show ?thesis using pinned rows uniq
      by (auto simp: set_update_where intro!: unique_update row_inv_pin)
  qed
qed

lemma effect_pending:
  assumes inv: "reg_inv s" and eff: "effect kdf s e t" and tok: "tok \<in> set (background t)"
  shows "\<exists>r \<in> set (sessions t). has_token tok r \<and> 2 \<le> r_step r"
proof -
  have old: "\<exists>r \<in> set (sessions t). has_token tok r \<and> 2 \<le> r_step r" if "tok \<in> set (background s)"
  proof -
    from inv that obtain r where "r \<in> set (sessions s)" "has_token tok r" "2 \<le> r_step r"
      by (auto simp: reg_inv_def)
    with effect_keeps_rows[OF eff, of r] show ?thesis by (fastforce simp: has_token_def)
  qed
  show ?thesis
    using eff
  proof (cases rule: effect.cases)
    case (saved today d p tok')
    show ?thesis
    proof (cases "tok \<in> set (background s)")
      case False
      with saved tok have "tok = tok'" by simp
      obtain r where r: "r \<in> set (sessions s)" "has_token tok r"
        using saved(3) \<open>tok = tok'\<close> by blast
      then have "with_registrant p r \<in> set (sessions t)"
        using saved(4) \<open>tok = tok'\<close> by (auto simp: set_update_where)
      moreover have "has_token tok (with_registrant p r)" and "2 \<le> r_step (with_registrant p r)"
        using r(2) by (auto simp: has_token_def)
      ultimately show ?thesis by blast
    qed (rule old)
  next
    case (issued tok' i)
    with tok old show ?thesis using set_remove1_subset by (metis subsetD)
  qed (use tok old in auto)
qed

lemma rstep_inv: "reg_inv s \<Longrightarrow> rstep kdf s e t \<Longrightarrow> reg_inv t"
  using effect_rows_inv effect_pending rstep_effect by (metis reg_inv_def)

interpretation reg: invariant_machine "rstep kdf" reg_inv
  by unfold_locales (rule rstep_inv)

definition reg_init :: "(nat \<Rightarrow> instant) \<Rightarrow> (nat \<Rightarrow> string) \<Rightarrow> (nat \<Rightarrow> byte list) \<Rightarrow> reg_state" where
  "reg_init clk uu rnd =
     \<lparr>sessions = [], background = [], r_clock = clk, r_ticks = 0, r_uuids = uu, r_uuid_ix = 0,
      r_random = rnd, r_random_ix = 0\<rparr>"

lemma reg_inv_init: "reg_inv (reg_init clk uu rnd)"
  by (simp add: reg_inv_def reg_init_def rows_unique_def invites_def)

text \<open>Tokens are drawn in order; nothing but drawing one moves the generator.\<close>

definition uuids_at :: "(nat \<Rightarrow> string) \<Rightarrow> nat \<Rightarrow> reg_state \<Rightarrow> bool" where
  "uuids_at u k s \<longleftrightarrow> r_uuids s = u \<and> k \<le> r_uuid_ix s"

lemma uuids_frames [intro!, simp]:
  "preserves r_now (uuids_at u k)" "preserves generate_token (uuids_at u k)" "preserves urandom (uuids_at u k)"
  "preserves (insert_row r) (uuids_at u k)" "preserves (update_rows P f) (uuids_at u k)"
  "preserves (require_row tok n) (uuids_at u k)" "preserves (modify (background_update g)) (uuids_at u k)"
  "preserves (modify (\<lambda>s. s\<lparr>background := h s\<rparr>)) (uuids_at u k)" "preserves (parse_body b) (uuids_at u k)"
  by (auto simp: preserves_def uuids_at_def r_now_def generate_token_def urandom_def insert_row_def
      update_rows_eq require_row_def parse_body_def split: sum.split)

lemma uuids_reg_handle: "preserves (reg_handle kdf e) (uuids_at u k)"
  by (cases e)
    (auto intro!: preserves_bind split: option.split
      simp: start_route_def start_registration_def save_personal_info_def require_session_def
        get_session_by_token_def save_registrant_data_def run_background_def issue_invite_token_def
        verify_email_def consume_invite_token_def get_step_state_def save_pin_route_def save_pin_def link_bceid_def)

lemma rstep_uuids: "rstep kdf s e t \<Longrightarrow> r_uuids t = r_uuids s \<and> r_uuid_ix s \<le> r_uuid_ix t"
  using preservesD[OF uuids_reg_handle, of "r_uuids s" "r_uuid_ix s" s kdf e]
  by (auto simp: rstep_iff uuids_at_def)

text \<open>\<open>drawn s\<close>: the tokens the generator has given out so far.\<close>

definition drawn :: "reg_state \<Rightarrow> string set" where
  "drawn s = r_uuids s ` {..<r_uuid_ix s}"

text \<open>What the next lemmas need of a step: its effect on the table, and a generator that only moves forward.\<close>

definition moves :: "kdf \<Rightarrow> reg_state \<Rightarrow> reg_state \<Rightarrow> bool" where
  "moves kdf s t \<longleftrightarrow> (\<exists>e. effect kdf s e t) \<and> r_uuids t = r_uuids s \<and> r_uuid_ix s \<le> r_uuid_ix t"

lemma rstep_moves: "rstep kdf s e t \<Longrightarrow> moves kdf s t"
  using rstep_effect rstep_uuids unfolding moves_def by blast

lemma moves_drawn: "moves kdf s t \<Longrightarrow> drawn s \<subseteq> drawn t"
  unfolding drawn_def moves_def by fastforce

lemmas drawn_mono = moves_drawn[OF rstep_moves]

definition invites_drawn :: "reg_state \<Rightarrow> bool" where
  "invites_drawn s \<longleftrightarrow> (\<forall>r \<in> set (sessions s). \<forall>i. r_invite r = Some i \<longrightarrow> i \<in> drawn s)"

lemma effect_invites:
  assumes "effect kdf s e t" and "r \<in> set (sessions t)" and "r_invite r = Some i"
  shows "(\<exists>r0 \<in> set (sessions s). r_invite r0 = Some i \<and> (r_invite_used r0 \<longrightarrow> r_invite_used r)) \<or>
    i = r_uuids s (r_uuid_ix s) \<and> r_uuid_ix t = Suc (r_uuid_ix s)"
  using assms
  by (cases rule: effect.cases)
    (auto simp: set_update_where new_row_def with_registrant_def with_invite_def with_used_def with_pin_def split: if_splits)

lemma moves_invites_drawn: "invites_drawn s \<Longrightarrow> moves kdf s t \<Longrightarrow> invites_drawn t"
  unfolding invites_drawn_def
proof (intro ballI allI impI)
  fix r i
  assume old: "\<forall>r \<in> set (sessions s). \<forall>i. r_invite r = Some i \<longrightarrow> i \<in> drawn s" and mv: "moves kdf s t"
    and r: "r \<in> set (sessions t)" "r_invite r = Some i"
  from mv obtain e where "effect kdf s e t" by (auto simp: moves_def)
  from effect_invites[OF this r] show "i \<in> drawn t"
  proof
    assume "\<exists>r0 \<in> set (sessions s). r_invite r0 = Some i \<and> (r_invite_used r0 \<longrightarrow> r_invite_used r)"
    then show ?thesis using old moves_drawn[OF mv] by blast
  next
    assume "i = r_uuids s (r_uuid_ix s) \<and> r_uuid_ix t = Suc (r_uuid_ix s)"
    then show ?thesis using mv by (auto simp: drawn_def moves_def)
  qed
qed

lemmas invites_drawn_step = moves_invites_drawn[OF _ rstep_moves]

interpretation drawn: invariant_machine "rstep kdf" invites_drawn
  by unfold_locales (rule invites_drawn_step)

text \<open>A spent invite: given out, and used wherever it stands; with distinct tokens it stays so.\<close>

definition spent :: "string \<Rightarrow> reg_state \<Rightarrow> bool" where
  "spent i s \<longleftrightarrow> inj (r_uuids s) \<and> i \<in> drawn s \<and> (\<forall>r \<in> set (sessions s). r_invite r = Some i \<longrightarrow> r_invite_used r)"

lemma moves_spent:
  assumes "spent i s" and "moves kdf s t"
  shows "spent i t"
proof -
  from assms(2) obtain e where e: "effect kdf s e t" by (auto simp: moves_def)
  have "i \<noteq> r_uuids s (r_uuid_ix s)"
    using assms(1) by (auto simp: spent_def drawn_def dest: injD)
  then have "r_invite_used r" if "r \<in> set (sessions t)" "r_invite r = Some i" for r
    using effect_invites[OF e that] assms(1) by (auto simp: spent_def)
  then show ?thesis
    using assms moves_drawn[OF assms(2)] by (auto simp: spent_def moves_def)
qed

lemmas spent_step = moves_spent[OF _ rstep_moves]

interpretation spent: invariant_machine "rstep kdf" "spent i"
  by unfold_locales (rule spent_step)

lemma find_none: "(\<And>r. r \<in> set rows \<Longrightarrow> \<not> P r) \<Longrightarrow> List.find P rows = None"
  by (simp add: find_None_iff)

lemma spent_refused:
  assumes "spent i s" and "reg_inv s"
  shows "fst (verify_email i s) = Inl (HTTPExn 410 ''This verification link has expired or has already been used'')"
proof -
  have closed: "\<not> invite_open i now r" if "r \<in> set (sessions s)" for r now
    using assms(1) that by (auto simp: spent_def invite_open_def)
  then have "List.find (invite_open i now) (sessions s) = None" for now
    by (intro find_none)
  moreover have "update_where (invite_open i now) f (sessions s) = sessions s" for now f
    using closed by (intro update_where_none) (simp add: row_count_0)
  moreover have "rows_unique (sessions s)" using assms(2) by (simp add: reg_inv_def)
  ultimately show ?thesis
    by (simp add: verify_email_def consume_invite_token_def bind_def r_now_def update_rows_eq)
qed

lemma unique_invite:
  "rows_unique rows \<Longrightarrow> r \<in> set rows \<Longrightarrow> r' \<in> set rows \<Longrightarrow> r_invite r = Some i \<Longrightarrow> r_invite r' = Some i \<Longrightarrow> r = r'"
proof (induction rows)
  case (Cons x rows)
  have "i \<in> set (invites xs)" if "y \<in> set xs" "r_invite y = Some i" for xs y
    using that by (force simp: invites_def)
  then show ?case using Cons by (auto simp: rows_unique_def invites_def split: if_splits)
qed simp

text \<open>A successful verification: the row that was open, now used.\<close>

lemma verify_ok:
  assumes "verify_email i s = (Inr rep, t)"
  shows "\<exists>row \<in> set (sessions s). invite_open i (r_clock s (r_ticks s)) row \<and>
    rep = Redirect (''/registration/'' @ r_token row @ ''/pin'') \<and>
    sessions t = update_where (invite_open i (r_clock s (r_ticks s))) with_used (sessions s)"
  using assms unfolding with_used_def[abs_def]
  by (auto simp: verify_email_def consume_invite_token_def bind_def r_now_def update_rows_eq find_Some_iff
      split: option.splits if_splits)

lemma verify_spends:
  assumes "reg_inv s" and "invites_drawn s" and "inj (r_uuids s)" and "verify_email i s = (Inr rep, t)"
  shows "spent i t"
proof -
  let ?P = "invite_open i (r_clock s (r_ticks s))"
  from verify_ok[OF assms(4)] obtain row where
    row: "row \<in> set (sessions s)" "?P row" "sessions t = update_where ?P with_used (sessions s)" by blast
  have st: "rstep kdf s (Verify i) t" for kdf using assms(4) by (simp add: rstep_iff)
  have "r_invite_used r" if "r \<in> set (sessions t)" "r_invite r = Some i" for r
  proof -
    from that(1) row(3) consider r0 where "r0 \<in> set (sessions s)" "r = with_used r0"
      | "r \<in> set (sessions s)" "\<not> ?P r"
      by (auto simp: set_update_where)
    then show ?thesis
    proof cases
      case 1
      then show ?thesis by (simp add: with_used_def)
    next
      case 2
      have "r = row"
        using assms(1) 2(1) row that(2)
        by (intro unique_invite[of "sessions s" r row i]) (auto simp: reg_inv_def invite_open_def)
      then show ?thesis using 2 row(2) by blast
    qed
  qed
  moreover have "i \<in> drawn s"
    using assms(2) row(1,2) by (auto simp: invites_drawn_def invite_open_def)
  ultimately show ?thesis
    using rstep_uuids[OF st] drawn_mono[OF st] assms(3) by (auto simp: spent_def)
qed

lemma invites_drawn_init: "invites_drawn (reg_init clk uu rnd)"
  by (simp add: invites_drawn_def reg_init_def)

section \<open>Properties\<close>

text \<open>
  In every state the wizard can reach, through its routes and its background task in any order,
  each row is consistent: the step says which data are there, no PIN is stored before step 5,
  personal data and spouse data went through validation, and no two rows share a token or an
  invite.
\<close>

theorem wizard_rows_consistent:
  assumes "steps (rstep kdf) (reg_init clk uu rnd) es s" and "r \<in> set (sessions s)"
  shows "row_inv r \<and> rows_unique (sessions s)"
  using reg.inv_steps[OF assms(1) reg_inv_init] assms(2) by (simp add: reg_inv_def)

text \<open>
  A registration session is never lost and its step never goes back, whatever requests arrive.
\<close>

theorem wizard_step_monotone:
  assumes "steps (rstep kdf) s es t" and "r \<in> set (sessions s)"
  shows "\<exists>r' \<in> set (sessions t). r_token r' = r_token r \<and> r_step r \<le> r_step r'"
  using assms
proof (induction arbitrary: r rule: steps.induct)
  case (steps_nil s)
  then show ?case by blast
next
  case (steps_cons s e t es u)
  from effect_keeps_rows[OF rstep_effect[OF steps_cons.hyps(1)] steps_cons.prems]
  obtain r1 where "r1 \<in> set (sessions t)" "r_token r1 = r_token r" "r_step r \<le> r_step r1" by blast
  with steps_cons.IH[of r1] show ?case by fastforce
qed

lemma effect_step4:
  assumes eff: "effect kdf s e t" and uniq: "rows_unique (sessions s)" and r: "r \<in> set (sessions t)" "4 \<le> r_step r"
  shows "(\<exists>r0 \<in> set (sessions s). r_token r0 = r_token r \<and> 4 \<le> r_step r0) \<or>
    (\<exists>i r0. e = Verify i \<and> r0 \<in> set (sessions s) \<and> r_token r0 = r_token r \<and>
      r_invite r0 = Some i \<and> \<not> r_invite_used r0)"
  using eff
proof (cases rule: effect.cases)
  case quiet
  then show ?thesis using r by auto
next
  case started
  then show ?thesis using r by (auto simp: new_row_def)
next
  case saved
  then show ?thesis using r by (auto simp: set_update_where)
next
  case issued
  then show ?thesis using r by (auto simp: set_update_where)
next
  case (verified i now)
  then show ?thesis using r by (auto simp: set_update_where invite_open_def)
next
  case (pinned tok now row req salt h sl)
  then have "4 \<le> r_step r0" if "r0 \<in> set (sessions s)" "has_token tok r0" for r0
    using find_has_token_all[OF uniq pinned(2) that] by simp
  then show ?thesis using pinned r by (auto simp: set_update_where)
qed

text \<open>
  No PIN without a verified address: a session that has a PIN was at some earlier moment opened
  by its own, at that moment unused, invite token.
\<close>

theorem pin_requires_verification:
  assumes "steps (rstep kdf) (reg_init clk uu rnd) es s" and "r \<in> set (sessions s)" and "r_pin_hash r \<noteq> None"
  shows "\<exists>es1 i es2 s1 r1. es = es1 @ Verify i # es2 \<and> steps (rstep kdf) (reg_init clk uu rnd) es1 s1 \<and>
    r1 \<in> set (sessions s1) \<and> r_token r1 = r_token r \<and> r_invite r1 = Some i \<and> \<not> r_invite_used r1"
proof -
  have "row_inv r" using reg.inv_steps[OF assms(1) reg_inv_init] assms(2) by (simp add: reg_inv_def)
  then have "4 \<le> r_step r" using assms(3) by (auto simp: row_inv_def)
  with assms(1,2) show ?thesis
  proof (induction es arbitrary: s r rule: rev_induct)
    case Nil
    then show ?case by (simp add: reg_init_def)
  next
    case (snoc e es)
    from snoc.prems(1) obtain s0 where s0: "steps (rstep kdf) (reg_init clk uu rnd) es s0" "rstep kdf s0 e s"
      by (rule steps_snocE)
    have "rows_unique (sessions s0)"
      using reg.inv_steps[OF s0(1) reg_inv_init] by (simp add: reg_inv_def)
    from effect_step4[OF rstep_effect[OF s0(2)] this snoc.prems(2,3)] show ?case
    proof (elim disjE bexE exE conjE)
      fix r0 assume "r0 \<in> set (sessions s0)" "r_token r0 = r_token r" "4 \<le> r_step r0"
      with snoc.IH[OF s0(1)] show ?thesis by fastforce
    next
      fix i r0 assume "e = Verify i" "r0 \<in> set (sessions s0)" "r_token r0 = r_token r"
        "r_invite r0 = Some i" "\<not> r_invite_used r0"
      with s0(1) show ?thesis by blast
    qed
  qed
qed

text \<open>
  An invite token is single-use: once the verification link has been followed successfully,
  every later visit of it is answered 410, whatever happens in between, new invites for the
  same session included, if the generator never repeats a token.
\<close>

theorem invite_single_use:
  assumes "steps (rstep kdf) (reg_init clk uu rnd) es s" and "inj uu"
    and "verify_email i s = (Inr rep, t)" and "steps (rstep kdf) t es' t'"
  shows "fst (verify_email i t') = Inl (HTTPExn 410 ''This verification link has expired or has already been used'')"
proof -
  have inv: "reg_inv s" using assms(1) reg_inv_init by (rule reg.inv_steps)
  have "invites_drawn s" using assms(1) invites_drawn_init by (rule drawn.inv_steps)
  moreover have "inj (r_uuids s)"
  proof -
    have "uuids_at uu 0 s"
      using assms(1)
    proof (induction es arbitrary: s rule: rev_induct)
      case Nil
      then show ?case by (simp add: reg_init_def uuids_at_def)
    next
      case (snoc e es)
      then obtain s0 where "steps (rstep kdf) (reg_init clk uu rnd) es s0" "rstep kdf s0 e s"
        by (elim steps_snocE)
      then show ?case using snoc.IH rstep_uuids by (force simp: uuids_at_def)
    qed
    then show ?thesis using assms(2) by (simp add: uuids_at_def)
  qed
  ultimately have "spent i t" using inv assms(3) by (intro verify_spends)
  then have "spent i t'" using assms(4) spent.inv_steps by blast
  moreover have "reg_inv t'"
  proof -
    have "rstep kdf s (Verify i) t" using assms(3) by (simp add: rstep_iff)
    with inv have "reg_inv t" by (rule rstep_inv)
    with assms(4) show ?thesis by (rule reg.inv_steps)
  qed
  ultimately show ?thesis by (rule spent_refused)
qed

text \<open>C4.
  The PIN that was set is the PIN that verifies: after a successful PIN step the row of the
  session holds a hash and a salt against which that PIN verifies, and against which another
  text verifies only if the key derivation gives it the same key.
\<close>

theorem stored_pin_verifies:
  assumes "save_pin_route kdf tok req s = (Inr rep, t)" and "utf8 (pin req) = Inr pw" and "utf8 p = Inr pw'"
  shows "\<exists>r \<in> set (sessions t). \<exists>h sl salt. r_token r = tok \<and> r_pin_hash r = Some h \<and> r_pin_salt r = Some sl \<and>
    verify_pin kdf (pin req) h sl = Inr True \<and> verify_pin kdf p h sl = Inr (kdf pw' salt 260000 = kdf pw salt 260000)"
proof -
  let ?u = "s\<lparr>r_ticks := Suc (r_ticks s)\<rparr>"
  obtain row where
    row: "List.find (\<lambda>r. has_token tok r \<and> r_clock s (r_ticks s) < r_expires r) (sessions s) = Some row"
    and rs: "require_session tok s = (Inr row, ?u)"
    using require_session_cases[of tok s] assms(1) by (auto simp: save_pin_route_def bind_Inl)
  have body: "bind (parse_body (validate_pin_request req)) (\<lambda>b.
      if r_step row < 4 then raise (HTTPExn 409 ''Email verification must be completed first'')
      else bind (save_pin kdf (r_token row) (pin b)) (\<lambda>_. ret (NextStep 5))) ?u = (Inr rep, t)"
    using assms(1) rs by (simp add: save_pin_route_def bind_Inr)
  then have ok: "validate_pin_request req = Inr req"
    by (cases "validate_pin_request req") (auto simp: parse_body_def dest: validate_pin_request_same)
  with body have sp: "bind (save_pin kdf (r_token row) (pin req)) (\<lambda>_. ret (NextStep 5)) ?u = (Inr rep, t)"
    by (simp add: parse_body_def split: if_splits)
  then obtain h sl where hp: "hash_pin kdf (r_random s (r_random_ix s)) (pin req) = Inr (h, sl)"
    by (cases "hash_pin kdf (r_random s (r_random_ix s)) (pin req)") (auto simp: save_pin_def bind_assoc)
  with sp have t: "sessions t = update_where (has_token (r_token row)) (with_pin h sl) (sessions s)"
    unfolding with_pin_def[abs_def]
    by (simp add: save_pin_def bind_assoc checked_update_then split: if_splits) auto
  from find_has_token[OF row] have r: "row \<in> set (sessions s)" "r_token row = tok" by auto
  then have "with_pin h sl row \<in> set (sessions t)"
    using t by (auto simp: set_update_where has_token_def)
  moreover have "verify_pin kdf (pin req) h sl = Inr True"
    using verify_hash_pin[OF hp assms(2,2)] by simp
  ultimately show ?thesis
    using verify_hash_pin[OF hp assms(2,3)] r(2)
    by (intro bexI[of _ "with_pin h sl row"]) (auto simp: with_pin_def)
qed

text \<open>A run of requests, and a wizard whose clock stands still and whose tokens are u, uu, uuu, ...\<close>

definition reg_run :: "kdf \<Rightarrow> reg_event list \<Rightarrow> reg_state \<Rightarrow> reg_state" where
  "reg_run kdf es s = fold (\<lambda>e s. snd (reg_handle kdf e s)) es s"

lemma steps_reg_run: "steps (rstep kdf) s es (reg_run kdf es s)"
proof (induction es arbitrary: s)
  case Nil
  then show ?case by (simp add: reg_run_def)
next
  case (Cons e es)
  have "rstep kdf s e (snd (reg_handle kdf e s))" by (metis prod.collapse rstep)
  then show ?case using Cons[of "snd (reg_handle kdf e s)"] by (auto simp: steps_Cons reg_run_def)
qed

definition demo_token :: "nat \<Rightarrow> string" where
  "demo_token n = replicate (Suc n) (CHR ''u'')"

definition demo_reg :: reg_state where
  "demo_reg = reg_init (\<lambda>_. 0) demo_token (\<lambda>_. [])"

lemma demo_token_inj: "inj demo_token"
  by (auto simp: demo_token_def inj_def)

lemma demo_token_eq [simp]: "demo_token m = demo_token n \<longleftrightarrow> m = n"
  using demo_token_inj by (auto dest: injD)

definition demo_pin :: pin_request where
  "demo_pin = \<lparr>pin = ascii ''1234'', pin_confirm = ascii ''1234''\<rparr>"

lemma demo_pin_valid: "validate_pin_request demo_pin = Inr demo_pin"
  by (simp add: validate_pin_request_iff demo_pin_def eval_text)

lemma demo_pin_hash: "\<exists>h sl. hash_pin kdf salt (pin demo_pin) = Inr (h, sl)"
  by (simp add: demo_pin_def ascii_def hash_pin_def utf8_def utf8_char_def)

lemma bind_insert_row:
  "bind (insert_row r) f s =
     (if rows_unique (sessions s @ [r]) then f () (s\<lparr>sessions := sessions s @ [r]\<rparr>) else (Inl SQLAlchemyExn, s))"
  by (simp add: bind_def insert_row_def)

lemma bind_update_rows:
  "bind (update_rows P f) g s =
     (if rows_unique (update_where P f (sessions s))
      then g (row_count P (sessions s)) (s\<lparr>sessions := update_where P f (sessions s)\<rparr>)
      else (Inl SQLAlchemyExn, s))"
  by (simp add: bind_def update_rows_eq)

lemmas reg_eval =
  reg_run_def demo_reg_def reg_init_def start_route_def start_registration_def insert_row_def
  save_personal_info_def require_session_def get_session_by_token_def has_token_def parse_body_def
  save_registrant_data_def run_background_def issue_invite_token_def bind_assoc checked_update_then
  verify_email_def consume_invite_token_def bind_insert_row bind_update_rows invite_open_def update_where_def row_count_def
  rows_unique_def invites_def SESSION_TTL_HOURS_def save_pin_route_def save_pin_def

text \<open>
  The PIN step does not ask that the present address is verified. After the applicant has
  verified one address, sending the personal data again with another address keeps the step, so
  that the PIN is accepted while the new address has an invite that nobody has used.
\<close>

theorem pin_accepted_for_unverified_address:
  assumes "validate_personal today d1 = Inr p1" and "validate_personal today d2 = Inr p2"
  shows "let s = reg_run kdf
      [Start SELF, Personal (demo_token 0) today d1, Background (demo_token 0), Verify (demo_token 1),
       Personal (demo_token 0) today d2, Background (demo_token 0)] demo_reg
    in (\<exists>r. sessions s = [r] \<and> map_option rg_email (r_registrant r) = Some (email p2) \<and>
        r_invite r = Some (demo_token 2) \<and> \<not> r_invite_used r) \<and>
      fst (save_pin_route kdf (demo_token 0) demo_pin s) = Inr (NextStep 5)"
proof -
  have exp: "(0::int) < seconds 604800" by simp
  show ?thesis
    using assms demo_pin_valid demo_pin_hash[of kdf "[]"]
    by (auto simp: reg_eval exp Let_def dump_registrant_def)
qed

section \<open>Instances\<close>

definition demo_personal :: "string \<Rightarrow> personal_info" where
  "demo_personal e = sample_personal\<lparr>email := ascii e, email_confirm := ascii e\<rparr>"

abbreviation demo_day :: date where
  "demo_day \<equiv> Date 2026 1 1"

lemma demo_personal_valid: "validate_personal demo_day (demo_personal e) = Inr (demo_personal e)"
  by (simp add: validate_personal_def demo_personal_def sample_personal_def validate_middle_name_def
      validate_phn_field_def email_must_match_def open_case_payment_mandatory_def sample_fields)

definition demo_run :: "reg_event list" where
  "demo_run =
     [Start SELF, Personal (demo_token 0) demo_day (demo_personal ''a@b''), Background (demo_token 0),
      Verify (demo_token 1), SetPin (demo_token 0) demo_pin]"

definition demo_row :: "kdf \<Rightarrow> reg_row" where
  "demo_row kdf = hd (sessions (reg_run kdf demo_run demo_reg))"

lemma demo_run_rows:
  "demo_row kdf \<in> set (sessions (reg_run kdf demo_run demo_reg)) \<and> r_pin_hash (demo_row kdf) \<noteq> None \<and>
   r_token (demo_row kdf) = demo_token 0"
proof -
  have exp: "(0::int) < seconds 604800" by simp
  show ?thesis
    using demo_personal_valid[of "''a@b''"] demo_pin_valid demo_pin_hash[of kdf "[]"]
    by (auto simp: demo_row_def demo_run_def reg_eval exp Let_def)
qed

lemma demo_steps: "steps (rstep kdf) (reg_init (\<lambda>_. 0) demo_token (\<lambda>_. [])) demo_run (reg_run kdf demo_run demo_reg)"
  using steps_reg_run[of kdf demo_reg demo_run] by (simp add: demo_reg_def)

definition demo_kdf :: kdf where
  "demo_kdf pw salt n = pw @ salt"

theorem wizard_rows_consistent_witness:
  "row_inv (demo_row demo_kdf) \<and> rows_unique (sessions (reg_run demo_kdf demo_run demo_reg))"
  by (rule wizard_rows_consistent[OF demo_steps]) (simp add: demo_run_rows)

theorem wizard_step_monotone_witness:
  "\<exists>r' \<in> set (sessions (reg_run demo_kdf demo_run (reg_run demo_kdf demo_run demo_reg))).
     r_token r' = r_token (demo_row demo_kdf) \<and> r_step (demo_row demo_kdf) \<le> r_step r'"
  by (rule wizard_step_monotone[OF steps_reg_run]) (simp add: demo_run_rows)

theorem pin_requires_verification_witness:
  "\<exists>es1 i es2 s1 r1. demo_run = es1 @ Verify i # es2 \<and>
     steps (rstep demo_kdf) (reg_init (\<lambda>_. 0) demo_token (\<lambda>_. [])) es1 s1 \<and>
     r1 \<in> set (sessions s1) \<and> r_token r1 = r_token (demo_row demo_kdf) \<and> r_invite r1 = Some i \<and> \<not> r_invite_used r1"
  using pin_requires_verification[OF demo_steps] demo_run_rows by blast

definition demo_invited :: reg_state where
  "demo_invited = reg_run demo_kdf (take 3 demo_run) demo_reg"

lemma demo_verify_ok: "fst (verify_email (demo_token 1) demo_invited) = Inr (Redirect (''/registration/'' @ demo_token 0 @ ''/pin''))"
proof -
  have exp: "(0::int) < seconds 604800" by simp
  show ?thesis
    using demo_personal_valid[of "''a@b''"]
    by (auto simp: demo_invited_def demo_run_def reg_eval exp Let_def)
qed

theorem invite_single_use_witness:
  "fst (verify_email (demo_token 1) (reg_run demo_kdf demo_run (snd (verify_email (demo_token 1) demo_invited)))) =
     Inl (HTTPExn 410 ''This verification link has expired or has already been used'')"
proof (rule invite_single_use)
  show "steps (rstep demo_kdf) (reg_init (\<lambda>_. 0) demo_token (\<lambda>_. [])) (take 3 demo_run) demo_invited"
    using steps_reg_run[of demo_kdf demo_reg "take 3 demo_run"] by (simp add: demo_reg_def demo_invited_def)
  show "verify_email (demo_token 1) demo_invited =
      (Inr (Redirect (''/registration/'' @ demo_token 0 @ ''/pin'')), snd (verify_email (demo_token 1) demo_invited))"
    using demo_verify_ok by (metis prod.collapse)
qed (rule demo_token_inj steps_reg_run)+

definition demo_verified :: reg_state where
  "demo_verified = reg_run demo_kdf (take 4 demo_run) demo_reg"

lemma demo_pin_ok: "fst (save_pin_route demo_kdf (demo_token 0) demo_pin demo_verified) = Inr (NextStep 5)"
proof -
  have exp: "(0::int) < seconds 604800" by simp
  show ?thesis
    using demo_personal_valid[of "''a@b''"] demo_pin_valid demo_pin_hash[of demo_kdf "[]"]
    by (auto simp: demo_verified_def demo_run_def reg_eval exp Let_def)
qed

theorem stored_pin_verifies_witness:
  "\<exists>r \<in> set (sessions (snd (save_pin_route demo_kdf (demo_token 0) demo_pin demo_verified))).
     \<exists>h sl salt. r_token r = demo_token 0 \<and> r_pin_hash r = Some h \<and> r_pin_salt r = Some sl \<and>
       verify_pin demo_kdf (pin demo_pin) h sl = Inr True \<and>
       verify_pin demo_kdf [49, 49, 49, 49] h sl =
         Inr (demo_kdf [49, 49, 49, 49] salt 260000 = demo_kdf [49, 50, 51, 52] salt 260000)"
proof (rule stored_pin_verifies)
  show "save_pin_route demo_kdf (demo_token 0) demo_pin demo_verified =
      (Inr (NextStep 5), snd (save_pin_route demo_kdf (demo_token 0) demo_pin demo_verified))"
    using demo_pin_ok by (metis prod.collapse)
qed (simp_all add: demo_pin_def ascii_def utf8_def utf8_char_def)

theorem pin_accepted_for_unverified_address_witness:
  "let s = reg_run demo_kdf
      [Start SELF, Personal (demo_token 0) demo_day (demo_personal ''a@b''), Background (demo_token 0),
       Verify (demo_token 1), Personal (demo_token 0) demo_day (demo_personal ''c@d''),
       Background (demo_token 0)] demo_reg
    in (\<exists>r. sessions s = [r] \<and>
        map_option rg_email (r_registrant r) = Some (email (demo_personal ''c@d'')) \<and>
        r_invite r = Some (demo_token 2) \<and> \<not> r_invite_used r) \<and>
      fst (save_pin_route demo_kdf (demo_token 0) demo_pin s) = Inr (NextStep 5)"
  by (rule pin_accepted_for_unverified_address) (rule demo_personal_valid)+

end
