(* ===== verification/Decimals.thy ===== *)
theory Decimals
  imports Icm_Port
begin

text \<open>
  Finite \<open>decimal.Decimal\<close> values: a coefficient and an exponent, with exact comparison, and
  addition and subtraction rounded half-even to the 28 digits of the default context, which raises Overflow when the
  exponent of the result passes its upper limit. The sign of zero and the lower limit of the exponent are left out.
  \<open>str\<close> and \<open>Decimal(text)\<close> are given for the texts the program exchanges.
\<close>

datatype decimal = Dec (coef: int) (expo: int)

definition scaled :: "int \<Rightarrow> decimal \<Rightarrow> int" where
  "scaled m d = coef d * 10 ^ nat (expo d - m)"

definition min_expo :: "decimal \<Rightarrow> decimal \<Rightarrow> int" where
  "min_expo a b = min (expo a) (expo b)"

definition dec_le :: "decimal \<Rightarrow> decimal \<Rightarrow> bool" where
  "dec_le a b \<longleftrightarrow> scaled (min_expo a b) a \<le> scaled (min_expo a b) b"

definition dec_less :: "decimal \<Rightarrow> decimal \<Rightarrow> bool" where
  "dec_less a b \<longleftrightarrow> scaled (min_expo a b) a < scaled (min_expo a b) b"

fun num_digits :: "nat \<Rightarrow> nat" where
  "num_digits n = (if n < 10 then 1 else Suc (num_digits (n div 10)))"

declare num_digits.simps [simp del]

definition round_half_even :: "nat \<Rightarrow> nat \<Rightarrow> nat" where
  "round_half_even k c =
     (let q = c div 10 ^ k; r = c mod 10 ^ k in
      if 10 ^ k < 2 * r \<or> (2 * r = 10 ^ k \<and> odd q) then q + 1 else q)"

definition prec :: nat where "prec = 28"

definition fix_prec :: "decimal \<Rightarrow> decimal" where
  "fix_prec d =
     (let c = nat \<bar>coef d\<bar>; n = num_digits c in
      if n \<le> prec then d
      else
        let k = n - prec; q = round_half_even k c in
        if q = 10 ^ prec then Dec (sgn (coef d) * 10 ^ (prec - 1)) (expo d + int k + 1)
        else Dec (sgn (coef d) * int q) (expo d + int k))"

text \<open>\<open>Emax\<close> of the default context: the largest exponent of the first digit; the trap for Overflow is enabled.\<close>

definition Emax :: int where "Emax = 999999"

definition overflows :: "decimal \<Rightarrow> bool" where
  "overflows d \<longleftrightarrow> coef d \<noteq> 0 \<and> Emax < expo d + int (num_digits (nat \<bar>coef d\<bar>)) - 1"

definition in_context :: "decimal \<Rightarrow> decimal res" where
  "in_context d = (let r = fix_prec d in if overflows r then Inl DecimalOverflowExn else Inr r)"

definition dec_add :: "decimal \<Rightarrow> decimal \<Rightarrow> decimal res" where
  "dec_add a b =
     in_context (Dec (scaled (min_expo a b) a + scaled (min_expo a b) b) (min_expo a b))"

definition dec_sub :: "decimal \<Rightarrow> decimal \<Rightarrow> decimal res" where
  "dec_sub a b =
     in_context (Dec (scaled (min_expo a b) a - scaled (min_expo a b) b) (min_expo a b))"

section \<open>Amounts of money\<close>

text \<open>
  An amount with at most two decimals, read in cents. Amounts below \<open>10 ^ 26\<close> dollars are added
  and subtracted exactly.
\<close>

definition money :: "decimal \<Rightarrow> bool" where
  "money d \<longleftrightarrow> - 2 \<le> expo d"

definition cents :: "decimal \<Rightarrow> int" where
  "cents d = coef d * 10 ^ nat (expo d + 2)"

lemma num_digits_bound: "c < 10 ^ k \<Longrightarrow> 0 < k \<Longrightarrow> num_digits c \<le> k"
proof (induction c arbitrary: k rule: num_digits.induct)
  case (1 n)
  show ?case
  proof (cases "n < 10")
    case True
    then show ?thesis using "1.prems" by (simp add: num_digits.simps)
  next
    case False
    then obtain j where k: "k = Suc j" "0 < j"
      using "1.prems" by (cases k; cases "k - 1") auto
    then have "n div 10 < 10 ^ j" using "1.prems" by auto
    then show ?thesis using "1.IH"[OF False _ k(2)] False k(1) by (subst num_digits.simps) simp
  qed
qed

lemma fix_prec_exact: "\<bar>coef d\<bar> < 10 ^ prec \<Longrightarrow> fix_prec d = d"
proof -
  assume "\<bar>coef d\<bar> < 10 ^ prec"
  then have "nat \<bar>coef d\<bar> < 10 ^ prec" by (simp add: nat_less_iff)
  then have "num_digits (nat \<bar>coef d\<bar>) \<le> prec"
    by (rule num_digits_bound) (simp add: prec_def)
  then show ?thesis by (simp add: fix_prec_def Let_def)
qed

lemma cents_scaled:
  assumes "money d" and "m \<le> expo d" and "- 2 \<le> m"
  shows "cents d = scaled m d * 10 ^ nat (m + 2)"
proof -
  have "nat (expo d + 2) = nat (expo d - m) + nat (m + 2)" using assms by simp
  then show ?thesis by (simp add: cents_def scaled_def power_add)
qed

lemma scaled_bound: "- 2 \<le> m \<Longrightarrow> \<bar>x\<bar> \<le> \<bar>x * 10 ^ nat (m + 2)\<bar>" for x :: int
proof -
  have "1 * \<bar>x\<bar> \<le> 10 ^ nat (m + 2) * \<bar>x\<bar>" by (intro mult_right_mono) simp_all
  then show ?thesis by (simp add: abs_mult mult.commute)
qed

text \<open>An amount of less than 28 digits of cents is in the context, as its exponent is small.\<close>

lemma in_context_exact:
  assumes "- 2 \<le> expo d" and "\<bar>cents d\<bar> < 10 ^ prec"
  shows "in_context d = Inr d"
proof -
  have "\<bar>coef d\<bar> \<le> \<bar>cents d\<bar>" using scaled_bound[of "expo d" "coef d"] assms(1) by (simp add: cents_def)
  then have small: "\<bar>coef d\<bar> < 10 ^ prec" using assms(2) by linarith
  have fits: "\<not> overflows d" if "coef d \<noteq> 0"
  proof -
    have "(10 :: int) ^ nat (expo d + 2) \<le> \<bar>coef d\<bar> * 10 ^ nat (expo d + 2)" using that by simp
    also have "\<dots> = \<bar>cents d\<bar>" by (simp add: cents_def abs_mult)
    finally have "(10 :: int) ^ nat (expo d + 2) < 10 ^ prec" using assms(2) by linarith
    then have "nat (expo d + 2) < prec" by (simp add: power_strict_increasing_iff)
    moreover have "num_digits (nat \<bar>coef d\<bar>) \<le> prec"
      by (rule num_digits_bound) (use small in \<open>simp_all add: nat_less_iff prec_def\<close>)
    ultimately have "expo d + int (num_digits (nat \<bar>coef d\<bar>)) - 1 \<le> Emax"
      by (simp add: Emax_def prec_def)
    then show ?thesis by (simp add: overflows_def)
  qed
  have "\<not> overflows d" using fits by (cases "coef d = 0") (simp_all add: overflows_def)
  then show ?thesis using fix_prec_exact[OF small] by (simp add: in_context_def)
qed

lemma money_min: "money a \<Longrightarrow> money b \<Longrightarrow> - 2 \<le> min_expo a b"
  by (simp add: money_def min_expo_def)

lemma dec_add_exact:
  assumes "money a" and "money b" and "\<bar>cents a + cents b\<bar> < 10 ^ prec"
  shows "\<exists>d. dec_add a b = Inr d \<and> money d \<and> cents d = cents a + cents b"
proof -
  let ?m = "min_expo a b"
  have m: "- 2 \<le> ?m" using assms money_min by blast
  have sum: "cents a + cents b = (scaled ?m a + scaled ?m b) * 10 ^ nat (?m + 2)"
    using cents_scaled[OF assms(1) _ m] cents_scaled[OF assms(2) _ m]
    by (simp add: min_expo_def distrib_right)
  let ?d = "Dec (scaled ?m a + scaled ?m b) ?m"
  have c: "cents ?d = cents a + cents b" using sum by (simp add: cents_def)
  then have "dec_add a b = Inr ?d"
    unfolding dec_add_def by (intro in_context_exact) (use m assms(3) in simp_all)
  then show ?thesis using m c by (simp add: money_def)
qed

lemma dec_sub_exact:
  assumes "money a" and "money b" and "\<bar>cents a - cents b\<bar> < 10 ^ prec"
  shows "\<exists>d. dec_sub a b = Inr d \<and> money d \<and> cents d = cents a - cents b"
proof -
  let ?m = "min_expo a b"
  have m: "- 2 \<le> ?m" using assms money_min by blast
  have diff: "cents a - cents b = (scaled ?m a - scaled ?m b) * 10 ^ nat (?m + 2)"
    using cents_scaled[OF assms(1) _ m] cents_scaled[OF assms(2) _ m]
    by (simp add: min_expo_def left_diff_distrib)
  let ?d = "Dec (scaled ?m a - scaled ?m b) ?m"
  have c: "cents ?d = cents a - cents b" using diff by (simp add: cents_def)
  then have "dec_sub a b = Inr ?d"
    unfolding dec_sub_def by (intro in_context_exact) (use m assms(3) in simp_all)
  then show ?thesis using m c by (simp add: money_def)
qed

lemma dec_compare_cents:
  assumes "money a" and "money b"
  shows "dec_le a b \<longleftrightarrow> cents a \<le> cents b" and "dec_less a b \<longleftrightarrow> cents a < cents b"
proof -
  let ?m = "min_expo a b"
  have m: "- 2 \<le> ?m" using assms money_min by blast
  have "cents a = scaled ?m a * 10 ^ nat (?m + 2)" "cents b = scaled ?m b * 10 ^ nat (?m + 2)"
    using cents_scaled[OF assms(1) _ m] cents_scaled[OF assms(2) _ m] by (simp_all add: min_expo_def)
  then show "dec_le a b \<longleftrightarrow> cents a \<le> cents b" "dec_less a b \<longleftrightarrow> cents a < cents b"
    by (simp_all add: dec_le_def dec_less_def)
qed

section \<open>Text\<close>

text \<open>\<open>str(d)\<close>: plain notation down to six places after the point, else scientific.\<close>

definition show_signed :: "int \<Rightarrow> string" where
  "show_signed i = (if i < 0 then CHR ''-'' # show_nat (nat (- i)) else CHR ''+'' # show_nat (nat i))"

text \<open>The digits with the point at place \<open>dot\<close>.\<close>

definition mantissa :: "string \<Rightarrow> int \<Rightarrow> string" where
  "mantissa s dot =
     (if dot \<le> 0 then ''0.'' @ replicate (nat (- dot)) (CHR ''0'') @ s
      else if int (length s) \<le> dot then s @ replicate (nat (dot - int (length s))) (CHR ''0'')
      else take (nat dot) s @ CHR ''.'' # drop (nat dot) s)"

definition dec_str :: "decimal \<Rightarrow> string" where
  "dec_str d =
     (let s = show_nat (nat \<bar>coef d\<bar>);
          left = expo d + int (length s);
          dot = (if expo d \<le> 0 \<and> - 6 < left then left else 1);
          ex = (if left = dot then [] else CHR ''E'' # show_signed (left - dot))
      in (if coef d < 0 then CHR ''-'' # mantissa s dot @ ex else mantissa s dot @ ex))"

definition dec_digit :: "char \<Rightarrow> bool" where
  "dec_digit c \<longleftrightarrow> (48::nat) \<le> of_char c \<and> (of_char c :: nat) \<le> 57"

definition read_nat :: "string \<Rightarrow> nat" where
  "read_nat s = foldl (\<lambda>a c. 10 * a + (of_char c - 48)) 0 s"

definition read_digits :: "string \<Rightarrow> nat option" where
  "read_digits s = (if s \<noteq> [] \<and> list_all dec_digit s then Some (read_nat s) else None)"

definition read_signed :: "string \<Rightarrow> int option" where
  "read_signed s =
     (case s of [] \<Rightarrow> None
      | c # cs \<Rightarrow>
          if c = CHR ''-'' then map_option (\<lambda>n. - int n) (read_digits cs)
          else if c = CHR ''+'' then map_option int (read_digits cs)
          else map_option int (read_digits s))"

definition read_mantissa :: "string \<Rightarrow> (nat \<times> nat) option" where
  "read_mantissa s =
     (let ip = takeWhile (\<lambda>c. c \<noteq> CHR ''.'') s; fp = drop 1 (dropWhile (\<lambda>c. c \<noteq> CHR ''.'') s) in
      map_option (\<lambda>n. (n, length fp)) (read_digits (ip @ fp)))"

definition read_unsigned :: "string \<Rightarrow> (nat \<times> int) option" where
  "read_unsigned s =
     (let m = takeWhile (\<lambda>c. c \<noteq> CHR ''E'') s; e = dropWhile (\<lambda>c. c \<noteq> CHR ''E'') s in
      (case (read_mantissa m, if e = [] then Some 0 else read_signed (drop 1 e)) of
         (Some (n, f), Some x) \<Rightarrow> Some (n, x - int f)
       | _ \<Rightarrow> None))"

text \<open>\<open>Decimal(text)\<close>; any other text raises InvalidOperation.\<close>

definition dec_parse :: "string \<Rightarrow> decimal option" where
  "dec_parse s =
     (case s of [] \<Rightarrow> None
      | c # cs \<Rightarrow>
          if c = CHR ''-'' then map_option (\<lambda>(n, x). Dec (- int n) x) (read_unsigned cs)
          else map_option (\<lambda>(n, x). Dec (int n) x) (read_unsigned s))"

lemma show_nat_digits: "list_all dec_digit (show_nat n) \<and> show_nat n \<noteq> []"
proof (induction n rule: show_nat.induct)
  case (1 n)
  have "dec_digit (char_of (48 + m))" if "m < 10" for m :: nat
    using that by (simp add: dec_digit_def of_char_of)
  then show ?case using 1 by (cases "n < 10") (simp_all add: show_nat.simps[of n])
qed

lemma foldl_digits:
  fixes v :: "'c \<Rightarrow> nat"
  shows "foldl (\<lambda>a c. 10 * a + v c) x b = x * 10 ^ length b + foldl (\<lambda>a c. 10 * a + v c) 0 b"
proof (induction b arbitrary: x)
  case (Cons c b)
  have "foldl (\<lambda>a c. 10 * a + v c) x (c # b) = (10 * x + v c) * 10 ^ length b + foldl (\<lambda>a c. 10 * a + v c) 0 b"
    unfolding foldl.simps by (rule Cons)
  moreover have "foldl (\<lambda>a c. 10 * a + v c) 0 (c # b) = (10 * 0 + v c) * 10 ^ length b + foldl (\<lambda>a c. 10 * a + v c) 0 b"
    unfolding foldl.simps by (rule Cons)
  ultimately show ?case by (simp add: algebra_simps)
qed simp

lemma read_nat_append: "read_nat (a @ b) = read_nat a * 10 ^ length b + read_nat b"
  unfolding read_nat_def foldl_append by (rule foldl_digits)

lemma read_show_nat: "read_nat (show_nat n) = n"
proof (induction n rule: show_nat.induct)
  case (1 n)
  have "read_nat [char_of (48 + m)] = m" if "m < 10" for m :: nat
    using that by (simp add: read_nat_def of_char_of)
  then show ?case using 1 by (cases "n < 10") (simp_all add: show_nat.simps[of n] read_nat_append)
qed

lemma read_digits_show [simp]: "read_digits (show_nat n) = Some n"
  using show_nat_digits by (simp add: read_digits_def read_show_nat)

lemma read_signed_show: "read_signed (show_signed i) = Some i"
  by (simp add: read_signed_def show_signed_def)

lemma zeros: "list_all dec_digit (replicate k (CHR ''0''))" "read_nat (replicate k (CHR ''0'') @ s) = read_nat s"
proof -
  show "list_all dec_digit (replicate k (CHR ''0''))" by (simp add: list_all_iff dec_digit_def)
  show "read_nat (replicate k (CHR ''0'') @ s) = read_nat s"
    by (induction k) (simp_all add: read_nat_def)
qed

lemma digit_not_special: "dec_digit c \<Longrightarrow> c \<noteq> CHR ''.'' \<and> c \<noteq> CHR ''E'' \<and> c \<noteq> CHR ''-'' \<and> c \<noteq> CHR ''+''"
  by (auto simp: dec_digit_def)

lemma takeWhile_digits:
  assumes "list_all dec_digit s" and "x \<in> {CHR ''.'', CHR ''E''}"
  shows "takeWhile (\<lambda>c. c \<noteq> x) s = s" and "dropWhile (\<lambda>c. c \<noteq> x) s = []"
    and "takeWhile (\<lambda>c. c \<noteq> x) (s @ t) = s @ takeWhile (\<lambda>c. c \<noteq> x) t"
    and "dropWhile (\<lambda>c. c \<noteq> x) (s @ t) = dropWhile (\<lambda>c. c \<noteq> x) t"
proof -
  have ne: "\<forall>c \<in> set s. c \<noteq> x" using assms digit_not_special by (auto simp: list_all_iff)
  show "takeWhile (\<lambda>c. c \<noteq> x) s = s" "dropWhile (\<lambda>c. c \<noteq> x) s = []"
    using ne by (auto simp: takeWhile_eq_all_conv dropWhile_eq_Nil_conv)
  show "takeWhile (\<lambda>c. c \<noteq> x) (s @ t) = s @ takeWhile (\<lambda>c. c \<noteq> x) t"
    "dropWhile (\<lambda>c. c \<noteq> x) (s @ t) = dropWhile (\<lambda>c. c \<noteq> x) t"
    using ne by (simp_all add: takeWhile_append2 dropWhile_append2)
qed

lemma read_mantissa_point:
  assumes "list_all dec_digit a" and "list_all dec_digit b" and "a \<noteq> []"
  shows "read_mantissa (a @ CHR ''.'' # b) = Some (read_nat (a @ b), length b)"
  using assms by (simp add: read_mantissa_def Let_def takeWhile_digits read_digits_def)

lemma read_mantissa_plain:
  assumes "list_all dec_digit a" and "a \<noteq> []"
  shows "read_mantissa a = Some (read_nat a, 0)"
  using assms by (simp add: read_mantissa_def Let_def takeWhile_digits read_digits_def)

lemma read_unsigned_plain:
  assumes "read_mantissa m = Some (n, f)" and "\<forall>c \<in> set m. c \<noteq> CHR ''E''"
  shows "read_unsigned m = Some (n, - int f)"
    and "read_unsigned (m @ CHR ''E'' # show_signed x) = Some (n, x - int f)"
proof -
  have "takeWhile (\<lambda>c. c \<noteq> CHR ''E'') m = m" "dropWhile (\<lambda>c. c \<noteq> CHR ''E'') m = []"
    using assms(2) by (auto simp: takeWhile_eq_all_conv dropWhile_eq_Nil_conv)
  then show "read_unsigned m = Some (n, - int f)"
    using assms(1) unfolding read_unsigned_def Let_def by (simp only:) simp
  have "takeWhile (\<lambda>c. c \<noteq> CHR ''E'') (m @ CHR ''E'' # show_signed x) = m"
    "dropWhile (\<lambda>c. c \<noteq> CHR ''E'') (m @ CHR ''E'' # show_signed x) = CHR ''E'' # show_signed x"
    using assms(2) by (simp_all add: takeWhile_append2 dropWhile_append2)
  then show "read_unsigned (m @ CHR ''E'' # show_signed x) = Some (n, x - int f)"
    using assms(1) unfolding read_unsigned_def Let_def by (simp only:) (simp add: read_signed_show)
qed

lemma read_mantissa_mantissa:
  assumes "list_all dec_digit s" and "s \<noteq> []" and "dot \<le> int (length s)"
  shows "read_mantissa (mantissa s dot) = Some (read_nat s, nat (int (length s) - dot)) \<and>
    (\<forall>c \<in> set (mantissa s dot). c \<noteq> CHR ''E'') \<and> (\<exists>c cs. mantissa s dot = c # cs \<and> c \<noteq> CHR ''-'')"
proof -
  have ne: "\<forall>c \<in> set s. c \<noteq> CHR ''E'' \<and> c \<noteq> CHR ''-''"
    using assms(1) digit_not_special by (auto simp: list_all_iff)
  consider (zero) "dot \<le> 0" | (mid) "0 < dot" "dot < int (length s)" | (full) "0 < dot" "dot = int (length s)"
    using assms(3) by linarith
  then show ?thesis
  proof cases
    case zero
    define z where "z = replicate (nat (- dot)) (CHR ''0'') @ s"
    have mant: "mantissa s dot = ''0'' @ CHR ''.'' # z"
      using zero by (simp add: mantissa_def z_def)
    have z: "list_all dec_digit z" using assms(1) zeros(1) by (simp add: z_def)
    have "read_mantissa (''0'' @ CHR ''.'' # z) = Some (read_nat (''0'' @ z), length z)"
      by (rule read_mantissa_point[OF _ z]) (simp_all add: dec_digit_def)
    moreover have "read_nat (''0'' @ z) = read_nat s"
    proof -
      have "''0'' @ z = replicate (Suc (nat (- dot))) (CHR ''0'') @ s" by (simp add: z_def)
      then show ?thesis by (simp only: zeros(2))
    qed
    moreover have "length z = nat (int (length s) - dot)" using zero by (simp add: z_def)
    ultimately have "read_mantissa (mantissa s dot) = Some (read_nat s, nat (int (length s) - dot))"
      unfolding mant by (simp only:)
    moreover have "\<forall>c \<in> set z. c \<noteq> CHR ''E''" using z digit_not_special by (auto simp: list_all_iff)
    ultimately show ?thesis unfolding mant by simp
  next
    case mid
    have "list_all dec_digit (take (nat dot) s)" "list_all dec_digit (drop (nat dot) s)"
      using assms(1) by (auto simp: list_all_iff dest: in_set_takeD in_set_dropD)
    moreover have "take (nat dot) s \<noteq> []" using mid assms(2) by simp
    ultimately have "read_mantissa (mantissa s dot) = Some (read_nat s, length s - nat dot)"
      using mid by (simp add: mantissa_def read_mantissa_point)
    moreover have "\<exists>c cs. take (nat dot) s = c # cs \<and> c \<noteq> CHR ''-''"
    proof (cases "take (nat dot) s")
      case Nil
      with \<open>take (nat dot) s \<noteq> []\<close> show ?thesis by blast
    next
      case (Cons c cs)
      then have "c \<in> set s" using in_set_takeD[of c "nat dot" s] by simp
      then show ?thesis using Cons ne by blast
    qed
    moreover have "length s - nat dot = nat (int (length s) - dot)" using mid by simp
    moreover have "\<forall>c \<in> set (mantissa s dot). c \<noteq> CHR ''E''"
      using mid ne by (auto simp: mantissa_def dest: in_set_takeD in_set_dropD)
    moreover have "mantissa s dot = take (nat dot) s @ CHR ''.'' # drop (nat dot) s"
      using mid by (simp add: mantissa_def)
    ultimately show ?thesis by auto
  next
    case full
    then show ?thesis using assms ne
      by (cases s) (auto simp: mantissa_def read_mantissa_plain)
  qed
qed

text \<open>Writing a decimal and reading it back is the identity.\<close>

lemma dec_parse_str: "dec_parse (dec_str d) = Some d"
proof -
  define s where "s = show_nat (nat \<bar>coef d\<bar>)"
  define left where "left = expo d + int (length s)"
  define dot where "dot = (if expo d \<le> 0 \<and> - 6 < left then left else 1)"
  define ex where "ex = (if left = dot then [] else CHR ''E'' # show_signed (left - dot))"
  have s: "list_all dec_digit s" "s \<noteq> []" "read_nat s = nat \<bar>coef d\<bar>"
    using show_nat_digits by (simp_all add: s_def read_show_nat)
  then have "1 \<le> length s" by (cases s) simp_all
  then have dot: "dot \<le> int (length s)" by (simp add: dot_def left_def)
  note m = read_mantissa_mantissa[OF s(1,2) dot]
  have "read_unsigned (mantissa s dot @ ex) = Some (nat \<bar>coef d\<bar>, expo d)"
    using m s(3) dot read_unsigned_plain[of "mantissa s dot" "nat \<bar>coef d\<bar>" "nat (int (length s) - dot)"]
    by (auto simp: ex_def left_def)
  moreover have "dec_str d = (if coef d < 0 then CHR ''-'' # mantissa s dot @ ex else mantissa s dot @ ex)"
    unfolding dec_str_def Let_def s_def[symmetric] left_def[symmetric] dot_def[symmetric] ex_def[symmetric]
    by (rule refl)
  moreover obtain c cs where "mantissa s dot = c # cs" "c \<noteq> CHR ''-''" using m by blast
  ultimately show ?thesis by (cases d) (auto simp: dec_parse_def)
qed

end
