(* ===== verification/Redis_Store.thy ===== *)
theory Redis_Store
  imports Icm_Port "HOL-Library.Sublist"
begin

text \<open>
  Redis as the services use it (\<open>get\<close>, \<open>setex\<close>, \<open>delete\<close>, \<open>scan_iter\<close>) and the key names of
  \<open>app/cache/keys.py\<close>.
  \<^item> The store is a parameter; the locale \<open>kv_store\<close> states the documented behaviour of the four
    commands, expiry included. \<open>ttl_ops\<close> is a store with that behaviour.
  \<^item> A stored text is represented by the JSON value it denotes: everything the program stores is
    the \<open>json.dumps\<close> or \<open>model_dump_json\<close> of a value, which reading gives back.
  \<^item> Each command may fail with RedisError: a stream says which ones do.
\<close>

section \<open>The commands\<close>

record 'r kv_ops =
  kget :: "instant \<Rightarrow> string \<Rightarrow> 'r \<Rightarrow> json option"
  ksetex :: "instant \<Rightarrow> string \<Rightarrow> int \<Rightarrow> json \<Rightarrow> 'r \<Rightarrow> 'r"
  kdel :: "string list \<Rightarrow> 'r \<Rightarrow> 'r"
  kscan :: "instant \<Rightarrow> string \<Rightarrow> 'r \<Rightarrow> string list"

locale kv_store =
  fixes ops :: "'r kv_ops"
  assumes get_setex: "0 < ttl \<Longrightarrow> kget ops now' k' (ksetex ops now k ttl v s) =
      (if k' = k then (if now' < now + seconds ttl then Some v else None) else kget ops now' k' s)"
    and get_del: "kget ops now k (kdel ops ks s) = (if k \<in> set ks then None else kget ops now k s)"
    and scan: "set (kscan ops now p s) = {k. prefix p k \<and> kget ops now k s \<noteq> None}"
begin

lemma setex_get_before:
  "0 < ttl \<Longrightarrow> now' < now + seconds ttl \<Longrightarrow> kget ops now' k (ksetex ops now k ttl v s) = Some v"
  by (simp add: get_setex)

lemma setex_get_after:
  "0 < ttl \<Longrightarrow> now + seconds ttl \<le> now' \<Longrightarrow> kget ops now' k (ksetex ops now k ttl v s) = None"
  by (simp add: get_setex)

lemma setex_other:
  "0 < ttl \<Longrightarrow> k' \<noteq> k \<Longrightarrow> kget ops now' k' (ksetex ops now k ttl v s) = kget ops now' k' s"
  by (simp add: get_setex)

text \<open>Deleting what a scan found leaves no live key of the prefix and touches no other key.\<close>

lemma clear_prefix:
  "kget ops now k (kdel ops (kscan ops now p s) s) = (if prefix p k then None else kget ops now k s)"
  by (auto simp: get_del scan)

end

text \<open>A store of entries with their expiry time.\<close>

type_synonym ttl_store = "(string \<times> json \<times> instant) list"

definition ttl_get :: "instant \<Rightarrow> string \<Rightarrow> ttl_store \<Rightarrow> json option" where
  "ttl_get now k s =
     (case map_of s k of None \<Rightarrow> None | Some (v, ex) \<Rightarrow> if now < ex then Some v else None)"

definition ttl_ops :: "ttl_store kv_ops" where
  "ttl_ops =
     \<lparr>kget = ttl_get,
      ksetex = (\<lambda>now k ttl v s. (k, v, now + seconds ttl) # s),
      kdel = (\<lambda>ks s. filter (\<lambda>e. fst e \<notin> set ks) s),
      kscan = (\<lambda>now p s. filter (\<lambda>k. ttl_get now k s \<noteq> None) (filter (prefix p) (map fst s)))\<rparr>"

lemma map_of_filter_keys:
  "map_of (filter (\<lambda>e. fst e \<notin> A) s) k = (if k \<in> A then None else map_of s k)"
  by (induction s) auto

interpretation ttl: kv_store ttl_ops
proof (unfold_locales, goal_cases)
  case (1 ttl now' k' now k v s)
  then show ?case by (simp add: ttl_ops_def ttl_get_def)
next
  case (2 now k ks s)
  then show ?case by (simp add: ttl_ops_def ttl_get_def map_of_filter_keys)
next
  case (3 now p s)
  have "ttl_get now k s \<noteq> None \<Longrightarrow> k \<in> set (map fst s)" for k
    by (auto simp: ttl_get_def split: option.splits dest!: map_of_SomeD) force
  then show ?case by (auto simp: ttl_ops_def)
qed

section \<open>Calls\<close>

record ('i, 'r) kvbase = "'i base" +
  kv :: 'r
  kv_up :: "nat \<Rightarrow> bool"
  kv_ix :: nat

text \<open>One command: it reads the store's clock, fails or runs.\<close>

definition redis_call :: "(instant \<Rightarrow> 'r \<Rightarrow> 'a \<times> 'r) \<Rightarrow> (('i, 'r, 'z) kvbase_scheme, 'a) io" where
  "redis_call f s =
     (let now = clock s (ticks s); s1 = s\<lparr>ticks := Suc (ticks s), kv_ix := Suc (kv_ix s)\<rparr> in
      if kv_up s (kv_ix s) then (Inr (fst (f now (kv s))), s1\<lparr>kv := snd (f now (kv s))\<rparr>)
      else (Inl RedisExn, s1))"

definition redis_get :: "'r kv_ops \<Rightarrow> string \<Rightarrow> (('i, 'r, 'z) kvbase_scheme, json option) io" where
  "redis_get ops k = redis_call (\<lambda>now r. (kget ops now k r, r))"

definition redis_setex :: "'r kv_ops \<Rightarrow> string \<Rightarrow> int \<Rightarrow> json \<Rightarrow> (('i, 'r, 'z) kvbase_scheme, unit) io" where
  "redis_setex ops k ttl v = redis_call (\<lambda>now r. ((), ksetex ops now k ttl v r))"

definition redis_delete :: "'r kv_ops \<Rightarrow> string list \<Rightarrow> (('i, 'r, 'z) kvbase_scheme, unit) io" where
  "redis_delete ops ks = redis_call (\<lambda>now r. ((), kdel ops ks r))"

definition redis_scan :: "'r kv_ops \<Rightarrow> string \<Rightarrow> (('i, 'r, 'z) kvbase_scheme, string list) io" where
  "redis_scan ops p = redis_call (\<lambda>now r. (kscan ops now p r, r))"

lemmas redis_defs = redis_get_def redis_setex_def redis_delete_def redis_scan_def redis_call_def

section \<open>Keys\<close>

definition SESSION_TTL :: int where "SESSION_TTL = 900"
definition ICM_CASE_TTL :: int where "ICM_CASE_TTL = 300"
definition ICM_PAYMENT_TTL :: int where "ICM_PAYMENT_TTL = 3600"
definition ICM_CHEQUE_SCHEDULE_TTL :: int where "ICM_CHEQUE_SCHEDULE_TTL = 3600"
definition ICM_BANNERS_TTL :: int where "ICM_BANNERS_TTL = 300"
definition SUPPORT_VIEW_TTL :: int where "SUPPORT_VIEW_TTL = 900"
definition PIN_RESET_TTL :: int where "PIN_RESET_TTL = 3600"

definition session_key :: "string \<Rightarrow> string" where
  "session_key user_id = ''session:'' @ user_id"

definition icm_case_key :: "string \<Rightarrow> string" where
  "icm_case_key case_number = ''icm_cache:case:'' @ case_number"

definition icm_payment_key :: "string \<Rightarrow> string" where
  "icm_payment_key case_number = ''icm_cache:payment:'' @ case_number"

definition icm_cheque_schedule_key :: "string \<Rightarrow> string" where
  "icm_cheque_schedule_key case_number = ''icm_cache:cheque_schedule:'' @ case_number"

definition icm_banners_key :: "string \<Rightarrow> string" where
  "icm_banners_key case_number = ''icm_cache:banners:'' @ case_number"

definition support_view_key :: "string \<Rightarrow> string" where
  "support_view_key worker_idir = ''support_view:'' @ worker_idir"

definition pin_reset_key :: "string \<Rightarrow> string" where
  "pin_reset_key profile_id = ''pin_reset:'' @ profile_id"

lemmas key_defs =
  session_key_def icm_case_key_def icm_payment_key_def icm_cheque_schedule_key_def icm_banners_key_def
  support_view_key_def pin_reset_key_def

text \<open>The seven namespaces: no key of one is a key of another, and each function is injective.\<close>

definition key_functions :: "(string \<Rightarrow> string) list" where
  "key_functions =
     [session_key, icm_case_key, icm_payment_key, icm_cheque_schedule_key, icm_banners_key,
      support_view_key, pin_reset_key]"

lemma less_7: "(i::nat) < 7 \<longleftrightarrow> i \<in> {0, 1, 2, 3, 4, 5, 6}"
  by auto

text \<open>
  The cache keys never collide: two keys built by the functions of the key module are equal only
  if the same function built them from the same argument, whatever the arguments contain.
\<close>

theorem cache_keys_injective:
  assumes "i < length key_functions" and "j < length key_functions"
    and "(key_functions ! i) x = (key_functions ! j) y"
  shows "i = j \<and> x = y"
proof -
  have len: "length key_functions = 7" by (simp add: key_functions_def)
  have "i \<in> {0, 1, 2, 3, 4, 5, 6}" "j \<in> {0, 1, 2, 3, 4, 5, 6}"
    using assms(1,2) unfolding len less_7 by blast+
  then show ?thesis using assms(3)
    by (elim insertE emptyE; simp add: key_functions_def key_defs)
qed

theorem cache_keys_injective_witness: "(1::nat) = 1 \<and> ''7'' = ''7''"
  by (rule cache_keys_injective) (simp_all add: key_functions_def)

end
