(* ===== verification/Eligibility.thy ===== *)
theory Eligibility
  imports Decimals Redis_Store Dates "HOL-Library.List_Lexorder"
begin

text \<open>
  The eligibility estimator: \<open>app/domains/eligibility/models.py\<close> (requests, rows, responses),
  \<open>calculator.py\<close> (the rules BR-D9-01 to BR-D9-09), \<open>rate_table_service.py\<close> (rates from the
  database through a Redis cache) and \<open>app/routers/eligibility.py\<close> (the fallback tables and the
  route). The rates that migration 0003 seeds are \<open>seed_rates\<close> and \<open>seed_limits\<close>.
\<close>

section \<open>Requests and rows\<close>

datatype relationship_status = SINGLE | COUPLE

record elig_request =
  relationship_status :: relationship_status
  num_dependants :: int
  applicant_pwd :: bool
  spouse_pwd :: bool
  monthly_income :: decimal
  spouse_monthly_income :: decimal
  primary_vehicle_value :: decimal
  other_vehicle_value :: decimal
  other_asset_value :: decimal

record elig_response =
  eligible :: bool
  estimated_amount :: decimal
  ineligibility_reason :: "string option"
  client_type :: char

record rate_row =
  rate_family_size :: int
  type_a :: decimal
  type_b :: decimal
  type_c :: decimal
  type_d :: decimal
  type_e :: decimal

record asset_row =
  limit_type :: string
  limit :: decimal

abbreviation dec_zero :: decimal where
  "dec_zero \<equiv> Dec 0 0"

definition spouse_fields_require_couple :: "elig_request \<Rightarrow> elig_request res" where
  "spouse_fields_require_couple r =
     (if relationship_status r = SINGLE then
        (if spouse_pwd r then Inl ValidationExn
         else if dec_less dec_zero (spouse_monthly_income r) then Inl ValidationExn
         else Inr r)
      else Inr r)"

text \<open>The \<open>Field\<close> bounds, then the model validator.\<close>

definition validate_elig :: "elig_request \<Rightarrow> elig_request res" where
  "validate_elig r =
     (if 0 \<le> num_dependants r \<and> num_dependants r \<le> 20 \<and>
         list_all (dec_le dec_zero) [monthly_income r, spouse_monthly_income r, primary_vehicle_value r,
           other_vehicle_value r, other_asset_value r]
      then spouse_fields_require_couple r else Inl ValidationExn)"

definition family_size :: "elig_request \<Rightarrow> int" where
  "family_size r = (if relationship_status r = COUPLE then 2 else 1) + num_dependants r"

definition total_assets :: "elig_request \<Rightarrow> decimal res" where
  "total_assets r =
     bind_res (dec_add (primary_vehicle_value r) (other_vehicle_value r)) (\<lambda>v. dec_add v (other_asset_value r))"

definition total_income :: "elig_request \<Rightarrow> decimal res" where
  "total_income r = dec_add (monthly_income r) (spouse_monthly_income r)"

section \<open>The calculator\<close>

definition MAX_RATE_TABLE_FAMILY_SIZE :: int where
  "MAX_RATE_TABLE_FAMILY_SIZE = 7"

text \<open>The constructor's dict comprehensions: the last row of a key wins.\<close>

record calculator =
  income_rates :: "int \<Rightarrow> rate_row option"
  asset_limits :: "string \<Rightarrow> decimal option"

definition calculator_init :: "rate_row list \<Rightarrow> asset_row list \<Rightarrow> calculator" where
  "calculator_init rates limits =
     \<lparr>income_rates = map_of (rev (map (\<lambda>r. (rate_family_size r, r)) rates)),
      asset_limits = map_of (rev (map (\<lambda>r. (limit_type r, limit r)) limits))\<rparr>"

definition classify_client_type :: "elig_request \<Rightarrow> char" where
  "classify_client_type r =
     (let has_dependants = 0 < num_dependants r; kp = applicant_pwd r; sp = spouse_pwd r in
      if relationship_status r = COUPLE then
        (if kp \<and> sp then CHR ''E'' else if kp \<or> sp then CHR ''C'' else CHR ''A'')
      else if has_dependants then (if kp then CHR ''D'' else CHR ''B'')
      else (if kp then CHR ''C'' else CHR ''A''))"

definition asset_limit_category :: "elig_request \<Rightarrow> string" where
  "asset_limit_category r =
     (let has_dependants = 0 < num_dependants r; kp = applicant_pwd r; sp = spouse_pwd r in
      if kp \<and> sp then ''D''
      else if kp \<or> sp then ''C''
      else if relationship_status r = COUPLE \<or> has_dependants then ''B''
      else ''A'')"

text \<open>\<open>getattr(row, f"type_{client_type.lower()}")\<close>.\<close>

definition rate_of_type :: "rate_row \<Rightarrow> char \<Rightarrow> decimal res" where
  "rate_of_type row t =
     (if t = CHR ''A'' then Inr (type_a row) else if t = CHR ''B'' then Inr (type_b row)
      else if t = CHR ''C'' then Inr (type_c row) else if t = CHR ''D'' then Inr (type_d row)
      else if t = CHR ''E'' then Inr (type_e row) else Inl AttributeExn)"

definition get_income_limit :: "calculator \<Rightarrow> char \<Rightarrow> int \<Rightarrow> decimal res" where
  "get_income_limit c t n =
     (case income_rates c (min n MAX_RATE_TABLE_FAMILY_SIZE) of
        None \<Rightarrow> Inl KeyExn
      | Some row \<Rightarrow> rate_of_type row t)"

definition ineligible :: "string \<Rightarrow> char \<Rightarrow> elig_response" where
  "ineligible reason t =
     \<lparr>eligible = False, estimated_amount = Dec 0 (- 2), ineligibility_reason = Some reason, client_type = t\<rparr>"

definition calculate :: "calculator \<Rightarrow> elig_request \<Rightarrow> elig_response res" where
  "calculate c r =
     (let t = classify_client_type r in
      case asset_limits c (asset_limit_category r) of
        None \<Rightarrow> Inl KeyExn
      | Some asset_limit \<Rightarrow>
          bind_res (total_assets r) (\<lambda>assets.
          if dec_less asset_limit assets then Inr (ineligible ''assets_exceed_limit'' t)
          else
            bind_res (get_income_limit c t (family_size r)) (\<lambda>income_limit.
            bind_res (total_income r) (\<lambda>income.
            bind_res (dec_sub income_limit income) (\<lambda>benefit.
            if dec_le benefit dec_zero then Inr (ineligible ''income_exceeds_limit'' t)
            else Inr \<lparr>eligible = True, estimated_amount = benefit, ineligibility_reason = None, client_type = t\<rparr>)))))"

section \<open>Fallback tables and seed\<close>

definition rate :: "int \<Rightarrow> decimal \<Rightarrow> decimal \<Rightarrow> decimal \<Rightarrow> decimal \<Rightarrow> decimal \<Rightarrow> rate_row" where
  "rate n a b c d e = \<lparr>rate_family_size = n, type_a = a, type_b = b, type_c = c, type_d = d, type_e = e\<rparr>"

abbreviation two_places :: "int \<Rightarrow> decimal" where
  "two_places n \<equiv> Dec n (- 2)"

definition fallback_income_rates :: "rate_row list" where
  "fallback_income_rates =
    [rate 1 (two_places 106000) dec_zero (two_places 153550) dec_zero dec_zero,
     rate 2 (two_places 165000) (two_places 140500) (two_places 212550) (two_places 188050) (two_places 265250),
     rate 3 (two_places 184500) (two_places 150000) (two_places 232050) (two_places 197550) (two_places 284750),
     rate 4 (two_places 189500) (two_places 155000) (two_places 237050) (two_places 202550) (two_places 289750),
     rate 5 (two_places 194500) (two_places 160000) (two_places 242050) (two_places 207550) (two_places 294750),
     rate 6 (two_places 199500) (two_places 165000) (two_places 247050) (two_places 212550) (two_places 299750),
     rate 7 (two_places 204500) (two_places 170000) (two_places 252050) (two_places 217550) (two_places 304750)]"

definition asset :: "string \<Rightarrow> decimal \<Rightarrow> asset_row" where
  "asset t l = \<lparr>limit_type = t, limit = l\<rparr>"

definition fallback_asset_limits :: "asset_row list" where
  "fallback_asset_limits =
    [asset ''A'' (two_places 500000), asset ''B'' (two_places 1000000),
     asset ''C'' (two_places 10000000), asset ''D'' (two_places 20000000)]"

text \<open>The rows of migration 0003, as the NUMERIC(.., 2) columns give them back.\<close>

definition seed_date :: date where
  "seed_date = Date 2023 8 1"

definition seed_rates :: "(date \<times> rate_row) list" where
  "seed_rates = map (Pair seed_date)
    [rate 1 (two_places 106000) (two_places 0) (two_places 153550) (two_places 0) (two_places 0),
     rate 2 (two_places 165000) (two_places 140500) (two_places 212550) (two_places 188050) (two_places 265250),
     rate 3 (two_places 184500) (two_places 150000) (two_places 232050) (two_places 197550) (two_places 284750),
     rate 4 (two_places 189500) (two_places 155000) (two_places 237050) (two_places 202550) (two_places 289750),
     rate 5 (two_places 194500) (two_places 160000) (two_places 242050) (two_places 207550) (two_places 294750),
     rate 6 (two_places 199500) (two_places 165000) (two_places 247050) (two_places 212550) (two_places 299750),
     rate 7 (two_places 204500) (two_places 170000) (two_places 252050) (two_places 217550) (two_places 304750)]"

definition seed_limits :: "(date \<times> asset_row) list" where
  "seed_limits = map (Pair seed_date)
    [asset ''A'' (two_places 500000), asset ''B'' (two_places 1000000),
     asset ''C'' (two_places 10000000), asset ''D'' (two_places 20000000)]"

definition fallback_calculator :: calculator where
  "fallback_calculator = calculator_init fallback_income_rates fallback_asset_limits"

section \<open>Rates from the database through the cache\<close>

text \<open>
  The two tables, and a stream that says which statements the database executes. Whether it
  accepts a statement's text at all is the parameter \<open>accepts\<close>.
\<close>

record ('i, 'r) elig_state = "('i, 'r) kvbase" +
  rate_tbl :: "(date \<times> rate_row) list"
  asset_tbl :: "(date \<times> asset_row) list"
  db_up :: "nat \<Rightarrow> bool"
  db_ix :: nat

definition INCOME_RATES_CACHE_KEY :: string where
  "INCOME_RATES_CACHE_KEY = ''rate_table:eligibility:income''"

definition ASSET_LIMITS_CACHE_KEY :: string where
  "ASSET_LIMITS_CACHE_KEY = ''rate_table:eligibility:assets''"

definition CACHE_TTL_SECONDS :: int where
  "CACHE_TTL_SECONDS = 86400"

definition rates_sql :: string where
  "rates_sql = ''SELECT family_size, type_a, type_b, type_c, type_d, type_e '' @
     ''FROM eligibility_rate_table WHERE effective_from = ('' @
     ''  SELECT MAX(effective_from) FROM eligibility_rate_table) ORDER BY family_size''"

definition assets_sql :: string where
  "assets_sql = ''SELECT limit_type, limit FROM eligibility_asset_limit WHERE effective_from = ('' @
     ''  SELECT MAX(effective_from) FROM eligibility_asset_limit) ORDER BY limit_type''"

definition db_query :: "(string \<Rightarrow> bool) \<Rightarrow> string \<Rightarrow> (('i, 'r) elig_state \<Rightarrow> 'a) \<Rightarrow> (('i, 'r) elig_state, 'a) io" where
  "db_query accepts stmt f s =
     (if db_up s (db_ix s) \<and> accepts stmt then (Inr (f s), s\<lparr>db_ix := Suc (db_ix s)\<rparr>)
      else (Inl SQLAlchemyExn, s\<lparr>db_ix := Suc (db_ix s)\<rparr>))"

text \<open>\<open>WHERE effective_from = (SELECT MAX(effective_from) ...) ORDER BY k\<close>.\<close>

definition latest :: "('a \<Rightarrow> 'k::linorder) \<Rightarrow> (date \<times> 'a) list \<Rightarrow> 'a list" where
  "latest k tbl = sort_key k (map snd (filter (\<lambda>r. \<forall>q \<in> set tbl. fst q \<le> fst r) tbl))"

definition limit_key :: "asset_row \<Rightarrow> nat list" where
  "limit_key a = map of_char (limit_type a)"

text \<open>\<open>Decimal(str(x))\<close> and the validation of \<open>RateRow(family_size=..., ...)\<close>.\<close>

definition dec_of_text :: "string \<Rightarrow> decimal res" where
  "dec_of_text t = (case dec_parse t of None \<Rightarrow> Inl ValidationExn | Some d \<Rightarrow> Inr d)"

definition make_rate :: "int \<Rightarrow> decimal res list \<Rightarrow> rate_row res" where
  "make_rate n ds =
     bind_res (map_res id ds) (\<lambda>vs.
       case vs of [a, b, c, d, e] \<Rightarrow> (if 1 \<le> n then Inr (rate n a b c d e) else Inl ValidationExn)
       | _ \<Rightarrow> Inl ValidationExn)"

definition rate_of_db :: "rate_row \<Rightarrow> rate_row res" where
  "rate_of_db r = make_rate (rate_family_size r)
     (map (\<lambda>f. dec_of_text (dec_str (f r))) [type_a, type_b, type_c, type_d, type_e])"

definition asset_of_db :: "asset_row \<Rightarrow> asset_row res" where
  "asset_of_db r = bind_res (dec_of_text (dec_str (limit r))) (\<lambda>l. Inr (asset (limit_type r) l))"

text \<open>\<open>model_dump(mode="json")\<close> and \<open>RateRow(**r)\<close> on what it wrote.\<close>

definition rate_to_json :: "rate_row \<Rightarrow> json" where
  "rate_to_json r = JObj [(''family_size'', JInt (rate_family_size r)), (''type_a'', JStr (dec_str (type_a r))),
     (''type_b'', JStr (dec_str (type_b r))), (''type_c'', JStr (dec_str (type_c r))),
     (''type_d'', JStr (dec_str (type_d r))), (''type_e'', JStr (dec_str (type_e r)))]"

fun json_dec :: "json \<Rightarrow> decimal res" where
  "json_dec (JStr t) = dec_of_text t"
| "json_dec (JInt i) = Inr (Dec i 0)"
| "json_dec _ = Inl ValidationExn"

definition field :: "(string \<times> json) list \<Rightarrow> string \<Rightarrow> json res" where
  "field kvs k = (case map_of kvs k of None \<Rightarrow> Inl ValidationExn | Some v \<Rightarrow> Inr v)"

fun rate_of_json :: "json \<Rightarrow> rate_row res" where
  "rate_of_json (JObj kvs) =
     bind_res (field kvs ''family_size'') (\<lambda>n.
       case n of JInt i \<Rightarrow>
         make_rate i (map (\<lambda>k. bind_res (field kvs k) json_dec) [''type_a'', ''type_b'', ''type_c'', ''type_d'', ''type_e''])
       | _ \<Rightarrow> Inl ValidationExn)"
| "rate_of_json _ = Inl TypeExn"

definition asset_to_json :: "asset_row \<Rightarrow> json" where
  "asset_to_json r = JObj [(''limit_type'', JStr (limit_type r)), (''limit'', JStr (dec_str (limit r)))]"

fun asset_of_json :: "json \<Rightarrow> asset_row res" where
  "asset_of_json (JObj kvs) =
     bind_res (field kvs ''limit_type'') (\<lambda>t.
       case t of JStr x \<Rightarrow> bind_res (bind_res (field kvs ''limit'') json_dec) (\<lambda>l. Inr (asset x l))
       | _ \<Rightarrow> Inl ValidationExn)"
| "asset_of_json _ = Inl TypeExn"

fun json_list :: "json \<Rightarrow> json list res" where
  "json_list (JArr xs) = Inr xs"
| "json_list _ = Inl TypeExn"

text \<open>\<open>get_income_rates\<close> and \<open>get_asset_limits\<close>: a stored text is never empty, so that any hit counts.\<close>

definition get_income_rates :: "'r kv_ops \<Rightarrow> (string \<Rightarrow> bool) \<Rightarrow> (('i, 'r) elig_state, rate_row list) io" where
  "get_income_rates ops accepts =
     bind (redis_get ops INCOME_RATES_CACHE_KEY) (\<lambda>cached.
     case cached of
       Some raw \<Rightarrow> lift_res (bind_res (json_list raw) (map_res rate_of_json))
     | None \<Rightarrow>
         bind (db_query accepts rates_sql (\<lambda>s. latest rate_family_size (rate_tbl s))) (\<lambda>res.
         bind (lift_res (map_res rate_of_db res)) (\<lambda>rows.
         bind (redis_setex ops INCOME_RATES_CACHE_KEY CACHE_TTL_SECONDS (JArr (map rate_to_json rows))) (\<lambda>_.
         ret rows))))"

definition get_asset_limits :: "'r kv_ops \<Rightarrow> (string \<Rightarrow> bool) \<Rightarrow> (('i, 'r) elig_state, asset_row list) io" where
  "get_asset_limits ops accepts =
     bind (redis_get ops ASSET_LIMITS_CACHE_KEY) (\<lambda>cached.
     case cached of
       Some raw \<Rightarrow> lift_res (bind_res (json_list raw) (map_res asset_of_json))
     | None \<Rightarrow>
         bind (db_query accepts assets_sql (\<lambda>s. latest limit_key (asset_tbl s))) (\<lambda>res.
         bind (lift_res (map_res asset_of_db res)) (\<lambda>rows.
         bind (redis_setex ops ASSET_LIMITS_CACHE_KEY CACHE_TTL_SECONDS (JArr (map asset_to_json rows))) (\<lambda>_.
         ret rows))))"

definition invalidate_cache :: "'r kv_ops \<Rightarrow> (('i, 'r) elig_state, unit) io" where
  "invalidate_cache ops = redis_delete ops [INCOME_RATES_CACHE_KEY, ASSET_LIMITS_CACHE_KEY]"

text \<open>The route; a request that does not validate is answered 422 before.\<close>

definition is_store_error :: "exn \<Rightarrow> bool" where
  "is_store_error e \<longleftrightarrow> e = SQLAlchemyExn \<or> e = RedisExn"

definition calculate_eligibility ::
  "'r kv_ops \<Rightarrow> (string \<Rightarrow> bool) \<Rightarrow> elig_request \<Rightarrow> (('i, 'r) elig_state, elig_response) io" where
  "calculate_eligibility ops accepts request =
     bind (lift_res (case validate_elig request of Inr r \<Rightarrow> Inr r | Inl _ \<Rightarrow> Inl (HTTPExn 422 ''Unprocessable Entity'')))
       (\<lambda>r.
     bind (catch
         (bind (get_income_rates ops accepts) (\<lambda>rates.
          bind (get_asset_limits ops accepts) (\<lambda>limits. ret (rates, limits))))
         is_store_error
         (\<lambda>_. ret (fallback_income_rates, fallback_asset_limits))) (\<lambda>(rates, limits).
     lift_res (calculate (calculator_init rates limits) r)))"

section \<open>The estimate in cents\<close>

text \<open>
  The rules over whole cents: an asset cap and an income limit, the limit being a support amount
  by family plus a supplement by the number of persons with disabilities. Families of more than
  seven count as seven.
\<close>

datatype decision = TooManyAssets | TooMuchIncome | Benefit int

definition support_cents :: "bool \<Rightarrow> int \<Rightarrow> int" where
  "support_cents couple n =
     (if couple \<or> n = 1
      then [106000, 165000, 184500, 189500, 194500, 199500, 204500] ! nat (n - 1)
      else [140500, 150000, 155000, 160000, 165000, 170000] ! nat (n - 2))"

definition supplement_cents :: "int \<Rightarrow> int" where
  "supplement_cents p = (if p = 0 then 0 else if p = 1 then 47550 else 100250)"

definition asset_cap_cents :: "bool \<Rightarrow> int \<Rightarrow> int \<Rightarrow> int" where
  "asset_cap_cents couple p n =
     (if p = 2 then 20000000 else if p = 1 then 10000000 else if couple \<or> 1 < n then 1000000 else 500000)"

definition estimate :: "bool \<Rightarrow> int \<Rightarrow> int \<Rightarrow> int \<Rightarrow> int \<Rightarrow> decision" where
  "estimate couple p n assets income =
     (let lim = support_cents couple (min n 7) + supplement_cents p in
      if asset_cap_cents couple p n < assets then TooManyAssets
      else if lim \<le> income then TooMuchIncome
      else Benefit (lim - income))"

definition couple :: "elig_request \<Rightarrow> bool" where
  "couple r \<longleftrightarrow> relationship_status r = COUPLE"

definition pwd_count :: "elig_request \<Rightarrow> int" where
  "pwd_count r = (if applicant_pwd r then 1 else 0) + (if spouse_pwd r then 1 else 0)"

lemma fallback_rows:
  "income_rates fallback_calculator 1 = Some (fallback_income_rates ! 0)"
  "income_rates fallback_calculator 2 = Some (fallback_income_rates ! 1)"
  "income_rates fallback_calculator 3 = Some (fallback_income_rates ! 2)"
  "income_rates fallback_calculator 4 = Some (fallback_income_rates ! 3)"
  "income_rates fallback_calculator 5 = Some (fallback_income_rates ! 4)"
  "income_rates fallback_calculator 6 = Some (fallback_income_rates ! 5)"
  "income_rates fallback_calculator 7 = Some (fallback_income_rates ! 6)"
  by (simp_all add: fallback_calculator_def calculator_init_def fallback_income_rates_def rate_def)

lemma fallback_caps:
  "asset_limits fallback_calculator ''A'' = Some (two_places 500000)"
  "asset_limits fallback_calculator ''B'' = Some (two_places 1000000)"
  "asset_limits fallback_calculator ''C'' = Some (two_places 10000000)"
  "asset_limits fallback_calculator ''D'' = Some (two_places 20000000)"
  by (simp_all add: fallback_calculator_def calculator_init_def fallback_asset_limits_def asset_def)

lemma validate_elig_parts:
  assumes "validate_elig r = Inr r'"
  shows "r' = r" and "0 \<le> num_dependants r" and "relationship_status r = SINGLE \<Longrightarrow> \<not> spouse_pwd r"
    and "list_all (dec_le dec_zero) [monthly_income r, spouse_monthly_income r, primary_vehicle_value r,
           other_vehicle_value r, other_asset_value r]"
  using assms by (auto simp: validate_elig_def spouse_fields_require_couple_def split: if_splits)

lemma cents_two_places [simp]: "cents (Dec n (- 2)) = n" "money (Dec n (- 2))" "cents (Dec 0 e) = 0"
  by (simp_all add: cents_def money_def)

text \<open>Every cell of the fallback tables a valid request reaches is filled, with the amount of the rules.\<close>

lemma fallback_income_limit:
  assumes "validate_elig r = Inr r'"
  shows "\<exists>c. get_income_limit fallback_calculator (classify_client_type r) (family_size r) = Inr (two_places c) \<and>
    c = support_cents (couple r) (min (family_size r) 7) + supplement_cents (pwd_count r)"
proof -
  note v = validate_elig_parts[OF assms]
  have "min (family_size r) 7 \<in> {1, 2, 3, 4, 5, 6, 7}" using v(2) by (auto simp: family_size_def)
  moreover have "family_size r = 1 \<longleftrightarrow> relationship_status r = SINGLE \<and> num_dependants r = 0"
    using v(2) by (cases "relationship_status r") (auto simp: family_size_def)
  moreover have "min (family_size r) 7 = 1 \<longleftrightarrow> family_size r = 1" by auto
  ultimately show ?thesis
    using v(2,3)
    by (cases "relationship_status r"; cases "applicant_pwd r"; cases "spouse_pwd r"; cases "num_dependants r = 0")
      (auto simp: get_income_limit_def MAX_RATE_TABLE_FAMILY_SIZE_def classify_client_type_def Let_def
        rate_of_type_def fallback_rows fallback_income_rates_def rate_def support_cents_def supplement_cents_def
        couple_def pwd_count_def)
qed

lemma fallback_asset_limit:
  assumes "validate_elig r = Inr r'"
  shows "asset_limits fallback_calculator (asset_limit_category r) =
    Some (two_places (asset_cap_cents (couple r) (pwd_count r) (family_size r)))"
  using validate_elig_parts[OF assms]
  by (cases "relationship_status r"; cases "applicant_pwd r"; cases "spouse_pwd r")
    (auto simp: asset_limit_category_def Let_def fallback_caps asset_cap_cents_def couple_def pwd_count_def family_size_def)

text \<open>The seeded tables hold the same amounts, cell by cell.\<close>

definition seeded_calculator :: calculator where
  "seeded_calculator = calculator_init (latest rate_family_size seed_rates) (latest limit_key seed_limits)"

lemma latest_one_date:
  assumes "\<And>x. x \<in> set tbl \<Longrightarrow> fst x = d" and "sorted (map k (map snd tbl))"
  shows "latest k tbl = map snd tbl"
proof -
  have "filter (\<lambda>r. \<forall>q \<in> set tbl. fst q \<le> fst r) tbl = tbl"
    by (rule map_filter_id) (simp add: assms(1))
  then show ?thesis unfolding latest_def using sort_key_id_if_sorted[OF assms(2)] by simp
qed

lemma seed_latest:
  "latest rate_family_size seed_rates = map snd seed_rates"
  "latest limit_key seed_limits = map snd seed_limits"
  by (rule latest_one_date[of _ seed_date]; auto simp: seed_rates_def rate_def)
    (rule latest_one_date[of _ seed_date]; auto simp: seed_limits_def asset_def limit_key_def)

lemma seeded_rows:
  "asset_limits seeded_calculator = asset_limits fallback_calculator"
  "rel_option (\<lambda>x y. rate_family_size x = rate_family_size y \<and>
     (\<forall>f \<in> {type_a, type_b, type_c, type_d, type_e}. money (f x) \<and> cents (f x) = cents (f y)))
     (income_rates seeded_calculator n) (income_rates fallback_calculator n)"
  unfolding seeded_calculator_def seed_latest fallback_calculator_def calculator_init_def
  by (simp_all add: seed_rates_def seed_limits_def fallback_income_rates_def fallback_asset_limits_def rate_def asset_def)

lemma seeded_income_limit:
  assumes "validate_elig r = Inr r'"
  shows "\<exists>l. get_income_limit seeded_calculator (classify_client_type r) (family_size r) = Inr l \<and> money l \<and>
    cents l = support_cents (couple r) (min (family_size r) 7) + supplement_cents (pwd_count r)"
proof -
  obtain c where c: "get_income_limit fallback_calculator (classify_client_type r) (family_size r) = Inr (two_places c)"
    "c = support_cents (couple r) (min (family_size r) 7) + supplement_cents (pwd_count r)"
    using fallback_income_limit[OF assms] by blast
  let ?n = "min (family_size r) MAX_RATE_TABLE_FAMILY_SIZE"
  obtain y where y: "income_rates fallback_calculator ?n = Some y" "rate_of_type y (classify_client_type r) = Inr (two_places c)"
    using c(1) by (auto simp: get_income_limit_def split: option.splits)
  obtain x where x: "income_rates seeded_calculator ?n = Some x"
      "\<forall>f \<in> {type_a, type_b, type_c, type_d, type_e}. money (f x) \<and> cents (f x) = cents (f y)"
    using seeded_rows(2)[of ?n] y(1) by (cases "income_rates seeded_calculator ?n") auto
  obtain l where "rate_of_type x (classify_client_type r) = Inr l" "money l" "cents l = c"
    using y(2) x(2) by (simp add: rate_of_type_def split: if_splits)
  then show ?thesis using x(1) c(2) by (auto simp: get_income_limit_def)
qed

section \<open>The calculator computes the estimate\<close>

definition decision_of :: "elig_response \<Rightarrow> decision" where
  "decision_of resp =
     (if eligible resp then Benefit (cents (estimated_amount resp))
      else if ineligibility_reason resp = Some ''assets_exceed_limit'' then TooManyAssets else TooMuchIncome)"

text \<open>Every amount has at most two decimals and is below \<open>10 ^ 25\<close> dollars.\<close>

definition amount :: "decimal \<Rightarrow> bool" where
  "amount d \<longleftrightarrow> money d \<and> \<bar>cents d\<bar> < 10 ^ 27"

definition money_request :: "elig_request \<Rightarrow> bool" where
  "money_request r \<longleftrightarrow> list_all amount [monthly_income r, spouse_monthly_income r, primary_vehicle_value r,
     other_vehicle_value r, other_asset_value r]"

definition asset_cents :: "elig_request \<Rightarrow> int" where
  "asset_cents r = cents (primary_vehicle_value r) + cents (other_vehicle_value r) + cents (other_asset_value r)"

definition income_cents :: "elig_request \<Rightarrow> int" where
  "income_cents r = cents (monthly_income r) + cents (spouse_monthly_income r)"

lemma amountD: "amount d \<Longrightarrow> money d" "amount d \<Longrightarrow> \<bar>cents d\<bar> < 10 ^ 27"
  by (simp_all add: amount_def)

lemma money_totals:
  assumes "money_request r"
  shows "\<exists>a. total_assets r = Inr a \<and> money a \<and> cents a = asset_cents r"
    and "\<exists>i. total_income r = Inr i \<and> money i \<and> cents i = income_cents r" and "\<bar>income_cents r\<bar> < 2 * 10 ^ 27"
proof -
  have m: "amount (monthly_income r)" "amount (spouse_monthly_income r)" "amount (primary_vehicle_value r)"
    "amount (other_vehicle_value r)" "amount (other_asset_value r)"
    using assms by (simp_all add: money_request_def)
  note mm = m[THEN amountD(1)] and b = m[THEN amountD(2)]
  have "\<bar>cents (primary_vehicle_value r) + cents (other_vehicle_value r)\<bar> < 10 ^ prec"
    using b(3,4) by (simp add: prec_def abs_less_iff)
  from dec_add_exact[OF mm(3,4) this] obtain v where v: "dec_add (primary_vehicle_value r) (other_vehicle_value r) = Inr v"
    "money v" "cents v = cents (primary_vehicle_value r) + cents (other_vehicle_value r)" by blast
  have "\<bar>cents v + cents (other_asset_value r)\<bar> < 10 ^ prec"
    using b(3,4,5) v(3) by (simp add: prec_def abs_less_iff)
  from dec_add_exact[OF v(2) mm(5) this] v
  show "\<exists>a. total_assets r = Inr a \<and> money a \<and> cents a = asset_cents r"
    unfolding total_assets_def asset_cents_def by simp
  show i: "\<bar>income_cents r\<bar> < 2 * 10 ^ 27"
    using b(1,2) by (simp add: income_cents_def abs_less_iff)
  then have "\<bar>cents (monthly_income r) + cents (spouse_monthly_income r)\<bar> < 10 ^ prec"
    by (simp add: prec_def income_cents_def abs_less_iff)
  from dec_add_exact[OF mm(1,2) this]
  show "\<exists>i. total_income r = Inr i \<and> money i \<and> cents i = income_cents r"
    unfolding total_income_def income_cents_def .
qed

lemma calculate_estimate:
  assumes "money_request r"
    and "asset_limits c (asset_limit_category r) = Some (two_places cap)"
    and "get_income_limit c (classify_client_type r) (family_size r) = Inr l" "money l" "0 \<le> cents l" "cents l < 10 ^ 9"
  shows "\<exists>resp. calculate c r = Inr resp \<and> client_type resp = classify_client_type r \<and>
    decision_of resp = (if cap < asset_cents r then TooManyAssets
      else if cents l \<le> income_cents r then TooMuchIncome else Benefit (cents l - income_cents r))"
proof -
  obtain a i where a: "total_assets r = Inr a" "money a" "cents a = asset_cents r"
    and i: "total_income r = Inr i" "money i" "cents i = income_cents r"
    using money_totals(1,2)[OF assms(1)] by blast
  have "\<bar>cents l - cents i\<bar> < 10 ^ prec"
    using money_totals(3)[OF assms(1)] i(3) assms(5,6) by (simp add: prec_def abs_less_iff)
  from dec_sub_exact[OF assms(4) i(2) this] obtain b where b: "dec_sub l i = Inr b" "money b" "cents b = cents l - income_cents r"
    using i(3) by auto
  have less: "dec_less (two_places cap) a \<longleftrightarrow> cap < asset_cents r"
    using a by (simp add: dec_compare_cents)
  have "money dec_zero" by (simp add: money_def)
  then have le: "dec_le b dec_zero \<longleftrightarrow> cents l \<le> income_cents r"
    using b by (simp add: dec_compare_cents)
  show ?thesis
    unfolding calculate_def Let_def
    using assms(2,3) a(1) i(1) b less le by (simp add: ineligible_def decision_of_def)
qed

lemma support_range: "0 \<le> support_cents cpl n + supplement_cents p \<and> support_cents cpl n + supplement_cents p < 10 ^ 9"
  if "n \<in> {1, 2, 3, 4, 5, 6, 7}" "cpl \<longrightarrow> 2 \<le> n"
  using that by (auto simp: support_cents_def supplement_cents_def)

text \<open>C20.
  For a request that passes validation and whose amounts are whole cents, each below 10 to the 25 dollars, the
  calculator answers, with the client type it classified, and its decision is the one of the rules over
  cents: too many assets when they exceed the cap, else too much income when it reaches the limit
  of the family, else a benefit of exactly the difference. This holds with the built-in fallback
  tables and with the tables that migration 0003 seeds: no valid family lacks a row, and for such amounts the 28
  digit context neither rounds nor overflows. (Validation sets no maximum; what happens far above is
  \<open>huge_amounts_raise\<close>.)
\<close>

theorem calculate_refines_estimate:
  assumes "validate_elig r = Inr r'" and "money_request r" and "c = fallback_calculator \<or> c = seeded_calculator"
  shows "\<exists>resp. calculate c r = Inr resp \<and> client_type resp = classify_client_type r \<and>
    decision_of resp = estimate (couple r) (pwd_count r) (family_size r) (asset_cents r) (income_cents r)"
proof -
  obtain l where l: "get_income_limit c (classify_client_type r) (family_size r) = Inr l" "money l"
      "cents l = support_cents (couple r) (min (family_size r) 7) + supplement_cents (pwd_count r)"
    using assms(3) fallback_income_limit[OF assms(1)] seeded_income_limit[OF assms(1)] cents_two_places by metis
  have cap: "asset_limits c (asset_limit_category r) =
      Some (two_places (asset_cap_cents (couple r) (pwd_count r) (family_size r)))"
    using assms(3) fallback_asset_limit[OF assms(1)] seeded_rows(1) by auto
  have "min (family_size r) 7 \<in> {1, 2, 3, 4, 5, 6, 7}" "couple r \<longrightarrow> 2 \<le> min (family_size r) 7"
    using validate_elig_parts(2)[OF assms(1)] by (auto simp: family_size_def couple_def)
  note range = support_range[OF this, of "pwd_count r", folded l(3)]
  show ?thesis
    unfolding estimate_def Let_def l(3)[symmetric]
    by (rule calculate_estimate[OF assms(2) cap l(1,2)]) (use range in linarith)+
qed

definition sample_request :: elig_request where
  "sample_request = \<lparr>relationship_status = COUPLE, num_dependants = 9, applicant_pwd = True, spouse_pwd = False,
     monthly_income = Dec 5005 (- 1), spouse_monthly_income = Dec 25 0, primary_vehicle_value = Dec 9 3,
     other_vehicle_value = dec_zero, other_asset_value = two_places 1\<rparr>"

theorem calculate_refines_estimate_witness:
  "\<exists>resp. calculate seeded_calculator sample_request = Inr resp \<and> client_type resp = CHR ''C'' \<and>
     decision_of resp = Benefit 199500"
proof -
  have v: "validate_elig sample_request = Inr sample_request"
    by (simp add: validate_elig_def sample_request_def spouse_fields_require_couple_def dec_le_def scaled_def min_expo_def)
  have m: "money_request sample_request"
    by (simp add: money_request_def sample_request_def amount_def money_def cents_def)
  have t: "classify_client_type sample_request = CHR ''C''"
    by (simp add: classify_client_type_def sample_request_def Let_def)
  have e: "estimate (couple sample_request) (pwd_count sample_request) (family_size sample_request)
      (asset_cents sample_request) (income_cents sample_request) = Benefit 199500"
    by (simp add: estimate_def couple_def pwd_count_def family_size_def asset_cents_def income_cents_def Let_def
        sample_request_def cents_def support_cents_def supplement_cents_def asset_cap_cents_def)
  show ?thesis using calculate_refines_estimate[OF v m, of seeded_calculator] unfolding t e by simp
qed

text \<open>
  Validation sets no maximum, and beyond the context's exponents the calculator raises: two vehicles of 9E999999
  dollars pass validation, and their sum is decimal.Overflow, which the anonymous route answers with 500.
\<close>

lemma dec_le_zero: "0 \<le> coef d \<Longrightarrow> dec_le dec_zero d"
  by (simp add: dec_le_def scaled_def)

definition huge_request :: elig_request where
  "huge_request = sample_request\<lparr>primary_vehicle_value := Dec 9 999999, other_vehicle_value := Dec 9 999999\<rparr>"

theorem huge_amounts_raise:
  assumes "asset_limits c ''C'' = Some l"
  shows "validate_elig huge_request = Inr huge_request \<and> calculate c huge_request = Inl DecimalOverflowExn"
proof
  show "validate_elig huge_request = Inr huge_request"
    by (simp add: validate_elig_def huge_request_def sample_request_def spouse_fields_require_couple_def dec_le_zero)
  have "dec_add (Dec 9 999999) (Dec 9 999999) = Inl DecimalOverflowExn"
    by (simp add: dec_add_def in_context_def scaled_def min_expo_def fix_prec_def Let_def prec_def overflows_def Emax_def num_digits.simps)
  then show "calculate c huge_request = Inl DecimalOverflowExn"
    using assms
    by (simp add: calculate_def total_assets_def huge_request_def sample_request_def asset_limit_category_def Let_def)
qed

section \<open>The cache and the database\<close>

lemma dec_of_text_str [simp]: "dec_of_text (dec_str d) = Inr d"
  by (simp add: dec_of_text_def dec_parse_str)

lemma make_rate_Inr: "1 \<le> n \<Longrightarrow> make_rate n [Inr a, Inr b, Inr c, Inr d, Inr e] = Inr (rate n a b c d e)"
  by (simp add: make_rate_def)

lemma rate_fields [simp]: "rate (rate_family_size r) (type_a r) (type_b r) (type_c r) (type_d r) (type_e r) = r"
  by (simp add: rate_def)

lemma rate_of_db_ok: "1 \<le> rate_family_size r \<Longrightarrow> rate_of_db r = Inr r"
  by (simp add: rate_of_db_def make_rate_Inr)

lemma rate_of_db_family: "rate_of_db r = Inr r' \<Longrightarrow> 1 \<le> rate_family_size r \<and> r' = r"
proof -
  assume a: "rate_of_db r = Inr r'"
  then have "1 \<le> rate_family_size r" by (auto simp: rate_of_db_def make_rate_def split: if_splits list.splits)
  then show ?thesis using a rate_of_db_ok by simp
qed

lemma rate_json_roundtrip: "1 \<le> rate_family_size r \<Longrightarrow> rate_of_json (rate_to_json r) = Inr r"
  by (simp add: rate_to_json_def field_def make_rate_Inr)

lemma asset_of_db_ok [simp]: "asset_of_db r = Inr r"
  by (cases r) (simp add: asset_of_db_def asset_def)

lemma asset_json_roundtrip [simp]: "asset_of_json (asset_to_json r) = Inr r"
  by (cases r) (simp add: asset_to_json_def field_def asset_def)

lemma map_res_map_inverse: "(\<And>x. x \<in> set xs \<Longrightarrow> g (f x) = Inr x) \<Longrightarrow> map_res g (map f xs) = Inr xs"
  by (induction xs) simp_all

lemma map_res_rate_of_db: "map_res rate_of_db rows = Inr rows' \<Longrightarrow> rows' = rows \<and> (\<forall>r \<in> set rows. 1 \<le> rate_family_size r)"
  by (induction rows arbitrary: rows') (auto dest: rate_of_db_family)

text \<open>A miss answered by the database: the rows are those of the latest date, and are stored.\<close>

lemma get_income_rates_miss:
  assumes "kget ops (clock s (ticks s)) INCOME_RATES_CACHE_KEY (kv s) = None"
    and "get_income_rates ops accepts s = (Inr rows, t)"
  shows "rows = latest rate_family_size (rate_tbl s)" and "\<forall>r \<in> set rows. 1 \<le> rate_family_size r"
    and "kv t = ksetex ops (clock s (Suc (ticks s))) INCOME_RATES_CACHE_KEY CACHE_TTL_SECONDS
      (JArr (map rate_to_json rows)) (kv s)"
  using assms
  by (auto simp: get_income_rates_def redis_defs db_query_def io_simps Let_def split: if_splits sum.splits prod.splits
      dest!: map_res_rate_of_db)

lemma get_income_rates_hit:
  assumes "kget ops (clock u (ticks u)) INCOME_RATES_CACHE_KEY (kv u) = Some (JArr (map rate_to_json rows))"
    and "kv_up u (kv_ix u)" and "\<forall>r \<in> set rows. 1 \<le> rate_family_size r"
  shows "fst (get_income_rates ops accepts u) = Inr rows"
proof -
  have "map_res rate_of_json (map rate_to_json rows) = Inr rows"
    by (rule map_res_map_inverse) (simp add: assms(3) rate_json_roundtrip)
  then show ?thesis
    using assms(1,2) by (simp add: get_income_rates_def redis_defs io_simps Let_def)
qed

lemma map_res_rate_of_db_latest:
  assumes "\<And>r. r \<in> set tbl \<Longrightarrow> 1 \<le> rate_family_size (snd r)"
  shows "map_res rate_of_db (latest rate_family_size tbl) = Inr (latest rate_family_size tbl)"
proof -
  have "map_res rate_of_db (map id (latest rate_family_size tbl)) = Inr (latest rate_family_size tbl)"
    by (rule map_res_map_inverse) (use assms in \<open>auto simp: latest_def intro!: rate_of_db_ok\<close>)
  then show ?thesis by simp
qed

lemma get_income_rates_from_db:
  assumes "kget ops (clock s (ticks s)) INCOME_RATES_CACHE_KEY (kv s) = None"
    and "\<And>n. kv_up s n" and "db_up s (db_ix s)" and "accepts rates_sql"
    and "\<And>r. r \<in> set (rate_tbl s) \<Longrightarrow> 1 \<le> rate_family_size (snd r)"
  shows "fst (get_income_rates ops accepts s) = Inr (latest rate_family_size (rate_tbl s))"
  using assms(1-4) map_res_rate_of_db_latest[OF assms(5)]
  by (simp add: get_income_rates_def redis_defs db_query_def io_simps Let_def)

text \<open>
  Income rates read from the database are served from the cache for the next 24 hours: a later
  read within that time, with the cache reachable and not rewritten in between, answers the very
  same rows (every Decimal survives the JSON text in the cache), whatever the tables hold by then
  and whether or not the database answers. They are the rows of the latest effective date, in
  order of family size.
\<close>

theorem rates_served_from_cache:
  assumes "kv_store ops"
    and "kget ops (clock s (ticks s)) INCOME_RATES_CACHE_KEY (kv s) = None"
    and "get_income_rates ops accepts s = (Inr rows, t)"
    and "kv u = kv t" and "kv_up u (kv_ix u)"
    and "clock u (ticks u) < clock s (Suc (ticks s)) + seconds 86400"
  shows "fst (get_income_rates ops accepts' u) = Inr rows \<and> rows = latest rate_family_size (rate_tbl s)"
proof -
  note m = get_income_rates_miss[OF assms(2,3)]
  have "kget ops (clock u (ticks u)) INCOME_RATES_CACHE_KEY (kv u) = Some (JArr (map rate_to_json rows))"
    unfolding assms(4) m(3)
    by (rule kv_store.setex_get_before[OF assms(1)]) (use assms(6) in \<open>simp_all add: CACHE_TTL_SECONDS_def\<close>)
  then show ?thesis using get_income_rates_hit[OF _ assms(5) m(2)] m(1) by blast
qed

definition demo_state :: "(date \<times> rate_row) list \<Rightarrow> ttl_store \<Rightarrow> (nat, ttl_store) elig_state" where
  "demo_state tbl store =
     \<lparr>icm_st = 0, icm_log = [], clock = (\<lambda>n. int n), ticks = 0, uuids = (\<lambda>n. show_nat n), uuid_ix = 0,
      kv = store, kv_up = (\<lambda>n. True), kv_ix = 0, rate_tbl = tbl, asset_tbl = seed_limits,
      db_up = (\<lambda>n. True), db_ix = 0\<rparr>"

lemma latest_single [simp]: "latest k [(d, r)] = [r]"
  by (simp add: latest_def)

theorem rates_served_from_cache_witness:
  "\<exists>t. fst (get_income_rates ttl_ops (\<lambda>stmt. False) (demo_state [] (kv t))) = Inr [rate 1 (Dec 1 3) (Dec 5 1) (Dec 1 0) (Dec 2 0) (Dec 3 (- 7))]
     \<and> t = snd (get_income_rates ttl_ops (\<lambda>stmt. True)
         (demo_state [(seed_date, rate 1 (Dec 1 3) (Dec 5 1) (Dec 1 0) (Dec 2 0) (Dec 3 (- 7)))] []))"
proof -
  let ?row = "rate 1 (Dec 1 3) (Dec 5 1) (Dec 1 0) (Dec 2 0) (Dec 3 (- 7))"
  let ?s = "demo_state [(seed_date, ?row)] []"
  have miss: "kget ttl_ops (clock ?s (ticks ?s)) INCOME_RATES_CACHE_KEY (kv ?s) = None"
    by (simp add: demo_state_def ttl_ops_def ttl_get_def)
  have "fst (get_income_rates ttl_ops (\<lambda>stmt. True) ?s) = Inr [?row]"
    using get_income_rates_from_db[OF miss, of "\<lambda>stmt. True"] by (simp add: demo_state_def rate_def)
  then obtain t where t: "get_income_rates ttl_ops (\<lambda>stmt. True) ?s = (Inr [?row], t)"
    by (metis prod.collapse)
  have "fst (get_income_rates ttl_ops (\<lambda>stmt. False) (demo_state [] (kv t))) = Inr [?row] \<and>
      [?row] = latest rate_family_size (rate_tbl ?s)"
    by (rule rates_served_from_cache[OF ttl.kv_store_axioms miss t]) (simp_all add: demo_state_def seconds_def)
  then show ?thesis using t by (metis snd_conv)
qed

text \<open>
  The asset query names its column \<open>limit\<close> without quotes, a reserved word in PostgreSQL. If the
  database refuses that statement and no asset limits are cached, the route never uses the
  database's rates: whatever the tables hold, a valid request is answered from the fallback tables,
  and the asset limits are still not cached afterwards, so that the next request meets the same.
\<close>

theorem estimator_ignores_database:
  assumes "kv_store ops" and "\<not> accepts assets_sql" and "validate_elig r = Inr r'"
    and "\<And>now. kget ops now INCOME_RATES_CACHE_KEY (kv s) = None"
    and "\<And>now. kget ops now ASSET_LIMITS_CACHE_KEY (kv s) = None"
    and "\<And>row. row \<in> set (rate_tbl s) \<Longrightarrow> 1 \<le> rate_family_size (snd row)"
  shows "fst (calculate_eligibility ops accepts r s) = calculate fallback_calculator r \<and>
    kget ops now ASSET_LIMITS_CACHE_KEY (kv (snd (calculate_eligibility ops accepts r s))) = None"
proof -
  have [simp]: "r' = r" using validate_elig_parts(1)[OF assms(3)] .
  note rows = map_res_rate_of_db_latest[OF assms(6)]
  have keys: "ASSET_LIMITS_CACHE_KEY \<noteq> INCOME_RATES_CACHE_KEY" "0 < CACHE_TTL_SECONDS"
    by (simp_all add: ASSET_LIMITS_CACHE_KEY_def INCOME_RATES_CACHE_KEY_def CACHE_TTL_SECONDS_def)
  have other: "kget ops n ASSET_LIMITS_CACHE_KEY (ksetex ops n' INCOME_RATES_CACHE_KEY CACHE_TTL_SECONDS v (kv s)) = None"
    for n n' v using kv_store.setex_other[OF assms(1) keys(2,1)] assms(5) by simp
  show ?thesis
    unfolding calculate_eligibility_def fallback_calculator_def
    by (simp add: assms(2-5) other rows get_income_rates_def get_asset_limits_def redis_defs db_query_def io_simps
        Let_def is_store_error_def split: sum.splits)
qed

theorem estimator_ignores_database_witness:
  "fst (calculate_eligibility ttl_ops (\<lambda>stmt. stmt \<noteq> assets_sql) sample_request (demo_state [] [])) =
     calculate fallback_calculator sample_request"
proof -
  have v: "validate_elig sample_request = Inr sample_request"
    by (simp add: validate_elig_def sample_request_def spouse_fields_require_couple_def dec_le_def scaled_def min_expo_def)
  show ?thesis
    by (rule conjunct1, rule estimator_ignores_database[OF ttl.kv_store_axioms _ v])
      (simp_all add: demo_state_def ttl_ops_def ttl_get_def)
qed

end
