(* ===== verification/Session_Store.thy ===== *)
theory Session_Store
  imports Redis_Store
begin

text \<open>
  The generic session store of \<open>app/dependencies/session_store.py\<close>: a model class with a key prefix
  and a time to live, written as JSON text, read back and checked against its own \<open>expires_at\<close>.
  The locale \<open>session_store\<close> states what a store and a model class promise together and proves what
  a reader of a session gets; the two session modules interpret it on their classes.
\<close>

text \<open>\<open>expires_at\<close> as the model holds it: a datetime, or still the text of one.\<close>

datatype expiry = Stamp datetime | IsoText datetime

fun expiry_instant :: "expiry \<Rightarrow> instant" where
  "expiry_instant (Stamp d) = dt_instant d"
| "expiry_instant (IsoText d) = dt_instant d"

text \<open>In a stored text a timestamp is represented by the datetime it denotes.\<close>

fun time_json :: "datetime \<Rightarrow> json" where
  "time_json (Naive t) = JObj [(''naive'', JInt t)]"
| "time_json (Aware t) = JObj [(''aware'', JInt t)]"

fun expiry_json :: "expiry \<Rightarrow> json" where
  "expiry_json (Stamp d) = time_json d"
| "expiry_json (IsoText d) = time_json d"

definition json_time :: "json \<Rightarrow> datetime option" where
  "json_time j =
     (case j of
        JObj [(k, JInt t)] \<Rightarrow>
          (if k = ''naive'' then Some (Naive t) else if k = ''aware'' then Some (Aware t) else None)
      | _ \<Rightarrow> None)"

lemma json_time_json [simp]: "json_time (time_json d) = Some d"
  by (cases d) (simp_all add: json_time_def)

lemma expiry_json_time: "\<exists>d. json_time (expiry_json e) = Some d \<and> dt_instant d = expiry_instant e"
  by (cases e) simp_all

record 'a session_class =
  class_prefix :: string
  class_ttl :: int
  class_dump :: "'a \<Rightarrow> json"
  class_load :: "json \<Rightarrow> 'a res"
  class_expires :: "'a \<Rightarrow> expiry"

definition store_key :: "'a session_class \<Rightarrow> string \<Rightarrow> string" where
  "store_key c k = class_prefix c @ k"

definition store_set :: "'r kv_ops \<Rightarrow> 'a session_class \<Rightarrow> string \<Rightarrow> 'a \<Rightarrow> (('i, 'r, 'z) kvbase_scheme, unit) io" where
  "store_set ops c k x = redis_setex ops (store_key c k) (class_ttl c) (class_dump c x)"

definition store_delete :: "'r kv_ops \<Rightarrow> 'a session_class \<Rightarrow> string \<Rightarrow> (('i, 'r, 'z) kvbase_scheme, unit) io" where
  "store_delete ops c k = redis_delete ops [store_key c k]"

definition store_get ::
  "'r kv_ops \<Rightarrow> 'a session_class \<Rightarrow> string \<Rightarrow> (('i, 'r, 'z) kvbase_scheme, 'a option) io" where
  "store_get ops c k =
     bind (redis_get ops (store_key c k)) (\<lambda>raw.
     case raw of
       None \<Rightarrow> ret None
     | Some j \<Rightarrow>
         bind (lift_res (class_load c j)) (\<lambda>x.
         bind now_utc (\<lambda>now.
           if expiry_instant (class_expires c x) < now
           then bind (store_delete ops c k) (\<lambda>_. ret None)
           else ret (Some x))))"

definition store_clear :: "'r kv_ops \<Rightarrow> 'a session_class \<Rightarrow> (('i, 'r, 'z) kvbase_scheme, unit) io" where
  "store_clear ops c =
     bind (redis_scan ops (class_prefix c)) (\<lambda>keys. if keys = [] then ret () else redis_delete ops keys)"

text \<open>What holds of any read, whatever the store: a session that is returned had not expired.\<close>

lemma store_get_fresh:
  assumes "store_get ops c k s = (Inr (Some x), t)"
  shows "clock s (Suc (ticks s)) \<le> expiry_instant (class_expires c x)"
    and "\<exists>j. kget ops (clock s (ticks s)) (store_key c k) (kv s) = Some j \<and> class_load c j = Inr x"
    and "t = s\<lparr>ticks := Suc (Suc (ticks s)), kv_ix := Suc (kv_ix s)\<rparr>"
proof -
  from assms obtain j where j: "kv_up s (kv_ix s)" "kget ops (clock s (ticks s)) (store_key c k) (kv s) = Some j"
    by (auto simp: store_get_def redis_get_def redis_call_def bind_def Let_def split: if_splits option.splits)
  from assms j obtain y where y: "class_load c j = Inr y"
    by (cases "class_load c j") (auto simp: store_get_def redis_get_def redis_call_def bind_def Let_def)
  have ne: "\<not> expiry_instant (class_expires c y) < clock s (Suc (ticks s))"
  proof
    assume "expiry_instant (class_expires c y) < clock s (Suc (ticks s))"
    then have "fst (store_get ops c k s) = Inr None \<or> fst (store_get ops c k s) = Inl RedisExn"
      using j y by (simp add: store_get_def redis_defs bind_def now_utc_def store_delete_def Let_def)
    then show False using assms by simp
  qed
  then show "clock s (Suc (ticks s)) \<le> expiry_instant (class_expires c x)"
    and "\<exists>j. kget ops (clock s (ticks s)) (store_key c k) (kv s) = Some j \<and> class_load c j = Inr x"
    and "t = s\<lparr>ticks := Suc (Suc (ticks s)), kv_ix := Suc (kv_ix s)\<rparr>"
    using assms j y by (auto simp: store_get_def redis_defs bind_def now_utc_def Let_def)
qed

text \<open>The outcomes of a read: a session, or none; it changes the store only by dropping an expired one.\<close>

lemma store_get_cases:
  assumes "store_get ops c k s = (r, t)"
  shows "clock t = clock s \<and> ticks s \<le> ticks t \<and>
    ((\<exists>x. r = Inr (Some x) \<and> kv t = kv s) \<or>
     ((r = Inr None \<or> (\<exists>e. r = Inl e)) \<and> (kv t = kv s \<or> kv t = kdel ops [store_key c k] (kv s))))"
  using assms
  by (auto simp: store_get_def store_delete_def redis_defs bind_def now_utc_def Let_def
      split: option.splits if_splits sum.splits prod.splits)

text \<open>
  The contract of a session module: the store's laws, and a model class whose text, read back,
  gives the same session (\<open>view\<close>: all that the program reads of it) with the same expiry.
\<close>

locale session_store = kv_store ops for ops :: "'r kv_ops" +
  fixes c :: "'a session_class" and view :: "'a \<Rightarrow> 'v"
  assumes load_dump: "\<exists>y. class_load c (class_dump c x) = Inr y \<and> view y = view x"
    and view_expires: "view x = view y \<Longrightarrow> expiry_instant (class_expires c x) = expiry_instant (class_expires c y)"
    and ttl_pos: "0 < class_ttl c"
begin

text \<open>Reading what was stored, before and after the time to live.\<close>

lemma get_stored:
  assumes "kv u = ksetex ops now (store_key c k) (class_ttl c) (class_dump c x) r"
    and "kv_up u (kv_ix u)" and "clock u (ticks u) < now + seconds (class_ttl c)"
    and "clock u (Suc (ticks u)) \<le> expiry_instant (class_expires c x)"
  shows "\<exists>y. store_get ops c k u = (Inr (Some y), u\<lparr>ticks := Suc (Suc (ticks u)), kv_ix := Suc (kv_ix u)\<rparr>) \<and> view y = view x"
proof -
  obtain y where y: "class_load c (class_dump c x) = Inr y" "view y = view x" using load_dump by blast
  have "kget ops (clock u (ticks u)) (store_key c k) (kv u) = Some (class_dump c x)"
    unfolding assms(1) by (rule setex_get_before[OF ttl_pos assms(3)])
  then show ?thesis
    using assms(2,4) y view_expires[OF y(2)]
    by (simp add: store_get_def redis_get_def redis_call_def bind_def now_utc_def Let_def)
qed

lemma get_none:
  assumes "kget ops (clock u (ticks u)) (store_key c k) (kv u) = None" and "kv_up u (kv_ix u)"
  shows "fst (store_get ops c k u) = Inr None"
  using assms by (simp add: store_get_def redis_get_def redis_call_def bind_def Let_def)

lemma get_expired:
  assumes "kv u = ksetex ops now (store_key c k) (class_ttl c) v r" and "kv_up u (kv_ix u)"
    and "now + seconds (class_ttl c) \<le> clock u (ticks u)"
  shows "fst (store_get ops c k u) = Inr None"
  by (rule get_none) (use assms setex_get_after[OF ttl_pos assms(3)] in simp_all)

text \<open>A session past its own expiry is never read, even if the store still has its text.\<close>

lemma get_stale:
  assumes "kv u = ksetex ops now (store_key c k) (class_ttl c) (class_dump c x) r" and "\<And>n. kv_up u n"
    and "expiry_instant (class_expires c x) < clock u (Suc (ticks u))"
  shows "fst (store_get ops c k u) = Inr None"
proof -
  obtain y where y: "class_load c (class_dump c x) = Inr y" "view y = view x" using load_dump by blast
  have "kget ops (clock u (ticks u)) (store_key c k) (kv u) \<in> {None, Some (class_dump c x)}"
    unfolding assms(1) using get_setex[OF ttl_pos] by simp
  then show ?thesis
    using y view_expires[OF y(2)] assms(2,3)
    by (auto simp: store_get_def redis_defs bind_def now_utc_def store_delete_def Let_def)
qed

text \<open>A read only looks at its own key.\<close>

lemma get_cong:
  assumes "kget ops (clock u (ticks u)) (store_key c k) r = kget ops (clock u (ticks u)) (store_key c k) (kv u)"
  shows "fst (store_get ops c k (u\<lparr>kv := r\<rparr>)) = fst (store_get ops c k u)"
  using assms
  by (auto simp: store_get_def redis_defs bind_def now_utc_def store_delete_def Let_def split: option.split sum.split)

lemma get_other_key:
  assumes "k' \<noteq> store_key c k" and "0 < n"
  shows "fst (store_get ops c k (u\<lparr>kv := ksetex ops now k' n v (kv u)\<rparr>)) = fst (store_get ops c k u)"
  by (rule get_cong) (use setex_other[OF assms(2)] assms(1) in simp)

text \<open>Clearing removes every session of the class, and touches no key of another prefix.\<close>

lemma clear_all:
  assumes "kv_up u (kv_ix u)" and "kv_up u (Suc (kv_ix u))"
  shows "fst (store_clear ops c u) = Inr ()"
    and "kget ops (clock u (ticks u)) k (kv (snd (store_clear ops c u))) =
      (if prefix (class_prefix c) k then None else kget ops (clock u (ticks u)) k (kv u))"
proof -
  have "prefix (class_prefix c) k \<Longrightarrow> kscan ops (clock u (ticks u)) (class_prefix c) (kv u) = [] \<Longrightarrow>
      kget ops (clock u (ticks u)) k (kv u) = None"
    using scan[of "clock u (ticks u)" "class_prefix c" "kv u"] by auto
  then show "fst (store_clear ops c u) = Inr ()"
    and "kget ops (clock u (ticks u)) k (kv (snd (store_clear ops c u))) =
      (if prefix (class_prefix c) k then None else kget ops (clock u (ticks u)) k (kv u))"
    using assms clear_prefix[of "clock u (ticks u)" k "class_prefix c" "kv u"]
    by (auto simp: store_clear_def redis_defs bind_def Let_def)
qed

end

end
