(* ===== verification/Pydantic.thy ===== *)
theory Pydantic
  imports Decimals Dates
begin

text \<open>
  How the pydantic models of the services read JSON objects (\<open>Model(**data)\<close>).
  \<^item> Which JSON values a field of type int, bool, Decimal, date or datetime accepts is pydantic's:
    the record \<open>coercions\<close> is a parameter of every model that has such fields.
  \<^item> A missing required field or a value that is not accepted raises ValidationError; expanding
    anything but an object raises TypeError.
\<close>

record coercions =
  int_of :: "json \<Rightarrow> int option"
  bool_of :: "json \<Rightarrow> bool option"
  dec_of :: "json \<Rightarrow> decimal option"
  date_of :: "json \<Rightarrow> date option"
  dt_of :: "json \<Rightarrow> datetime option"

type_synonym 'a reader = "json \<Rightarrow> 'a option"
type_synonym kvs = "(string \<times> json) list"

fun str_of :: "string reader" where
  "str_of (JStr s) = Some s"
| "str_of _ = None"

fun dict_of :: "kvs reader" where
  "dict_of (JObj ob) = Some ob"
| "dict_of _ = None"

fun nullable :: "'a reader \<Rightarrow> 'a option reader" where
  "nullable p JNull = Some None"
| "nullable p j = map_option Some (p j)"

fun list_of :: "'a reader \<Rightarrow> 'a list reader" where
  "list_of p (JArr xs) = those (map p xs)"
| "list_of p _ = None"

fun model_of :: "(kvs \<Rightarrow> 'a option) \<Rightarrow> 'a reader" where
  "model_of f (JObj ob) = f ob"
| "model_of f _ = None"

text \<open>An enumeration by its values.\<close>

definition enum_of :: "(string \<times> 'a) list \<Rightarrow> 'a reader" where
  "enum_of vs j = (case j of JStr s \<Rightarrow> map_of vs s | _ \<Rightarrow> None)"

definition field :: "'a reader \<Rightarrow> string \<Rightarrow> kvs \<Rightarrow> 'a option" where
  "field p k ob = Option.bind (map_of ob k) p"

definition field_or :: "'a reader \<Rightarrow> string \<Rightarrow> 'a \<Rightarrow> kvs \<Rightarrow> 'a option" where
  "field_or p k d ob = (case map_of ob k of None \<Rightarrow> Some d | Some j \<Rightarrow> p j)"

definition build1 :: "('a \<Rightarrow> 'z) \<Rightarrow> 'a option \<Rightarrow> 'z option" where
  "build1 f a = map_option f a"

definition build2 :: "('a \<Rightarrow> 'b \<Rightarrow> 'z) \<Rightarrow> 'a option \<Rightarrow> 'b option \<Rightarrow> 'z option" where
  "build2 f a b = Option.bind a (\<lambda>x. build1 (f x) b)"

definition build3 :: "('a \<Rightarrow> 'b \<Rightarrow> 'c \<Rightarrow> 'z) \<Rightarrow> 'a option \<Rightarrow> 'b option \<Rightarrow> 'c option \<Rightarrow> 'z option" where
  "build3 f a b c = Option.bind a (\<lambda>x. build2 (f x) b c)"

definition build4 ::
  "('a \<Rightarrow> 'b \<Rightarrow> 'c \<Rightarrow> 'd \<Rightarrow> 'z) \<Rightarrow> 'a option \<Rightarrow> 'b option \<Rightarrow> 'c option \<Rightarrow> 'd option \<Rightarrow> 'z option" where
  "build4 f a b c d = Option.bind a (\<lambda>x. build3 (f x) b c d)"

definition build5 ::
  "('a \<Rightarrow> 'b \<Rightarrow> 'c \<Rightarrow> 'd \<Rightarrow> 'e \<Rightarrow> 'z) \<Rightarrow>
   'a option \<Rightarrow> 'b option \<Rightarrow> 'c option \<Rightarrow> 'd option \<Rightarrow> 'e option \<Rightarrow> 'z option" where
  "build5 f a b c d e = Option.bind a (\<lambda>x. build4 (f x) b c d e)"

definition build6 ::
  "('a \<Rightarrow> 'b \<Rightarrow> 'c \<Rightarrow> 'd \<Rightarrow> 'e \<Rightarrow> 'f \<Rightarrow> 'z) \<Rightarrow>
   'a option \<Rightarrow> 'b option \<Rightarrow> 'c option \<Rightarrow> 'd option \<Rightarrow> 'e option \<Rightarrow> 'f option \<Rightarrow> 'z option" where
  "build6 f a b c d e g = Option.bind a (\<lambda>x. build5 (f x) b c d e g)"

definition build8 ::
  "('a \<Rightarrow> 'b \<Rightarrow> 'c \<Rightarrow> 'd \<Rightarrow> 'e \<Rightarrow> 'f \<Rightarrow> 'g \<Rightarrow> 'h \<Rightarrow> 'z) \<Rightarrow>
   'a option \<Rightarrow> 'b option \<Rightarrow> 'c option \<Rightarrow> 'd option \<Rightarrow> 'e option \<Rightarrow> 'f option \<Rightarrow> 'g option \<Rightarrow> 'h option \<Rightarrow> 'z option" where
  "build8 f a b c d e g h i = Option.bind a (\<lambda>x. Option.bind b (\<lambda>y. build6 (f x y) c d e g h i))"

lemmas build_defs = build1_def build2_def build3_def build4_def build5_def build6_def build8_def

text \<open>\<open>Model(**data)\<close>.\<close>

fun construct :: "(kvs \<Rightarrow> 'a option) \<Rightarrow> json \<Rightarrow> 'a res" where
  "construct f (JObj ob) = (case f ob of None \<Rightarrow> Inl ValidationExn | Some x \<Rightarrow> Inr x)"
| "construct f _ = Inl TypeExn"

lemma construct_Inr_iff: "construct f j = Inr x \<longleftrightarrow> (\<exists>ob. j = JObj ob \<and> f ob = Some x)"
  by (cases j) (auto split: option.splits)

lemma construct_Inl: "construct f j = Inl e \<Longrightarrow> e = ValidationExn \<or> e = TypeExn"
  by (cases j) (auto split: option.splits)

text \<open>\<open>[Model(**x) for x in raw.get(k, [])]\<close>: iterating anything but a list of objects raises TypeError.\<close>

fun elements :: "json \<Rightarrow> json list res" where
  "elements (JArr xs) = Inr xs"
| "elements (JObj ob) = Inr (map (JStr \<circ> fst) ob)"
| "elements (JStr s) = Inr (map (\<lambda>c. JStr [c]) s)"
| "elements _ = Inl TypeExn"

definition construct_all :: "(kvs \<Rightarrow> 'a option) \<Rightarrow> json \<Rightarrow> string \<Rightarrow> 'a list res" where
  "construct_all f raw k =
     bind_res (obj_get_default raw k (JArr [])) (\<lambda>j. bind_res (elements j) (map_res (construct f)))"

lemma those_Some_iff: "those xs = Some ys \<longleftrightarrow> xs = map Some ys"
  by (induction xs arbitrary: ys) (auto split: option.splits)

text \<open>The values the coercions accept as they are, for concrete evaluations.\<close>

definition iso_date :: "string \<Rightarrow> date option" where
  "iso_date t =
     (if length t = 10 \<and> t ! 4 = CHR ''-'' \<and> t ! 7 = CHR ''-'' then
        (case (read_digits (take 4 t), read_digits (take 2 (drop 5 t)), read_digits (drop 8 t)) of
           (Some y, Some m, Some d) \<Rightarrow>
             (if valid_date (Date (int y) (int m) (int d)) then Some (Date (int y) (int m) (int d)) else None)
         | _ \<Rightarrow> None)
      else None)"

definition plain :: coercions where
  "plain =
     \<lparr>int_of = (\<lambda>j. case j of JInt i \<Rightarrow> Some i | _ \<Rightarrow> None),
      bool_of = (\<lambda>j. case j of JBool b \<Rightarrow> Some b | _ \<Rightarrow> None),
      dec_of = (\<lambda>j. case j of JInt i \<Rightarrow> Some (Dec i 0) | JStr s \<Rightarrow> dec_parse s | _ \<Rightarrow> None),
      date_of = (\<lambda>j. case j of JStr t \<Rightarrow> iso_date t | _ \<Rightarrow> None),
      dt_of = (\<lambda>j. case j of JInt i \<Rightarrow> Some (Aware (seconds i)) | _ \<Rightarrow> None)\<rparr>"

section \<open>Shared models\<close>

text \<open>\<open>app/domains/shared/models.py\<close>.\<close>

record cheque_window =
  benefit_month :: date
  income_date :: date
  cheque_issue_date :: date
  period_close_date :: datetime

definition make_window :: "date \<Rightarrow> date \<Rightarrow> date \<Rightarrow> datetime \<Rightarrow> cheque_window" where
  "make_window b i c p =
     \<lparr>benefit_month = b, income_date = i, cheque_issue_date = c, period_close_date = p\<rparr>"

definition window_of :: "coercions \<Rightarrow> kvs \<Rightarrow> cheque_window option" where
  "window_of co ob = build4 make_window (field (date_of co) ''benefit_month'' ob) (field (date_of co) ''income_date'' ob)
     (field (date_of co) ''cheque_issue_date'' ob) (field (dt_of co) ''period_close_date'' ob)"

end
