(* ===== verification/Auth.thy ===== *)
theory Auth
  imports Pydantic Validators
begin

text \<open>
  Authentication and start-up: \<open>app/auth\<close>, \<open>app/config.py\<close>, the worker gates of
  \<open>app/dependencies/require_worker_role.py\<close>, the role of a worker's groups, the choice and the cache
  of ICM clients (\<open>app/services/icm/deps.py\<close>), the feature flag and the CORS origins.
  The verification of a token's signature and times (PyJWT) is the parameter \<open>decode\<close>: its claims,
  or nothing where PyJWT raises.
\<close>

section \<open>Environment\<close>

text \<open>\<open>os.getenv\<close> and the process environment.\<close>

type_synonym env = "string \<Rightarrow> string option"

definition getenv :: "env \<Rightarrow> string \<Rightarrow> string \<Rightarrow> string" where
  "getenv env k d = (case env k of None \<Rightarrow> d | Some v \<Rightarrow> v)"

definition ENVIRONMENT :: "env \<Rightarrow> string" where
  "ENVIRONMENT env = getenv env ''ENVIRONMENT'' ''local''"

definition INSECURE_DEFAULTS :: "string list" where
  "INSECURE_DEFAULTS = [''change-me-in-production'', ''secret'', '''']"

definition get_jwt_secret :: "env \<Rightarrow> string" where
  "get_jwt_secret env = getenv env ''JWT_SECRET'' ''change-me-in-production''"

definition is_local :: "string \<Rightarrow> bool" where
  "is_local e \<longleftrightarrow> e \<in> set [''local'', ''test'']"

definition validate_jwt_config :: "env \<Rightarrow> unit res" where
  "validate_jwt_config env =
     (if \<not> is_local (ENVIRONMENT env) \<and> get_jwt_secret env \<in> set INSECURE_DEFAULTS
      then Inl (RuntimeExn (''JWT_SECRET must be set to a secure value in environment '' @ [CHR 0x27] @ ENVIRONMENT env @
        [CHR 0x27] @ ''. Set the JWT_SECRET environment variable.''))
      else Inr ())"

record settings =
  environment :: string
  database_url :: string
  redis_url :: string
  jwt_secret :: string
  jwt_algorithm :: string
  cors_allowed_origins :: string
  icm_base_url :: string
  icm_client_id :: string
  icm_client_secret :: string
  icm_token_url :: string
  av_webhook_secret :: string
  feature_t5_disabled :: bool

definition default_settings :: settings where
  "default_settings =
     \<lparr>environment = ''local'', database_url = ''sqlite+aiosqlite:///./dev.db'',
      redis_url = ''redis://localhost:6379/0'', jwt_secret = ''change-me-in-production'',
      jwt_algorithm = ''HS256'', cors_allowed_origins = ''http://localhost:5173,http://localhost:3000'',
      icm_base_url = '''', icm_client_id = '''', icm_client_secret = '''', icm_token_url = '''',
      av_webhook_secret = '''', feature_t5_disabled = False\<rparr>"

definition validate_production_config :: "settings \<Rightarrow> settings res" where
  "validate_production_config st =
     (if is_local (environment st) then Inr st
      else if jwt_secret st \<in> set INSECURE_DEFAULTS then Inl ValidationExn
      else if \<not> list_all (\<lambda>v. v \<noteq> []) [icm_base_url st, icm_client_id st, icm_client_secret st, icm_token_url st]
      then Inl ValidationExn
      else Inr st)"

text \<open>\<open>FeatureFlagService.t5_disabled\<close>.\<close>

definition lower_char :: "char \<Rightarrow> char" where
  "lower_char c =
     (if (65::nat) \<le> of_char c \<and> (of_char c :: nat) \<le> 90 then char_of (of_char c + 32 :: nat) else c)"

definition t5_disabled :: "env \<Rightarrow> bool" where
  "t5_disabled env \<longleftrightarrow> map lower_char (getenv env ''FEATURE_T5_DISABLED'' ''false'') = ''true''"

text \<open>The origins of \<open>main.py\<close>: \<open>split(",")\<close>, stripped, without the empty ones.\<close>

fun split_at :: "'a \<Rightarrow> 'a list \<Rightarrow> 'a list list" where
  "split_at x [] = [[]]"
| "split_at x (c # cs) =
     (if c = x then [] # split_at x cs
      else case split_at x cs of [] \<Rightarrow> [[c]] | p # ps \<Rightarrow> (c # p) # ps)"

definition allowed_origins :: "settings \<Rightarrow> ustr option \<Rightarrow> ustr list" where
  "allowed_origins st raw =
     (let text = (case raw of Some r \<Rightarrow> r
        | None \<Rightarrow> if is_local (environment st) then ascii ''http://localhost:5173,http://localhost:3000'' else [])
      in filter (\<lambda>x. x \<noteq> []) (map strip (split_at 44 text)))"

section \<open>Users\<close>

datatype user_role = CLIENT | WORKER | ADMIN

definition role_values :: "(string \<times> user_role) list" where
  "role_values = [(''CLIENT'', CLIENT), (''WORKER'', WORKER), (''ADMIN'', ADMIN)]"

fun show_role :: "user_role \<Rightarrow> string" where
  "show_role CLIENT = ''UserRole.CLIENT''"
| "show_role WORKER = ''UserRole.WORKER''"
| "show_role ADMIN = ''UserRole.ADMIN''"

record user_context =
  user_id :: string
  role :: user_role
  bceid_guid :: "string option"
  idir_username :: "string option"

definition make_user :: "string \<Rightarrow> user_role \<Rightarrow> string option \<Rightarrow> string option \<Rightarrow> user_context" where
  "make_user u r b i = \<lparr>user_id = u, role = r, bceid_guid = b, idir_username = i\<rparr>"

type_synonym decode_fun = "string \<Rightarrow> string \<Rightarrow> kvs option"

text \<open>
  The body of the \<open>try\<close> after decoding: \<open>payload["sub"]\<close>, then \<open>UserRole(payload["role"])\<close>, then the
  validation of \<open>UserContext\<close>, where \<open>get\<close> gives null for an absent claim.
\<close>

definition claim :: "kvs \<Rightarrow> string \<Rightarrow> json" where
  "claim p k = (case map_of p k of None \<Rightarrow> JNull | Some j \<Rightarrow> j)"

definition user_of_claims :: "kvs \<Rightarrow> user_context res" where
  "user_of_claims p =
     bind_res (obj_item (JObj p) ''sub'') (\<lambda>sub.
     bind_res (obj_item (JObj p) ''role'') (\<lambda>rl.
     bind_res (case enum_of role_values rl of None \<Rightarrow> Inl (ValueExn ''not a valid UserRole'') | Some r \<Rightarrow> Inr r) (\<lambda>r.
     case build4 make_user (str_of sub) (Some r) (nullable str_of (claim p ''bceid_guid''))
         (nullable str_of (claim p ''idir_username'')) of
       None \<Rightarrow> Inl ValidationExn
     | Some u \<Rightarrow> Inr u)))"

definition is_token_error :: "exn \<Rightarrow> bool" where
  "is_token_error e \<longleftrightarrow> e = JWTExn \<or> e = KeyExn \<or> is_value_error e"

definition get_current_user :: "decode_fun \<Rightarrow> string \<Rightarrow> string option \<Rightarrow> user_context res" where
  "get_current_user decode secret credentials =
     (case credentials of
        None \<Rightarrow> Inl (HTTPExn 401 ''Missing authentication token'')
      | Some token \<Rightarrow>
          (case bind_res (case decode token secret of None \<Rightarrow> Inl JWTExn | Some p \<Rightarrow> Inr p) user_of_claims of
             Inr u \<Rightarrow> Inr u
           | Inl e \<Rightarrow> if is_token_error e then Inl (HTTPExn 401 ''Invalid or expired token'') else Inl e))"

definition require_role :: "user_role \<Rightarrow> user_context \<Rightarrow> user_context res" where
  "require_role required u =
     (if role u \<noteq> required \<and> \<not> (required = WORKER \<and> role u = ADMIN)
      then Inl (HTTPExn 403 (''Role '' @ [CHR 0x27] @ show_role required @ [CHR 0x27] @ '' required; caller has '' @ [CHR 0x27] @
        show_role (role u) @ [CHR 0x27]))
      else Inr u)"

definition require_worker_role :: "user_context \<Rightarrow> user_context res" where
  "require_worker_role u =
     (if role u \<notin> {WORKER, ADMIN} then Inl (HTTPExn 403 ''Worker role required'')
      else if idir_username u = None \<or> idir_username u = Some [] then Inl (HTTPExn 403 ''IDIR authentication required'')
      else Inr u)"

definition require_super_admin :: "user_context \<Rightarrow> user_context res" where
  "require_super_admin u =
     bind_res (require_worker_role u) (\<lambda>w.
       if role w \<noteq> ADMIN then Inl (HTTPExn 403 ''Super admin role required'') else Inr w)"

text \<open>The gates of the routes: the token, then the role.\<close>

definition as_role :: "decode_fun \<Rightarrow> string \<Rightarrow> user_role \<Rightarrow> string option \<Rightarrow> user_context res" where
  "as_role decode secret r credentials = bind_res (get_current_user decode secret credentials) (require_role r)"

definition as_worker :: "decode_fun \<Rightarrow> string \<Rightarrow> string option \<Rightarrow> user_context res" where
  "as_worker decode secret credentials = bind_res (get_current_user decode secret credentials) require_worker_role"

datatype worker_role = SSBC_WORKER | SUPER_ADMIN

definition resolve_role :: "string list \<Rightarrow> worker_role" where
  "resolve_role groups = (if ''MYSS_Admins'' \<in> set groups then SUPER_ADMIN else SSBC_WORKER)"

section \<open>ICM clients\<close>

datatype client_class =
    AccountClient | AdminClient | AttachmentClient | EPClient | MonthlyReportClient | NotificationClient
  | PaymentClient | ProfileClient | RegistrationClient | SRClient

datatype icm_instance =
    MockInstance client_class
  | RealInstance client_class (inst_url: string) (inst_id: string) (inst_secret: string) (inst_token_url: string)

definition use_mock :: "settings \<Rightarrow> bool" where
  "use_mock st \<longleftrightarrow> is_local (environment st) \<and> icm_base_url st = []"

text \<open>Every class has a mock (\<open>MOCK_CLIENT_MAP\<close>).\<close>

definition get_siebel_client ::
  "settings \<Rightarrow> client_class \<Rightarrow> (client_class \<Rightarrow> icm_instance option) \<Rightarrow> icm_instance \<times> (client_class \<Rightarrow> icm_instance option)" where
  "get_siebel_client st cls clients =
     (case clients cls of
        Some c \<Rightarrow> (c, clients)
      | None \<Rightarrow>
          let c = (if use_mock st then MockInstance cls
             else RealInstance cls (icm_base_url st) (icm_client_id st) (icm_client_secret st) (icm_token_url st))
          in (c, clients(cls \<mapsto> c)))"

definition clear_clients :: "(client_class \<Rightarrow> icm_instance option) \<Rightarrow> client_class \<Rightarrow> icm_instance option" where
  "clear_clients clients = Map.empty"

section \<open>Facts\<close>

lemma nullable_str_Some: "nullable str_of j = Some v \<longleftrightarrow> (j = JNull \<and> v = None) \<or> (\<exists>t. j = JStr t \<and> v = Some t)"
  by (cases j) auto

lemma enum_of_Some: "enum_of vs j = Some x \<longleftrightarrow> (\<exists>t. j = JStr t \<and> map_of vs t = Some x)"
  by (cases j) (auto simp: enum_of_def)

lemma user_of_claims_Inr:
  "user_of_claims p = Inr u \<longleftrightarrow>
     map_of p ''sub'' = Some (JStr (user_id u)) \<and>
     (\<exists>t. map_of p ''role'' = Some (JStr t) \<and> map_of role_values t = Some (role u)) \<and>
     claim p ''bceid_guid'' = opt_json (bceid_guid u) \<and> claim p ''idir_username'' = opt_json (idir_username u)"
  (is "?l \<longleftrightarrow> ?r")
proof
  assume ?l
  then show ?r
    by (auto simp: user_of_claims_def build_defs make_user_def nullable_str_Some enum_of_Some bind_eq_Some_conv
        elim!: str_of.elims split: option.splits)
next
  assume ?r
  then show ?l
    by (cases u; cases "bceid_guid u"; cases "idir_username u")
      (auto simp: user_of_claims_def build_defs make_user_def enum_of_def)
qed

lemma user_of_claims_Inl: "user_of_claims p = Inl e \<Longrightarrow> is_token_error e"
  by (auto simp: user_of_claims_def is_token_error_def split: option.splits)

lemma get_current_user_Inl: "get_current_user decode secret cr = Inl e \<Longrightarrow> \<exists>m. e = HTTPExn 401 m"
  by (auto simp: get_current_user_def is_token_error_def split: option.splits sum.splits if_splits
      dest: user_of_claims_Inl)

lemma get_current_user_Inr:
  "get_current_user decode secret cr = Inr u \<longleftrightarrow>
     (\<exists>token p. cr = Some token \<and> decode token secret = Some p \<and> user_of_claims p = Inr u)"
  by (auto simp: get_current_user_def split: option.splits sum.splits)

text \<open>What the claims of a verified token must be for a user.\<close>

definition token_of_user :: "decode_fun \<Rightarrow> string \<Rightarrow> string option \<Rightarrow> user_context \<Rightarrow> bool" where
  "token_of_user decode secret cr u \<longleftrightarrow>
     (\<exists>token p. cr = Some token \<and> decode token secret = Some p \<and>
        map_of p ''sub'' = Some (JStr (user_id u)) \<and>
        (\<exists>t. map_of p ''role'' = Some (JStr t) \<and> map_of role_values t = Some (role u)) \<and>
        claim p ''bceid_guid'' = opt_json (bceid_guid u) \<and> claim p ''idir_username'' = opt_json (idir_username u))"

lemma get_current_user_iff: "get_current_user decode secret cr = Inr u \<longleftrightarrow> token_of_user decode secret cr u"
  by (auto simp: get_current_user_Inr user_of_claims_Inr token_of_user_def)

lemma require_role_Inr: "require_role r v = Inr u \<longleftrightarrow> v = u \<and> (role u = r \<or> (r = WORKER \<and> role u = ADMIN))"
  by (auto simp: require_role_def)

lemma require_worker_role_Inr:
  "require_worker_role v = Inr u \<longleftrightarrow> v = u \<and> role u \<in> {WORKER, ADMIN} \<and> (\<exists>i. idir_username u = Some i \<and> i \<noteq> [])"
  by (cases "idir_username v") (auto simp: require_worker_role_def split: if_splits)

lemma gate_refusals:
  assumes "gate = as_role decode secret r \<or> gate = as_worker decode secret"
  shows "case gate cr of Inr x \<Rightarrow> True
    | Inl e \<Rightarrow> (\<exists>m. e = HTTPExn (if is_ok (get_current_user decode secret cr) then 403 else 401) m)"
proof (cases "get_current_user decode secret cr")
  case (Inl e)
  then have "gate cr = Inl e" using assms by (elim disjE) (simp_all add: as_role_def as_worker_def)
  then show ?thesis using Inl get_current_user_Inl[OF Inl] by auto
next
  case (Inr x)
  then have "gate cr = require_role r x \<or> gate cr = require_worker_role x"
    using assms by (elim disjE) (simp_all add: as_role_def as_worker_def)
  then show ?thesis using Inr by (elim disjE) (simp_all add: require_role_def require_worker_role_def)
qed

text \<open>C25.
  The two role gates accept exactly whom they should. The gate of the client routes (\<open>require_role\<close>) accepts a request exactly
  when it carries a token that PyJWT verifies with the configured secret, whose claims give the user (a text subject, a role
  of the enumeration, text or absent BCeID and IDIR names) and whose role is the required one, or ADMIN where WORKER is
  required. The gate of the worker and admin routes (\<open>require_worker_role\<close>) accepts it exactly when such a token gives a
  worker or an administrator with an IDIR name that is not empty. Every refusal of either gate is a 401 for the token or a 403
  for the user: no other exception escapes, whatever the claims.
\<close>

theorem role_gate_exact:
  "(as_role decode secret r cr = Inr u \<longleftrightarrow>
      token_of_user decode secret cr u \<and> (role u = r \<or> (r = WORKER \<and> role u = ADMIN))) \<and>
   (as_worker decode secret cr = Inr u \<longleftrightarrow>
      token_of_user decode secret cr u \<and> role u \<in> {WORKER, ADMIN} \<and> (\<exists>i. idir_username u = Some i \<and> i \<noteq> [])) \<and>
   (case as_role decode secret r cr of Inr x \<Rightarrow> True
    | Inl e \<Rightarrow> (\<exists>m. e = HTTPExn (if is_ok (get_current_user decode secret cr) then 403 else 401) m)) \<and>
   (case as_worker decode secret cr of Inr x \<Rightarrow> True
    | Inl e \<Rightarrow> (\<exists>m. e = HTTPExn (if is_ok (get_current_user decode secret cr) then 403 else 401) m))"
proof (intro conjI)
  show "as_role decode secret r cr = Inr u \<longleftrightarrow>
      token_of_user decode secret cr u \<and> (role u = r \<or> (r = WORKER \<and> role u = ADMIN))"
    unfolding as_role_def bind_res_Inr_iff get_current_user_iff require_role_Inr by blast
  show "as_worker decode secret cr = Inr u \<longleftrightarrow>
      token_of_user decode secret cr u \<and> role u \<in> {WORKER, ADMIN} \<and> (\<exists>i. idir_username u = Some i \<and> i \<noteq> [])"
    unfolding as_worker_def bind_res_Inr_iff get_current_user_iff require_worker_role_Inr by blast
qed (rule gate_refusals[where r = r], simp)+

lemma as_worker_Inr:
  "as_worker decode secret cr = Inr u \<Longrightarrow>
     role u \<in> {WORKER, ADMIN} \<and> (\<exists>i. idir_username u = Some i \<and> i \<noteq> []) \<and> get_current_user decode secret cr = Inr u"
  by (auto simp: as_worker_def require_worker_role_def split: if_splits)

lemma get_siebel_client_stable:
  "get_siebel_client st cls clients = (c, clients') \<Longrightarrow> get_siebel_client st' cls clients' = (c, clients')"
  by (auto simp: get_siebel_client_def Let_def split: option.splits)

text \<open>
  Outside the local and test environments a process whose settings validated uses no insecure
  signing secret and no mock: each ICM client class gets one instance of the real class, with
  non-empty URL, credentials and token URL, and every later request for the class gets that same
  instance (with its circuit breaker and token) until the cache is cleared.
\<close>

theorem production_uses_real_clients:
  assumes "validate_production_config st = Inr st'" and "\<not> is_local (environment st)"
    and "clients cls = None" and "get_siebel_client st cls clients = (c, clients')"
  shows "jwt_secret st \<notin> set INSECURE_DEFAULTS \<and>
    (\<exists>u i s t. c = RealInstance cls u i s t \<and> u \<noteq> [] \<and> i \<noteq> [] \<and> s \<noteq> [] \<and> t \<noteq> []) \<and>
    (\<forall>st2. get_siebel_client st2 cls clients' = (c, clients'))"
proof -
  have "\<forall>st2. get_siebel_client st2 cls clients' = (c, clients')"
    using get_siebel_client_stable[OF assms(4)] by blast
  then show ?thesis using assms
    by (auto simp: validate_production_config_def get_siebel_client_def use_mock_def Let_def split: if_splits)
qed

theorem production_uses_real_clients_witness:
  "\<exists>c clients'. get_siebel_client (default_settings\<lparr>environment := ''prod'', jwt_secret := ''x'', icm_base_url := ''u'',
       icm_client_id := ''i'', icm_client_secret := ''s'', icm_token_url := ''t''\<rparr>) SRClient Map.empty = (c, clients') \<and>
     c \<noteq> MockInstance SRClient"
proof -
  let ?st = "default_settings\<lparr>environment := ''prod'', jwt_secret := ''x'', icm_base_url := ''u'',
       icm_client_id := ''i'', icm_client_secret := ''s'', icm_token_url := ''t''\<rparr>"
  have v: "validate_production_config ?st = Inr ?st" "\<not> is_local (environment ?st)"
    by (simp_all add: validate_production_config_def is_local_def default_settings_def INSECURE_DEFAULTS_def)
  obtain c clients' where c: "get_siebel_client ?st SRClient Map.empty = (c, clients')"
    by (cases "get_siebel_client ?st SRClient Map.empty") auto
  show ?thesis
    using production_uses_real_clients[OF v _ c] c by auto
qed

end
