(* ===== verification/Ao_Registration.thy ===== *)
theory Ao_Registration
  imports Session_Store Auth Machines
begin

text \<open>
  The admin-override (AO) registration of workers: \<open>app/models/ao_registration.py\<close>, the session
  dependency \<open>require_ao_session.py\<close>, \<open>ao_registration_service.py\<close>, \<open>ao_sr_service.py\<close> and the routes
  of \<open>app/routers/admin/ao.py\<close>. Parameters: the store \<open>ops\<close>, the bcrypt hash \<open>hashpw\<close> of a text and
  a salt, and \<open>stamp\<close>, the form in which the model library leaves a timestamp it read.
\<close>

section \<open>Sessions\<close>

record ao_session =
  ao_id :: string
  session_token :: string
  worker_idir :: string
  applicant_sr_num :: string
  applicant_sin_hash :: string
  step_reached :: int
  expires_at :: expiry
  completed_at :: "datetime option"

definition ao_dump :: "ao_session \<Rightarrow> json" where
  "ao_dump x = JObj [(''id'', JStr (ao_id x)), (''session_token'', JStr (session_token x)),
     (''worker_idir'', JStr (worker_idir x)), (''applicant_sr_num'', JStr (applicant_sr_num x)),
     (''applicant_sin_hash'', JStr (applicant_sin_hash x)), (''step_reached'', JInt (step_reached x)),
     (''expires_at'', expiry_json (expires_at x)),
     (''completed_at'', case completed_at x of None \<Rightarrow> JNull | Some d \<Rightarrow> time_json d)]"

definition make_ao_session ::
  "string \<Rightarrow> string \<Rightarrow> string \<Rightarrow> string \<Rightarrow> string \<Rightarrow> int \<Rightarrow> expiry \<Rightarrow> datetime option \<Rightarrow> ao_session" where
  "make_ao_session i t w n h s e d =
     \<lparr>ao_id = i, session_token = t, worker_idir = w, applicant_sr_num = n, applicant_sin_hash = h,
      step_reached = s, expires_at = e, completed_at = d\<rparr>"

definition ao_load :: "(datetime \<Rightarrow> expiry) \<Rightarrow> json \<Rightarrow> ao_session res" where
  "ao_load stamp =
     construct (\<lambda>ob. build8 make_ao_session
       (field str_of ''id'' ob) (field str_of ''session_token'' ob) (field str_of ''worker_idir'' ob)
       (field str_of ''applicant_sr_num'' ob) (field str_of ''applicant_sin_hash'' ob)
       (field_or (int_of plain) ''step_reached'' 1 ob)
       (map_option stamp (field json_time ''expires_at'' ob))
       (field_or (nullable json_time) ''completed_at'' None ob))"

definition AO_PREFIX :: string where "AO_PREFIX = ''ao_session:''"
definition AO_TTL :: int where "AO_TTL = 2592000"
definition AO_SESSION_EXPIRY_DAYS :: int where "AO_SESSION_EXPIRY_DAYS = 30"

definition ao_class :: "(datetime \<Rightarrow> expiry) \<Rightarrow> ao_session session_class" where
  "ao_class stamp =
     \<lparr>class_prefix = AO_PREFIX, class_ttl = AO_TTL, class_dump = ao_dump, class_load = ao_load stamp,
      class_expires = expires_at\<rparr>"

definition set_ao_session where
  "set_ao_session ops stamp k x = store_set ops (ao_class stamp) k x"

definition get_ao_session where
  "get_ao_session ops stamp k = store_get ops (ao_class stamp) k"

definition delete_ao_session where
  "delete_ao_session ops stamp k = store_delete ops (ao_class stamp) k"

definition clear_ao_sessions where
  "clear_ao_sessions ops stamp = store_clear ops (ao_class stamp)"

definition require_ao_session ::
  "'r kv_ops \<Rightarrow> (datetime \<Rightarrow> expiry) \<Rightarrow> string \<Rightarrow> (('i, 'r, 'z) kvbase_scheme, ao_session) io" where
  "require_ao_session ops stamp token =
     bind (get_ao_session ops stamp token) (\<lambda>x.
       case x of None \<Rightarrow> raise (HTTPExn 401 ''AO registration session not found or expired'') | Some y \<Rightarrow> ret y)"

section \<open>The service\<close>

text \<open>The state: the shared base with the store, and the salts of \<open>bcrypt.gensalt\<close>.\<close>

record ('i, 'r) ao_state = "('i, 'r) kvbase" +
  salts :: "nat \<Rightarrow> string"
  salt_ix :: nat

definition gensalt :: "(('i, 'r, 'z) ao_state_scheme, string) io" where
  "gensalt s = (Inr (salts s (salt_ix s)), s\<lparr>salt_ix := Suc (salt_ix s)\<rparr>)"

definition days :: "int \<Rightarrow> int" where
  "days n = seconds (86400 * n)"

definition ao_login_service ::
  "(string \<Rightarrow> string \<Rightarrow> string res) \<Rightarrow> bool \<Rightarrow> string \<Rightarrow> string \<Rightarrow> string \<Rightarrow> (('i, 'r, 'z) ao_state_scheme, ao_session) io" where
  "ao_login_service hashpw has_client sr_number sin idir =
     (if \<not> has_client then raise (AOLoginExn ''No ICM admin client configured'')
      else
        bind (catch (bind (lift_res (validate_ao_login sr_number sin)) (\<lambda>_. ret ())) is_icm_error
          (\<lambda>_. raise (AOLoginExn ''Invalid SR number or SIN''))) (\<lambda>_.
        bind gensalt (\<lambda>salt.
        bind (lift_res (hashpw sin salt)) (\<lambda>sin_hash.
        bind now_utc (\<lambda>now.
        bind fresh_uuid (\<lambda>token.
        bind fresh_uuid (\<lambda>i.
        ret (make_ao_session i token idir sr_number sin_hash 1 (Stamp (Aware (now + days AO_SESSION_EXPIRY_DAYS))) None))))))))"

definition get_step_data :: "ao_session \<Rightarrow> int \<Rightarrow> json" where
  "get_step_data x step =
     JObj [(''step'', JInt step), (''step_reached'', JInt (step_reached x)),
           (''applicant_sr_num'', JStr (applicant_sr_num x)), (''data'', JObj [])]"

definition ao_advance_step :: "ao_session \<Rightarrow> int \<Rightarrow> ao_session" where
  "ao_advance_step x step = (if step_reached x \<le> step then x\<lparr>step_reached := step + 1\<rparr> else x)"

definition submit_ao_form_service :: "string \<Rightarrow> json \<Rightarrow> ao_session \<Rightarrow> json" where
  "submit_ao_form_service sr_id form_data x =
     JObj [(''sr_id'', JStr sr_id), (''status'', JStr ''submitted''), (''submitted_by'', JStr (worker_idir x)),
           (''applicant_sr_num'', JStr (applicant_sr_num x))]"

section \<open>The routes\<close>

text \<open>\<open>auth\<close> is the result of the \<open>require_worker_role\<close> dependency (\<open>as_worker\<close>).\<close>

definition idir_or_id :: "user_context \<Rightarrow> string" where
  "idir_or_id u = (case idir_username u of None \<Rightarrow> user_id u | Some i \<Rightarrow> if i = [] then user_id u else i)"

definition verify_session_ownership :: "ao_session \<Rightarrow> user_context \<Rightarrow> unit res" where
  "verify_session_ownership x u =
     (if Some (worker_idir x) \<noteq> idir_username u then Inl (HTTPExn 403 ''Session belongs to a different worker'')
      else Inr ())"

fun is_ao_login_error :: "exn \<Rightarrow> bool" where
  "is_ao_login_error (AOLoginExn _) = True"
| "is_ao_login_error _ = False"

definition ao_login ::
  "'r kv_ops \<Rightarrow> (datetime \<Rightarrow> expiry) \<Rightarrow> (string \<Rightarrow> string \<Rightarrow> string res) \<Rightarrow> user_context res \<Rightarrow> string \<Rightarrow> string \<Rightarrow>
   (('i, 'r, 'z) ao_state_scheme, string \<times> expiry) io" where
  "ao_login ops stamp hashpw auth sr_number sin =
     bind (lift_res auth) (\<lambda>user.
     bind (catch (ao_login_service hashpw True sr_number sin (idir_or_id user)) is_ao_login_error
       (\<lambda>_. raise (HTTPExn 403 ''Invalid SR number or SIN''))) (\<lambda>x.
     bind (set_ao_session ops stamp (session_token x) x) (\<lambda>_.
     ret (session_token x, expires_at x))))"

definition get_registration_step ::
  "'r kv_ops \<Rightarrow> (datetime \<Rightarrow> expiry) \<Rightarrow> user_context res \<Rightarrow> string \<Rightarrow> string \<Rightarrow> int \<Rightarrow> (('i, 'r, 'z) ao_state_scheme, json) io" where
  "get_registration_step ops stamp auth xtoken token step =
     bind (require_ao_session ops stamp xtoken) (\<lambda>x.
     bind (lift_res auth) (\<lambda>user.
     bind (lift_res (verify_session_ownership x user)) (\<lambda>_.
     ret (JObj [(''step'', JInt step), (''data'', get_step_data x step)]))))"

definition submit_registration_step ::
  "'r kv_ops \<Rightarrow> (datetime \<Rightarrow> expiry) \<Rightarrow> user_context res \<Rightarrow> string \<Rightarrow> string \<Rightarrow> int \<Rightarrow> (('i, 'r, 'z) ao_state_scheme, json) io" where
  "submit_registration_step ops stamp auth xtoken token step =
     bind (require_ao_session ops stamp xtoken) (\<lambda>x.
     bind (lift_res auth) (\<lambda>user.
     bind (lift_res (verify_session_ownership x user)) (\<lambda>_.
     let y = ao_advance_step x step in
     bind (set_ao_session ops stamp (session_token y) y) (\<lambda>_.
     ret (JObj [(''step'', JInt step), (''data'', JObj [(''step_reached'', JInt (step_reached y))])])))))"

definition submit_ao_form ::
  "'r kv_ops \<Rightarrow> (datetime \<Rightarrow> expiry) \<Rightarrow> user_context res \<Rightarrow> string \<Rightarrow> string \<Rightarrow> json \<Rightarrow> (('i, 'r, 'z) ao_state_scheme, json) io" where
  "submit_ao_form ops stamp auth xtoken sr_id form_data =
     bind (require_ao_session ops stamp xtoken) (\<lambda>x.
     bind (lift_res auth) (\<lambda>user.
     bind (lift_res (verify_session_ownership x user)) (\<lambda>_.
     ret (submit_ao_form_service sr_id form_data x))))"

definition list_ia_applications :: "user_context res \<Rightarrow> json res" where
  "list_ia_applications auth = bind_res auth (\<lambda>_. Inr (JObj [(''applications'', JArr [])]))"

section \<open>The contract of the session module\<close>

definition ao_view :: "ao_session \<Rightarrow> ao_session \<times> instant" where
  "ao_view x = (x\<lparr>expires_at := Stamp (Naive 0)\<rparr>, expiry_instant (expires_at x))"

text \<open>The library leaves a timestamp as a value or as its text.\<close>

definition stamps :: "(datetime \<Rightarrow> expiry) \<Rightarrow> bool" where
  "stamps stamp \<longleftrightarrow> (\<forall>d. stamp d = Stamp d) \<or> (\<forall>d. stamp d = IsoText d)"

lemma stamps_instant: "stamps stamp \<Longrightarrow> expiry_instant (stamp d) = dt_instant d"
  by (auto simp: stamps_def)

lemma nullable_time [simp]: "nullable json_time (case d of None \<Rightarrow> JNull | Some t \<Rightarrow> time_json t) = Some d"
proof (cases d)
  case (Some t)
  then show ?thesis by (cases t) (simp_all add: json_time_def)
qed simp

lemma ao_load_dump:
  assumes "stamps stamp"
  shows "\<exists>y. ao_load stamp (ao_dump x) = Inr y \<and> ao_view y = ao_view x"
proof -
  obtain d where "json_time (expiry_json (expires_at x)) = Some d" "dt_instant d = expiry_instant (expires_at x)"
    using expiry_json_time by blast
  then show ?thesis
    by (simp add: ao_load_def ao_dump_def build_defs field_def field_or_def make_ao_session_def plain_def ao_view_def
        stamps_instant[OF assms])
qed

lemma ao_view_expires: "ao_view x = ao_view y \<Longrightarrow> expiry_instant (expires_at x) = expiry_instant (expires_at y)"
  by (simp add: ao_view_def)

lemma ao_view_fields:
  "ao_view y = ao_view x \<Longrightarrow> session_token y = session_token x \<and> worker_idir y = worker_idir x \<and>
     applicant_sr_num y = applicant_sr_num x \<and> applicant_sin_hash y = applicant_sin_hash x \<and>
     step_reached y = step_reached x \<and> expiry_instant (expires_at y) = expiry_instant (expires_at x)"
  by (cases x; cases y) (simp add: ao_view_def)

lemma ao_class_sel:
  "class_prefix (ao_class stamp) = AO_PREFIX" "class_ttl (ao_class stamp) = AO_TTL"
  "class_dump (ao_class stamp) = ao_dump" "class_load (ao_class stamp) = ao_load stamp"
  "class_expires (ao_class stamp) = expires_at"
  by (simp_all add: ao_class_def)

lemma ao_contract:
  assumes "kv_store ops" and "stamps stamp"
  shows "session_store ops (ao_class stamp) ao_view"
proof (rule session_store.intro[OF assms(1)], rule session_store_axioms.intro)
  show "\<exists>y. class_load (ao_class stamp) (class_dump (ao_class stamp) x) = Inr y \<and> ao_view y = ao_view x" for x
    unfolding ao_class_sel by (rule ao_load_dump[OF assms(2)])
  show "ao_view x = ao_view y \<Longrightarrow>
      expiry_instant (class_expires (ao_class stamp) x) = expiry_instant (class_expires (ao_class stamp) y)" for x y
    unfolding ao_class_sel by (rule ao_view_expires)
  show "0 < class_ttl (ao_class stamp)" by (simp add: ao_class_sel AO_TTL_def)
qed

interpretation ao: session_store ttl_ops "ao_class IsoText" ao_view
  by (rule ao_contract[OF ttl.kv_store_axioms]) (simp add: stamps_def)

section \<open>Requests\<close>

datatype ao_op =
    Login string string
  | GetStep string int
  | SubmitStep string int
  | SubmitForm string string json

datatype ao_reply = Granted string expiry | Answer json

definition answer :: "('s, json) io \<Rightarrow> ('s, ao_reply) io" where
  "answer m = bind m (\<lambda>j. ret (Answer j))"

fun ao_handle ::
  "'r kv_ops \<Rightarrow> (datetime \<Rightarrow> expiry) \<Rightarrow> (string \<Rightarrow> string \<Rightarrow> string res) \<Rightarrow> user_context res \<Rightarrow> ao_op \<Rightarrow>
   (('i, 'r) ao_state, ao_reply) io" where
  "ao_handle ops stamp hashpw auth (Login n sin) =
     bind (ao_login ops stamp hashpw auth n sin) (\<lambda>(token, e). ret (Granted token e))"
| "ao_handle ops stamp hashpw auth (GetStep token step) =
     answer (get_registration_step ops stamp auth token token step)"
| "ao_handle ops stamp hashpw auth (SubmitStep token step) =
     answer (submit_registration_step ops stamp auth token token step)"
| "ao_handle ops stamp hashpw auth (SubmitForm token sr_id form_data) =
     answer (submit_ao_form ops stamp auth token sr_id form_data)"

text \<open>One request: who makes it, what it asks and the outcome.\<close>

type_synonym ao_event = "user_context res \<times> ao_op \<times> ao_reply res"

inductive ao_step ::
  "'r kv_ops \<Rightarrow> (datetime \<Rightarrow> expiry) \<Rightarrow> (string \<Rightarrow> string \<Rightarrow> string res) \<Rightarrow>
   ('i, 'r) ao_state \<Rightarrow> ao_event \<Rightarrow> ('i, 'r) ao_state \<Rightarrow> bool" for ops stamp hashpw where
  ao_step: "ao_handle ops stamp hashpw auth op s = (r, t) \<Longrightarrow> ao_step ops stamp hashpw s (auth, op, r) t"

inductive_cases ao_stepE: "ao_step ops stamp hashpw s e t"
inductive_simps ao_step_iff: "ao_step ops stamp hashpw s (auth, op, r) t"

text \<open>What a request does to the store.\<close>

definition frame :: "('i, 'r) ao_state \<Rightarrow> ('i, 'r) ao_state \<Rightarrow> bool" where
  "frame s t \<longleftrightarrow> clock t = clock s \<and> ticks s \<le> ticks t"

definition drops :: "'r kv_ops \<Rightarrow> 'r \<Rightarrow> 'r \<Rightarrow> bool" where
  "drops ops r r' \<longleftrightarrow> r' = r \<or> (\<exists>k. r' = kdel ops [k] r)"

lemma require_ao_cases:
  assumes "require_ao_session ops stamp k s = (r, t)"
  shows "frame s t \<and>
    ((\<exists>x j. r = Inr x \<and> kv t = kv s \<and> kget ops (clock s (ticks s)) (AO_PREFIX @ k) (kv s) = Some j \<and>
        ao_load stamp j = Inr x \<and> clock s (Suc (ticks s)) \<le> expiry_instant (expires_at x)) \<or>
     ((\<exists>e. r = Inl e) \<and> drops ops (kv s) (kv t)))"
proof -
  obtain q u where q: "store_get ops (ao_class stamp) k s = (q, u)"
    by (cases "store_get ops (ao_class stamp) k s")
  have t: "t = u" "r = (case q of Inl e \<Rightarrow> Inl e | Inr None \<Rightarrow> Inl (HTTPExn 401 ''AO registration session not found or expired'')
      | Inr (Some x) \<Rightarrow> Inr x)"
    using assms q by (auto simp: require_ao_session_def get_ao_session_def bind_def split: sum.splits option.splits)
  note c = store_get_cases[OF q]
  show ?thesis
  proof (cases "\<exists>x. q = Inr (Some x)")
    case True
    then obtain x where x: "q = Inr (Some x)" by blast
    show ?thesis
      using store_get_fresh[OF q[unfolded x]] c t x by (auto simp: frame_def ao_class_def store_key_def)
  next
    case False
    then show ?thesis using c t by (auto simp: frame_def drops_def)
  qed
qed

definition opened_by :: "user_context res \<Rightarrow> string \<Rightarrow> bool" where
  "opened_by auth i \<longleftrightarrow> (\<exists>u. auth = Inr u \<and> idir_or_id u = i)"

definition owned_by :: "user_context res \<Rightarrow> string \<Rightarrow> bool" where
  "owned_by auth i \<longleftrightarrow> (\<exists>u. auth = Inr u \<and> idir_username u = Some i)"

lemma ownership_Inr: "verify_session_ownership x u = Inr () \<longleftrightarrow> idir_username u = Some (worker_idir x)"
  by (auto simp: verify_session_ownership_def)

text \<open>The part the three session routes share: the session, the worker, the ownership.\<close>

definition owned_session ::
  "'r kv_ops \<Rightarrow> (datetime \<Rightarrow> expiry) \<Rightarrow> user_context res \<Rightarrow> string \<Rightarrow> (('i, 'r) ao_state, ao_session) io" where
  "owned_session ops stamp auth token =
     bind (require_ao_session ops stamp token) (\<lambda>x.
     bind (lift_res auth) (\<lambda>user.
     bind (lift_res (verify_session_ownership x user)) (\<lambda>_. ret x)))"

lemma routes_owned:
  "get_registration_step ops stamp auth token p step =
     bind (owned_session ops stamp auth token) (\<lambda>x. ret (JObj [(''step'', JInt step), (''data'', get_step_data x step)]))"
  "submit_ao_form ops stamp auth token n d =
     bind (owned_session ops stamp auth token) (\<lambda>x. ret (submit_ao_form_service n d x))"
  "submit_registration_step ops stamp auth token p step =
     bind (owned_session ops stamp auth token) (\<lambda>x. let y = ao_advance_step x step in
       bind (set_ao_session ops stamp (session_token y) y) (\<lambda>_.
       ret (JObj [(''step'', JInt step), (''data'', JObj [(''step_reached'', JInt (step_reached y))])])))"
  unfolding get_registration_step_def submit_ao_form_def submit_registration_step_def owned_session_def
  by (simp_all only: bind_assoc bind_ret)

lemma owned_session_cases:
  assumes "owned_session ops stamp auth k s = (r, t)"
  shows "frame s t \<and>
    ((\<exists>x j. r = Inr x \<and> kv t = kv s \<and> kget ops (clock s (ticks s)) (AO_PREFIX @ k) (kv s) = Some j \<and>
        ao_load stamp j = Inr x \<and> clock s (Suc (ticks s)) \<le> expiry_instant (expires_at x) \<and>
        owned_by auth (worker_idir x)) \<or>
     ((\<exists>e. r = Inl e) \<and> drops ops (kv s) (kv t)))"
proof -
  obtain q u where q: "require_ao_session ops stamp k s = (q, u)" by (cases "require_ao_session ops stamp k s")
  note c = require_ao_cases[OF q]
  show ?thesis
  proof (cases q)
    case (Inl e)
    then show ?thesis using assms q c by (auto simp: owned_session_def bind_def)
  next
    case (Inr x)
    note x = Inr
    show ?thesis
    proof (cases auth)
      case (Inl e)
      then show ?thesis using assms q c x by (auto simp: owned_session_def bind_def drops_def)
    next
      case (Inr w)
      then show ?thesis using assms q c x
        by (auto simp: owned_session_def bind_def drops_def owned_by_def verify_session_ownership_def split: if_splits) metis
    qed
  qed
qed

section \<open>Who gets a session\<close>

text \<open>The sessions a request grants: token, worker and expiry.\<close>

fun granted :: "ao_event \<Rightarrow> (string \<times> string \<times> instant) set" where
  "granted (auth, Login n sin, Inr (Granted token e)) = {(token, i, expiry_instant e) | i. opened_by auth i}"
| "granted _ = {}"

text \<open>
  The effect of a request on the store: it drops a session, or writes one, either new and granted
  by this request, or read under the request's token and advanced.
\<close>

inductive ao_effect ::
  "'r kv_ops \<Rightarrow> (datetime \<Rightarrow> expiry) \<Rightarrow> ('i, 'r) ao_state \<Rightarrow> ao_event \<Rightarrow> ('i, 'r) ao_state \<Rightarrow> bool"
  for ops stamp s e t where
  quiet: "drops ops (kv s) (kv t) \<Longrightarrow> ao_effect ops stamp s e t"
| opened: "kv t = ksetex ops now (AO_PREFIX @ session_token x) AO_TTL (ao_dump x) (kv s) \<Longrightarrow>
    (session_token x, worker_idir x, expiry_instant (expires_at x)) \<in> granted e \<Longrightarrow> ao_effect ops stamp s e t"
| advanced: "kv t = ksetex ops now (AO_PREFIX @ session_token x) AO_TTL (ao_dump (ao_advance_step x n)) (kv s) \<Longrightarrow>
    kget ops now' (AO_PREFIX @ k) (kv s) = Some j \<Longrightarrow> ao_load stamp j = Inr x \<Longrightarrow> ao_effect ops stamp s e t"

lemma advance_same [simp]:
  "session_token (ao_advance_step x n) = session_token x" "worker_idir (ao_advance_step x n) = worker_idir x"
  "expires_at (ao_advance_step x n) = expires_at x" "applicant_sr_num (ao_advance_step x n) = applicant_sr_num x"
  by (simp_all add: ao_advance_step_def)

lemma set_ao_session_eq:
  "set_ao_session ops stamp k x s =
     (if kv_up s (kv_ix s)
      then (Inr (), s\<lparr>ticks := Suc (ticks s), kv_ix := Suc (kv_ix s),
        kv := ksetex ops (clock s (ticks s)) (AO_PREFIX @ k) AO_TTL (ao_dump x) (kv s)\<rparr>)
      else (Inl RedisExn, s\<lparr>ticks := Suc (ticks s), kv_ix := Suc (kv_ix s)\<rparr>))"
  by (simp add: set_ao_session_def store_set_def store_key_def ao_class_sel redis_defs Let_def)

lemma login_service_eq:
  "ao_login_service hashpw True n sin i s =
     (case hashpw sin (salts s (salt_ix s)) of
        Inl e \<Rightarrow> (Inl e, s\<lparr>salt_ix := Suc (salt_ix s)\<rparr>)
      | Inr h \<Rightarrow>
          (Inr (make_ao_session (uuids s (Suc (uuid_ix s))) (uuids s (uuid_ix s)) i n h 1
             (Stamp (Aware (clock s (ticks s) + days AO_SESSION_EXPIRY_DAYS))) None),
           s\<lparr>salt_ix := Suc (salt_ix s), ticks := Suc (ticks s), uuid_ix := Suc (Suc (uuid_ix s))\<rparr>))"
  by (simp add: ao_login_service_def validate_ao_login_def catch_def bind_def gensalt_def now_utc_def fresh_uuid_def
      split: sum.split)

definition login_expiry :: "('i, 'r, 'z) ao_state_scheme \<Rightarrow> expiry" where
  "login_expiry s = Stamp (Aware (clock s (ticks s) + days AO_SESSION_EXPIRY_DAYS))"

lemma ao_login_cases:
  assumes "ao_login ops stamp hashpw auth n sin s = (r, t)"
  shows "frame s t \<and>
    ((\<exists>x u. auth = Inr u \<and> r = Inr (session_token x, expires_at x) \<and> worker_idir x = idir_or_id u \<and>
        expires_at x = login_expiry s \<and> ticks s < ticks t \<and>
        kv t = ksetex ops (clock s (Suc (ticks s))) (AO_PREFIX @ session_token x) AO_TTL (ao_dump x) (kv s)) \<or>
     ((\<exists>e. r = Inl e) \<and> kv t = kv s))"
proof (cases auth)
  case (Inl e)
  then show ?thesis using assms by (auto simp: ao_login_def bind_def frame_def)
next
  case (Inr u)
  show ?thesis
  proof (cases "hashpw sin (salts s (salt_ix s))")
    case (Inl e)
    then show ?thesis using assms \<open>auth = Inr u\<close>
      by (auto simp: ao_login_def bind_def catch_def login_service_eq frame_def split: if_splits)
  next
    case (Inr h)
    then show ?thesis using assms \<open>auth = Inr u\<close>
      by (auto simp: ao_login_def bind_def catch_def login_service_eq set_ao_session_eq frame_def login_expiry_def
          make_ao_session_def split: if_splits intro!: exI[of _ "make_ao_session (uuids s (Suc (uuid_ix s))) (uuids s (uuid_ix s))
            (idir_or_id u) n h 1 (login_expiry s) None"])
  qed
qed

lemma owned_route_cases:
  assumes "answer (bind (owned_session ops stamp auth k) (\<lambda>x. ret (f x))) s = (r, t)"
  shows "frame s t \<and> drops ops (kv s) (kv t)"
  using assms owned_session_cases[of ops stamp auth k s]
  by (cases "owned_session ops stamp auth k s") (auto simp: answer_def bind_def drops_def split: sum.splits)

lemma ao_step_effect:
  assumes "ao_step ops stamp hashpw s e t"
  shows "frame s t \<and> ao_effect ops stamp s e t \<and>
    (\<forall>g \<in> granted e. snd (snd g) = expiry_instant (login_expiry s) \<and> ticks s < ticks t)"
proof -
  obtain auth op r where 1: "e = (auth, op, r)" "ao_handle ops stamp hashpw auth op s = (r, t)"
    using assms by (cases rule: ao_stepE) auto
  show ?thesis
  proof (cases op)
    case (Login n sin)
    obtain q u where q: "ao_login ops stamp hashpw auth n sin s = (q, u)"
      by (cases "ao_login ops stamp hashpw auth n sin s")
    have u: "t = u" "r = bind_res q (\<lambda>(token, e). Inr (Granted token e))"
      using 1 Login q by (auto simp: bind_def split: sum.splits prod.splits)
    from ao_login_cases[OF q] show ?thesis
    proof (elim conjE disjE exE)
      fix x w
      assume c: "frame s u" "auth = Inr w" "q = Inr (session_token x, expires_at x)" "worker_idir x = idir_or_id w"
        "expires_at x = login_expiry s" "ticks s < ticks u"
        "kv u = ksetex ops (clock s (Suc (ticks s))) (AO_PREFIX @ session_token x) AO_TTL (ao_dump x) (kv s)"
      then have "(session_token x, worker_idir x, expiry_instant (expires_at x)) \<in> granted e"
        using 1 Login u by (simp add: opened_by_def)
      then show ?thesis
        using c 1 Login u by (auto intro: ao_effect.opened)
    next
      fix e' assume "frame s u" "q = Inl e'" "kv u = kv s"
      then show ?thesis using 1 Login u by (auto intro: ao_effect.quiet simp: drops_def)
    qed
  next
    case (GetStep tok step)
    then have "frame s t \<and> drops ops (kv s) (kv t)"
      using 1 owned_route_cases by (simp add: routes_owned)
    then show ?thesis using 1 GetStep by (auto intro: ao_effect.quiet)
  next
    case (SubmitForm tok n d)
    then have "frame s t \<and> drops ops (kv s) (kv t)"
      using 1 owned_route_cases by (simp add: routes_owned)
    then show ?thesis using 1 SubmitForm by (auto intro: ao_effect.quiet)
  next
    case (SubmitStep tok step)
    obtain q u where q: "owned_session ops stamp auth tok s = (q, u)" by (cases "owned_session ops stamp auth tok s")
    note c = owned_session_cases[OF q]
    show ?thesis
    proof (cases q)
      case (Inl e')
      then have "t = u" using 1 SubmitStep q by (auto simp: routes_owned answer_def bind_def)
      then show ?thesis using 1 SubmitStep c Inl by (auto intro: ao_effect.quiet)
    next
      case (Inr x)
      then obtain j where j: "kv u = kv s" "kget ops (clock s (ticks s)) (AO_PREFIX @ tok) (kv s) = Some j" "ao_load stamp j = Inr x"
          "frame s u" using c by auto
      have "frame s t \<and> (kv t = kv s \<or>
          kv t = ksetex ops (clock u (ticks u)) (AO_PREFIX @ session_token x) AO_TTL (ao_dump (ao_advance_step x step)) (kv s))"
        using 1 SubmitStep q Inr j
        by (auto simp: routes_owned answer_def bind_def Let_def set_ao_session_eq frame_def split: if_splits)
      then show ?thesis using 1 SubmitStep j
        by (auto intro: ao_effect.advanced ao_effect.quiet simp: drops_def)
    qed
  qed
qed

text \<open>The requests with the sessions granted so far, and their invariant.\<close>

inductive ao_gstep ::
  "'r kv_ops \<Rightarrow> (datetime \<Rightarrow> expiry) \<Rightarrow> (string \<Rightarrow> string \<Rightarrow> string res) \<Rightarrow>
   (string \<times> string \<times> instant) set \<times> ('i, 'r) ao_state \<Rightarrow> ao_event \<Rightarrow>
   (string \<times> string \<times> instant) set \<times> ('i, 'r) ao_state \<Rightarrow> bool" for ops stamp hashpw where
  ao_gstep: "ao_step ops stamp hashpw s e t \<Longrightarrow> ao_gstep ops stamp hashpw (G, s) e (G \<union> granted e, t)"

inductive_cases ao_gstepE: "ao_gstep ops stamp hashpw p e q"

lemma steps_gstep:
  "steps (ao_step ops stamp hashpw) s es t \<Longrightarrow>
     steps (ao_gstep ops stamp hashpw) (G, s) es (G \<union> \<Union> (granted ` set es), t)"
proof (induction arbitrary: G rule: steps.induct)
  case (steps_cons s e t es u)
  have "ao_gstep ops stamp hashpw (G, s) e (G \<union> granted e, t)" using steps_cons.hyps(1) by (rule ao_gstep)
  moreover have "steps (ao_gstep ops stamp hashpw) (G \<union> granted e, t) es (G \<union> granted e \<union> \<Union> (granted ` set es), u)"
    by (rule steps_cons.IH)
  ultimately show ?case by (simp add: steps.steps_cons Un_assoc)
qed (simp add: steps.steps_nil)

definition ao_inv ::
  "'r kv_ops \<Rightarrow> (datetime \<Rightarrow> expiry) \<Rightarrow> (nat \<Rightarrow> instant) \<Rightarrow> (string \<times> string \<times> instant) set \<times> ('i, 'r) ao_state \<Rightarrow> bool" where
  "ao_inv ops stamp clk p \<longleftrightarrow>
     clock (snd p) = clk \<and>
     (\<forall>k now j. kget ops now (AO_PREFIX @ k) (kv (snd p)) = Some j \<longrightarrow>
        (\<exists>x. ao_load stamp j = Inr x \<and> session_token x = k \<and>
           (k, worker_idir x, expiry_instant (expires_at x)) \<in> fst p)) \<and>
     (\<forall>g \<in> fst p. \<exists>n < ticks (snd p). snd (snd g) = clk n + days AO_SESSION_EXPIRY_DAYS)"

lemma ao_inv_grows:
  assumes "ao_inv ops stamp clk (G, s)" and "frame s t"
    and "\<forall>g \<in> H. snd (snd g) = expiry_instant (login_expiry s) \<and> ticks s < ticks t"
    and "\<forall>k now j. kget ops now (AO_PREFIX @ k) (kv t) = Some j \<longrightarrow>
        (\<exists>x. ao_load stamp j = Inr x \<and> session_token x = k \<and>
           (k, worker_idir x, expiry_instant (expires_at x)) \<in> G \<union> H)"
  shows "ao_inv ops stamp clk (G \<union> H, t)"
proof -
  have "\<exists>n < ticks t. snd (snd g) = clk n + days AO_SESSION_EXPIRY_DAYS" if "g \<in> G \<union> H" for g
  proof (cases "g \<in> G")
    case True
    then obtain n where "n < ticks s" "snd (snd g) = clk n + days AO_SESSION_EXPIRY_DAYS"
      using assms(1) unfolding ao_inv_def by auto
    then show ?thesis using assms(2) unfolding frame_def by (meson less_le_trans)
  next
    case False
    then show ?thesis using that assms(1,3) by (auto simp: ao_inv_def login_expiry_def)
  qed
  then show ?thesis using assms(1,2,4) by (simp add: ao_inv_def frame_def)
qed

lemma ao_machine:
  assumes ops: "kv_store ops" and stamp: "stamps stamp"
  shows "invariant_machine (ao_gstep ops stamp hashpw) (ao_inv ops stamp clk)"
proof (rule invariant_machine.intro)
  fix p e q
  assume inv: "ao_inv ops stamp clk p" and step: "ao_gstep ops stamp hashpw p e q"
  obtain G s t where p: "p = (G, s)" "q = (G \<union> granted e, t)" and st: "ao_step ops stamp hashpw s e t"
    using step by (cases rule: ao_gstepE) auto
  note eff = ao_step_effect[OF st]
  have old: "\<exists>x. ao_load stamp j = Inr x \<and> session_token x = k \<and> (k, worker_idir x, expiry_instant (expires_at x)) \<in> G"
    if "kget ops now (AO_PREFIX @ k) (kv s) = Some j" for k now j
    using inv that unfolding p ao_inv_def by simp
  have set: "kget ops now (AO_PREFIX @ k) (ksetex ops n (AO_PREFIX @ k') AO_TTL v r) = Some j \<Longrightarrow>
      (k = k' \<and> j = v) \<or> kget ops now (AO_PREFIX @ k) r = Some j" for now k n k' v r j
    using kv_store.get_setex[OF ops, of AO_TTL] by (auto simp: AO_TTL_def split: if_splits)
  have view: "\<exists>y. ao_load stamp (ao_dump x) = Inr y \<and> session_token y = session_token x \<and> worker_idir y = worker_idir x \<and>
      expiry_instant (expires_at y) = expiry_instant (expires_at x)" for x
    using ao_load_dump[OF stamp, of x] ao_view_fields by blast
  have written: "\<forall>k now j. kget ops now (AO_PREFIX @ k) (kv t) = Some j \<longrightarrow>
      (\<exists>x. ao_load stamp j = Inr x \<and> session_token x = k \<and>
         (k, worker_idir x, expiry_instant (expires_at x)) \<in> G \<union> granted e)"
    if w: "kv t = ksetex ops n (AO_PREFIX @ session_token x) AO_TTL (ao_dump x) (kv s)"
      and g: "(session_token x, worker_idir x, expiry_instant (expires_at x)) \<in> G \<union> granted e" for n x
  proof (intro allI impI)
    fix k now j assume "kget ops now (AO_PREFIX @ k) (kv t) = Some j"
    from set[OF this[unfolded w]] show "\<exists>x. ao_load stamp j = Inr x \<and> session_token x = k \<and>
         (k, worker_idir x, expiry_instant (expires_at x)) \<in> G \<union> granted e"
    proof
      assume a: "k = session_token x \<and> j = ao_dump x"
      obtain y where "ao_load stamp (ao_dump x) = Inr y" "session_token y = session_token x" "worker_idir y = worker_idir x"
          "expiry_instant (expires_at y) = expiry_instant (expires_at x)"
        using view[of x] by blast
      then show ?thesis using a g by (intro exI[of _ y]) simp
    next
      assume "kget ops now (AO_PREFIX @ k) (kv s) = Some j"
      then show ?thesis using old by blast
    qed
  qed
  have "ao_effect ops stamp s e t" using eff by blast
  then have "\<forall>k now j. kget ops now (AO_PREFIX @ k) (kv t) = Some j \<longrightarrow>
      (\<exists>x. ao_load stamp j = Inr x \<and> session_token x = k \<and>
         (k, worker_idir x, expiry_instant (expires_at x)) \<in> G \<union> granted e)"
  proof cases
    case quiet
    then have "kget ops now k (kv t) = Some j \<Longrightarrow> kget ops now k (kv s) = Some j" for now k j
      using kv_store.get_del[OF ops] by (auto simp: drops_def split: if_splits)
    then show ?thesis using old by blast
  next
    case (opened now x)
    show ?thesis by (rule written[OF opened(1)]) (use opened(2) in blast)
  next
    case (advanced now x n now' k j)
    have "(session_token x, worker_idir x, expiry_instant (expires_at x)) \<in> G"
      using old[OF advanced(2)] advanced(3) by auto
    then show ?thesis using advanced(1) by (intro written[of now "ao_advance_step x n"]) simp_all
  qed
  then show "ao_inv ops stamp clk q"
    unfolding p using ao_inv_grows inv eff p by blast
qed

fun op_token :: "ao_op \<Rightarrow> string option" where
  "op_token (Login n sin) = None"
| "op_token (GetStep token step) = Some token"
| "op_token (SubmitStep token step) = Some token"
| "op_token (SubmitForm token n d) = Some token"

lemma answered_owned:
  assumes "ao_handle ops stamp hashpw auth op t = (Inr (Answer j), u)"
  shows "\<exists>k x t'. op_token op = Some k \<and> owned_session ops stamp auth k t = (Inr x, t')"
proof -
  have 1: "\<exists>x t'. owned_session ops stamp auth k t = (Inr x, t')"
    if "bind (owned_session ops stamp auth k) f t = (Inr v, u)" for k f and v :: json
    using that by (rule bind_InrE) blast
  show ?thesis
    using assms 1
    by (cases op) (auto simp: answer_def routes_owned elim!: bind_InrE split: prod.splits)
qed

text \<open>C21.
  An AO session answers only the worker who opened it, and for at most 30 days from the login. In
  any run of AO requests from a store without AO sessions, whatever the interleaving of workers: a
  step or form request that is answered was made by a worker whose IDIR name opened, by a
  successful login of that run, the session of the token it carries; and it is answered no later
  than 30 days after that login, although every submitted step re-arms the 30 day time to live of
  the stored session.
\<close>

theorem ao_session_owner_and_expiry:
  assumes "kv_store ops" and "stamps stamp"
    and "\<And>k now. kget ops now (AO_PREFIX @ k) (kv s) = None"
    and "steps (ao_step ops stamp hashpw) s es t"
    and "ao_step ops stamp hashpw t (auth, op, Inr (Answer j)) u"
  shows "\<exists>k i a n sin e m. op_token op = Some k \<and> owned_by auth i \<and>
    (a, Login n sin, Inr (Granted k e)) \<in> set es \<and> opened_by a i \<and>
    m < ticks t \<and> expiry_instant e = clock s m + days 30 \<and>
    clock s (Suc (ticks t)) \<le> clock s m + days 30"
proof -
  have "ao_inv ops stamp (clock s) ({}, s)" by (simp add: ao_inv_def assms(3))
  from invariant_machine.inv_steps[OF ao_machine[OF assms(1,2)] steps_gstep[OF assms(4)] this]
  have inv: "ao_inv ops stamp (clock s) (\<Union> (granted ` set es), t)" by simp
  obtain k x t' where k: "op_token op = Some k" "owned_session ops stamp auth k t = (Inr x, t')"
    using assms(5) answered_owned unfolding ao_step_iff by blast
  from owned_session_cases[OF k(2)] obtain j' where x:
    "kget ops (clock t (ticks t)) (AO_PREFIX @ k) (kv t) = Some j'" "ao_load stamp j' = Inr x"
    "clock t (Suc (ticks t)) \<le> expiry_instant (expires_at x)" "owned_by auth (worker_idir x)"
    by auto
  from inv x(1,2) have g: "(k, worker_idir x, expiry_instant (expires_at x)) \<in> \<Union> (granted ` set es)"
    by (fastforce simp: ao_inv_def)
  then obtain ev where ev: "ev \<in> set es" "(k, worker_idir x, expiry_instant (expires_at x)) \<in> granted ev" by blast
  then obtain a n sin e where l: "ev = (a, Login n sin, Inr (Granted k e))" "opened_by a (worker_idir x)"
      "expiry_instant e = expiry_instant (expires_at x)"
    by (cases ev rule: granted.cases) auto
  obtain m where "m < ticks t" "expiry_instant (expires_at x) = clock s m + days 30"
    using inv g by (fastforce simp: ao_inv_def AO_SESSION_EXPIRY_DAYS_def)
  moreover have "clock t = clock s" using inv by (simp add: ao_inv_def)
  ultimately show ?thesis using k(1) x(3,4) ev(1) l by force
qed

text \<open>
  The AO login accepts any service request number and any SIN, valid or not: the check against ICM
  is a stub, no request is sent to ICM, and with the store reachable and the SIN hashed a worker
  always gets a session. The session's step can then be moved past any frontier: submitting step
  \<open>n\<close>, for every \<open>n\<close> from 1, is answered at once with step \<open>n + 1\<close> as the step reached.
\<close>

theorem ao_login_accepts_anything:
  assumes "kv_store ops" and "stamps stamp" and "idir_username u = Some i" and "i \<noteq> []"
    and "\<And>n. kv_up s n" and "\<And>salt. \<exists>h. hashpw sin salt = Inr h" and "1 \<le> n"
    and "clock s (Suc (Suc (ticks s))) < clock s (Suc (ticks s)) + seconds AO_TTL"
    and "clock s (Suc (Suc (Suc (ticks s)))) \<le> clock s (ticks s) + days 30"
  shows "\<exists>token e t. ao_login ops stamp hashpw (Inr u) sr_number sin s = (Inr (token, e), t) \<and> icm_log t = icm_log s \<and>
    fst (submit_registration_step ops stamp (Inr u) token p n t) =
      Inr (JObj [(''step'', JInt n), (''data'', JObj [(''step_reached'', JInt (n + 1))])])"
proof -
  obtain h where h: "hashpw sin (salts s (salt_ix s)) = Inr h" using assms(6) by blast
  let ?x = "make_ao_session (uuids s (Suc (uuid_ix s))) (uuids s (uuid_ix s)) i sr_number h 1 (login_expiry s) None"
  define t where "t = snd (ao_login ops stamp hashpw (Inr u) sr_number sin s)"
  have i: "idir_or_id u = i" using assms(3,4) by (simp add: idir_or_id_def)
  have l: "ao_login ops stamp hashpw (Inr u) sr_number sin s = (Inr (session_token ?x, expires_at ?x), t)"
    and log: "icm_log t = icm_log s" and tk: "ticks t = Suc (Suc (ticks s))" "clock t = clock s" "kv_up t = kv_up s"
    and kv: "kv t = ksetex ops (clock s (Suc (ticks s))) (store_key (ao_class stamp) (session_token ?x))
      (class_ttl (ao_class stamp)) (class_dump (ao_class stamp) ?x) (kv s)"
    unfolding t_def
    by (simp_all add: ao_login_def bind_def catch_def login_service_eq h set_ao_session_eq assms(5) i login_expiry_def
        make_ao_session_def store_key_def ao_class_sel)
  have "\<exists>y. store_get ops (ao_class stamp) (session_token ?x) t =
      (Inr (Some y), t\<lparr>ticks := Suc (Suc (ticks t)), kv_ix := Suc (kv_ix t)\<rparr>) \<and> ao_view y = ao_view ?x"
    using assms(5,8,9) tk
    by (intro session_store.get_stored[OF ao_contract[OF assms(1,2)] kv])
      (simp_all add: ao_class_sel make_ao_session_def login_expiry_def AO_SESSION_EXPIRY_DAYS_def)
  then obtain y where y: "store_get ops (ao_class stamp) (session_token ?x) t =
      (Inr (Some y), t\<lparr>ticks := Suc (Suc (ticks t)), kv_ix := Suc (kv_ix t)\<rparr>)" "ao_view y = ao_view ?x" by blast
  have "step_reached y = 1" "worker_idir y = i"
    using ao_view_fields[OF y(2)] by (simp_all add: make_ao_session_def)
  then have "fst (submit_registration_step ops stamp (Inr u) (session_token ?x) p n t) =
      Inr (JObj [(''step'', JInt n), (''data'', JObj [(''step_reached'', JInt (n + 1))])])"
    using y(1) assms(3,5,7) tk(3)
    by (simp add: submit_registration_step_def require_ao_session_def get_ao_session_def bind_def set_ao_session_eq
        verify_session_ownership_def Let_def ao_advance_step_def)
  then show ?thesis using l log by blast
qed

definition demo_worker :: user_context where
  "demo_worker = make_user ''u'' WORKER None (Some ''IDIR1'')"

definition demo_ao :: "(nat, ttl_store) ao_state" where
  "demo_ao =
     \<lparr>icm_st = 0, icm_log = [], clock = (\<lambda>n. int n), ticks = 0, uuids = (\<lambda>n. ''0''), uuid_ix = 0,
      kv = [], kv_up = (\<lambda>n. True), kv_ix = 0, salts = (\<lambda>n. ''s''), salt_ix = 0\<rparr>"

lemma demo_ao_login:
  "\<exists>e t. ao_login ttl_ops IsoText (\<lambda>p salt. Inr salt) (Inr demo_worker) ''1-23'' ''9'' demo_ao = (Inr (''0'', e), t) \<and>
     ao_handle ttl_ops IsoText (\<lambda>p salt. Inr salt) (Inr demo_worker) (Login ''1-23'' ''9'') demo_ao = (Inr (Granted ''0'' e), t) \<and>
     (\<exists>u j. ao_handle ttl_ops IsoText (\<lambda>p salt. Inr salt) (Inr demo_worker) (GetStep ''0'' 1) t = (Inr (Answer j), u))"
  by (simp add: demo_ao_def demo_worker_def ao_login_def bind_def catch_def login_service_eq set_ao_session_eq answer_def
      make_user_def idir_or_id_def make_ao_session_def get_registration_step_def require_ao_session_def get_ao_session_def
      store_get_def redis_defs Let_def now_utc_def store_key_def ao_class_sel ttl_ops_def ttl_get_def ao_load_def ao_dump_def
      build_defs field_def field_or_def plain_def verify_session_ownership_def show_nat.simps json_time_def days_def
      seconds_def AO_TTL_def AO_SESSION_EXPIRY_DAYS_def)

theorem ao_session_owner_and_expiry_witness:
  "\<exists>es k i a n sin e m. length es = 1 \<and> op_token (GetStep ''0'' 1) = Some k \<and> owned_by (Inr demo_worker) i \<and>
    (a, Login n sin, Inr (Granted k e)) \<in> set es \<and> opened_by a i \<and>
    expiry_instant e = clock demo_ao m + days 30"
proof -
  obtain e t u j where r:
    "ao_handle ttl_ops IsoText (\<lambda>p salt. Inr salt) (Inr demo_worker) (Login ''1-23'' ''9'') demo_ao = (Inr (Granted ''0'' e), t)"
    "ao_handle ttl_ops IsoText (\<lambda>p salt. Inr salt) (Inr demo_worker) (GetStep ''0'' 1) t = (Inr (Answer j), u)"
    using demo_ao_login by blast
  let ?es = "[(Inr demo_worker, Login ''1-23'' ''9'', Inr (Granted ''0'' e))]"
  have st: "stamps IsoText" by (simp add: stamps_def)
  have none: "kget ttl_ops now (AO_PREFIX @ k) (kv demo_ao) = None" for k now
    by (simp add: demo_ao_def ttl_ops_def ttl_get_def)
  have run: "steps (ao_step ttl_ops IsoText (\<lambda>p salt. Inr salt)) demo_ao ?es t"
    using r(1) by (simp add: steps_Cons ao_step_iff)
  have last: "ao_step ttl_ops IsoText (\<lambda>p salt. Inr salt) t (Inr demo_worker, GetStep ''0'' 1, Inr (Answer j)) u"
    using r(2) by (simp add: ao_step_iff)
  show ?thesis
    using ao_session_owner_and_expiry[OF ttl.kv_store_axioms st none run last]
    by (intro exI[of _ ?es]) force
qed

theorem ao_login_accepts_anything_witness:
  "\<exists>token e t. ao_login ttl_ops IsoText (\<lambda>p salt. Inr salt) (Inr demo_worker) ''no such'' ''not a SIN'' demo_ao = (Inr (token, e), t) \<and>
    fst (submit_registration_step ttl_ops IsoText (Inr demo_worker) token ''p'' 99 t) =
      Inr (JObj [(''step'', JInt 99), (''data'', JObj [(''step_reached'', JInt 100)])])"
  using ao_login_accepts_anything[OF ttl.kv_store_axioms, of IsoText demo_worker "''IDIR1''" demo_ao "\<lambda>p salt. Inr salt"
      "''not a SIN''" 99 "''no such''" "''p''"]
  by (auto simp: stamps_def demo_worker_def make_user_def demo_ao_def seconds_def AO_TTL_def days_def)

end
