(* ===== verification/Support_View.thy ===== *)
theory Support_View
  imports Session_Store Auth Pin_Hash
begin

text \<open>
  The support view of workers and the audit trail: \<open>app/models/admin.py\<close>, the session dependency
  \<open>require_support_view_session.py\<close>, the routes of \<open>app/routers/admin/support_view.py\<close> and the
  middleware \<open>audit_middleware.py\<close> with the record of \<open>app/models/audit.py\<close>. Parameters: the store
  \<open>ops\<close>, ICM, the pydantic coercions \<open>co\<close> and \<open>peek\<close>, the
  claims of a token decoded without verification.
\<close>

section \<open>Sessions\<close>

record support_session =
  worker_idir :: string
  client_portal_id :: string
  client_bceid_guid :: string
  activated_at :: datetime
  expires_at :: expiry

definition make_support_session :: "string \<Rightarrow> string \<Rightarrow> string \<Rightarrow> datetime \<Rightarrow> expiry \<Rightarrow> support_session" where
  "make_support_session w p g a e =
     \<lparr>worker_idir = w, client_portal_id = p, client_bceid_guid = g, activated_at = a, expires_at = e\<rparr>"

definition sv_dump :: "support_session \<Rightarrow> json" where
  "sv_dump x = JObj [(''worker_idir'', JStr (worker_idir x)), (''client_portal_id'', JStr (client_portal_id x)),
     (''client_bceid_guid'', JStr (client_bceid_guid x)), (''activated_at'', time_json (activated_at x)),
     (''expires_at'', expiry_json (expires_at x))]"

definition sv_load :: "json \<Rightarrow> support_session res" where
  "sv_load =
     construct (\<lambda>ob. build5 make_support_session
       (field str_of ''worker_idir'' ob) (field str_of ''client_portal_id'' ob) (field str_of ''client_bceid_guid'' ob)
       (field json_time ''activated_at'' ob) (map_option Stamp (field json_time ''expires_at'' ob)))"

definition SV_PREFIX :: string where "SV_PREFIX = ''support_view_session:''"
definition SV_TTL :: int where "SV_TTL = 900"

definition sv_class :: "support_session session_class" where
  "sv_class =
     \<lparr>class_prefix = SV_PREFIX, class_ttl = SV_TTL, class_dump = sv_dump, class_load = sv_load,
      class_expires = expires_at\<rparr>"

definition set_session where "set_session ops k x = store_set ops sv_class k x"
definition get_session where "get_session ops k = store_get ops sv_class k"
definition delete_session where "delete_session ops k = store_delete ops sv_class k"
definition clear_sessions where "clear_sessions ops = store_clear ops sv_class"

text \<open>\<open>f"{user.idir_username}:{client}"\<close>.\<close>

definition view_key :: "user_context \<Rightarrow> string \<Rightarrow> string" where
  "view_key user client =
     (case idir_username user of None \<Rightarrow> ''None'' | Some i \<Rightarrow> i) @ CHR '':'' # client"

definition require_support_view_session ::
  "'r kv_ops \<Rightarrow> user_context res \<Rightarrow> string \<Rightarrow> (('i, 'r, 'z) kvbase_scheme, support_session) io" where
  "require_support_view_session ops auth client =
     bind (lift_res auth) (\<lambda>user.
     bind (get_session ops (view_key user client)) (\<lambda>x.
       case x of None \<Rightarrow> raise (HTTPExn 401 ''Support view session not found or expired'') | Some y \<Rightarrow> ret y))"

section \<open>Routes\<close>

definition SUPPORT_VIEW_TTL_MINUTES :: int where "SUPPORT_VIEW_TTL_MINUTES = 15"

record search_request =
  first_name :: "ustr option"
  last_name :: "ustr option"
  sin :: "ustr option"
  page :: int

definition check_with :: "(ustr \<Rightarrow> ustr res) \<Rightarrow> ustr option \<Rightarrow> ustr option res" where
  "check_with f v = (case v of None \<Rightarrow> Inr None | Some [] \<Rightarrow> Inr (Some []) | Some x \<Rightarrow> bind_res (f x) (\<lambda>y. Inr (Some y)))"

definition check_sin :: "ustr option \<Rightarrow> ustr option res" where
  "check_sin v = check_with validate_sin v"

definition check_name :: "ustr option \<Rightarrow> ustr option res" where
  "check_name v = check_with validate_name v"

definition validate_search :: "search_request \<Rightarrow> search_request res" where
  "validate_search b =
     bind_res (check_name (first_name b)) (\<lambda>f. bind_res (check_name (last_name b)) (\<lambda>l.
     bind_res (check_sin (sin b)) (\<lambda>n. Inr (b\<lparr>first_name := f, last_name := l, sin := n\<rparr>))))"

record search_result =
  portal_id :: string
  bceid_guid :: string
  full_name :: string
  case_number :: "string option"
  case_status :: "string option"

definition make_search_result :: "string \<Rightarrow> string \<Rightarrow> string \<Rightarrow> string option \<Rightarrow> string option \<Rightarrow> search_result" where
  "make_search_result p g f n s =
     \<lparr>portal_id = p, bceid_guid = g, full_name = f, case_number = n, case_status = s\<rparr>"

definition search_result_of :: "kvs \<Rightarrow> search_result option" where
  "search_result_of ob = build5 make_search_result (field str_of ''portal_id'' ob) (field str_of ''bceid_guid'' ob)
     (field str_of ''full_name'' ob) (field_or (nullable str_of) ''case_number'' None ob)
     (field_or (nullable str_of) ''case_status'' None ob)"

record search_response =
  results :: "search_result list"
  result_total :: int
  result_page :: int
  page_size :: "int option"

definition make_search_response :: "search_result list \<Rightarrow> int \<Rightarrow> int \<Rightarrow> int option \<Rightarrow> search_response" where
  "make_search_response rs t p n = \<lparr>results = rs, result_total = t, result_page = p, page_size = n\<rparr>"

definition search_response_of :: "coercions \<Rightarrow> kvs \<Rightarrow> search_response option" where
  "search_response_of co ob = build4 make_search_response (field (list_of (model_of search_result_of)) ''results'' ob)
     (field (int_of co) ''total'' ob) (field (int_of co) ''page'' ob) (field_or (nullable (int_of co)) ''page_size'' None ob)"

text \<open>A text as it goes out, in UTF-8.\<close>

definition text_out :: "ustr option \<Rightarrow> string option res" where
  "text_out v = (case v of None \<Rightarrow> Inr None
     | Some u \<Rightarrow> bind_res (utf8 u) (\<lambda>bs. Inr (Some (map (\<lambda>b. char_of (unat b)) bs))))"

definition search_clients ::
  "'i icm_fun \<Rightarrow> coercions \<Rightarrow> user_context res \<Rightarrow> search_request \<Rightarrow> (('i, 'z) base_scheme, search_response) io" where
  "search_clients icm co auth b =
     bind (lift_res auth) (\<lambda>user.
     bind (lift_res (case validate_search b of Inr x \<Rightarrow> Inr x | Inl _ \<Rightarrow> Inl (HTTPExn 422 ''Unprocessable Entity''))) (\<lambda>b.
     bind (lift_res (text_out (first_name b))) (\<lambda>f.
     bind (lift_res (text_out (last_name b))) (\<lambda>l.
     bind (lift_res (text_out (sin b))) (\<lambda>n.
     bind (icm_call icm (search_profiles_req f l n (page b))) (\<lambda>result.
     lift_res (construct (search_response_of co) result)))))))"

record tombstone_reply =
  reply_token :: string
  reply_client :: string
  reply_expires :: datetime

definition create_tombstone ::
  "'r kv_ops \<Rightarrow> 'i icm_fun \<Rightarrow> user_context res \<Rightarrow> string \<Rightarrow> (('i, 'r, 'z) kvbase_scheme, tombstone_reply) io" where
  "create_tombstone ops icm auth client =
     bind (lift_res auth) (\<lambda>user.
     if user_context.bceid_guid user \<noteq> None \<and> user_context.bceid_guid user \<noteq> Some [] \<and> user_context.bceid_guid user = Some client
     then raise (HTTPExn 400 ''Self-impersonation is not allowed'')
     else
       bind (icm_call icm (get_client_profile_req client)) (\<lambda>profile.
       bind now_utc (\<lambda>now.
       let expires = Aware (now + seconds (60 * SUPPORT_VIEW_TTL_MINUTES)) in
       bind (lift_res (obj_get_default profile ''portal_id'' (JStr client))) (\<lambda>portal.
       bind (lift_res (case build5 make_support_session (idir_username user) (str_of portal) (Some client)
             (Some (Aware now)) (Some (Stamp expires)) of
           None \<Rightarrow> Inl ValidationExn | Some x \<Rightarrow> Inr x)) (\<lambda>x.
       bind (set_session ops (view_key user client) x) (\<lambda>_.
       ret \<lparr>reply_token = view_key user client, reply_client = client, reply_expires = expires\<rparr>))))))"

definition end_tombstone ::
  "'r kv_ops \<Rightarrow> user_context res \<Rightarrow> string \<Rightarrow> (('i, 'r, 'z) kvbase_scheme, unit) io" where
  "end_tombstone ops auth client =
     bind (lift_res auth) (\<lambda>user. delete_session ops (view_key user client))"

definition get_client_data ::
  "'r kv_ops \<Rightarrow> user_context res \<Rightarrow> string \<Rightarrow> string \<Rightarrow> (('i, 'r, 'z) kvbase_scheme, json) io" where
  "get_client_data ops auth client resource =
     bind (require_support_view_session ops auth client) (\<lambda>x.
     ret (JObj [(''resource'', JStr resource), (''client_bceid_guid'', JStr (client_bceid_guid x)),
                (''client_portal_id'', JStr (client_portal_id x)), (''data'', JObj [])]))"

section \<open>Audit\<close>

text \<open>A request, as far as the middleware and the client-data route read it: its headers are two.\<close>

record http_request =
  req_method :: string
  req_path :: string
  req_authorization :: "string option"
  req_support_client :: "string option"
  req_host :: "string option"

text \<open>The client-data route with its header \<open>X-Support-View-Client\<close>; FastAPI resolves the role gate before it.\<close>

definition client_data_route ::
  "'r kv_ops \<Rightarrow> user_context res \<Rightarrow> http_request \<Rightarrow> string \<Rightarrow> (('i, 'r, 'z) kvbase_scheme, json) io" where
  "client_data_route ops auth rq resource =
     bind (lift_res auth) (\<lambda>user.
     case req_support_client rq of
       None \<Rightarrow> raise (HTTPExn 422 ''Unprocessable Entity'')
     | Some c \<Rightarrow> get_client_data ops (Inr user) c resource)"

record audit_record =
  audit_id :: string
  audit_time :: datetime
  audit_idir :: json
  audit_role :: json
  audit_action :: string
  audit_resource_type :: string
  audit_resource_id :: "string option"
  audit_client :: json
  audit_ip :: string

text \<open>
  The audit table in the state; whether the database takes a record is a stream of predicates.
\<close>

record ('i, 'r) admin_state = "('i, 'r) kvbase" +
  audit_tbl :: "audit_record list"
  audit_up :: "nat \<Rightarrow> audit_record \<Rightarrow> bool"
  audit_ix :: nat

definition persist_audit_record :: "audit_record \<Rightarrow> (('i, 'r, 'z) admin_state_scheme, unit) io" where
  "persist_audit_record a s =
     (Inr (), s\<lparr>audit_ix := Suc (audit_ix s),
        audit_tbl := (if audit_up s (audit_ix s) a then audit_tbl s @ [a] else audit_tbl s)\<rparr>)"

definition path_parts :: "string \<Rightarrow> string list" where
  "path_parts p = filter (\<lambda>x. x \<noteq> []) (split_at (CHR ''/'') p)"

definition nth_or :: "'a list \<Rightarrow> nat \<Rightarrow> 'a \<Rightarrow> 'a" where
  "nth_or xs n d = (if n < length xs then xs ! n else d)"

text \<open>\<open>payload.get("idir_username") or payload.get("sub", "unknown")\<close>, the role and the BCeID claim.\<close>

definition claims_of :: "(string \<Rightarrow> kvs option) \<Rightarrow> string option \<Rightarrow> json \<times> json \<times> json" where
  "claims_of peek authorization =
     (let h = (case authorization of None \<Rightarrow> [] | Some x \<Rightarrow> x); unknown = (JStr ''unknown'', JStr ''unknown'', JNull) in
      if prefix ''Bearer '' h then
        (case peek (drop (length ''Bearer '') h) of
           None \<Rightarrow> unknown
         | Some p \<Rightarrow>
             let i = claim p ''idir_username'' in
             (if truthy i then i else (case map_of p ''sub'' of None \<Rightarrow> JStr ''unknown'' | Some v \<Rightarrow> v),
              (case map_of p ''role'' of None \<Rightarrow> JStr ''unknown'' | Some v \<Rightarrow> v),
              claim p ''bceid_guid''))
      else unknown)"

definition audit_of :: "(string \<Rightarrow> kvs option) \<Rightarrow> http_request \<Rightarrow> string \<Rightarrow> instant \<Rightarrow> audit_record" where
  "audit_of peek rq i now =
     (let (idir, rl, client) = claims_of peek (req_authorization rq); ps = path_parts (req_path rq) in
      \<lparr>audit_id = i, audit_time = Aware now, audit_idir = idir, audit_role = rl, audit_action = req_method rq @ '' '' @ req_path rq,
       audit_resource_type = nth_or ps 1 ''unknown'',
       audit_resource_id = (if 3 < length ps then Some (ps ! 3) else None),
       audit_client = client, audit_ip = (case req_host rq of None \<Rightarrow> ''unknown'' | Some x \<Rightarrow> x)\<rparr>)"

text \<open>
  \<open>dispatch\<close> around the rest of the application, which answers with a status or lets an exception
  through.
\<close>

definition dispatch ::
  "(string \<Rightarrow> kvs option) \<Rightarrow> http_request \<Rightarrow> (('i, 'r, 'z) admin_state_scheme, nat \<times> 'a) io \<Rightarrow>
   (('i, 'r, 'z) admin_state_scheme, nat \<times> 'a) io" where
  "dispatch peek rq call_next =
     bind call_next (\<lambda>response.
       if \<not> prefix ''/admin/'' (req_path rq) then ret response
       else if fst response \<in> {401, 403} then ret response
       else
         bind fresh_uuid (\<lambda>i.
         bind now_utc (\<lambda>now.
         bind (persist_audit_record (audit_of peek rq i now)) (\<lambda>_. ret response))))"

text \<open>The record that the middleware makes in a state.\<close>

definition next_record ::
  "(string \<Rightarrow> kvs option) \<Rightarrow> http_request \<Rightarrow> ('i, 'r, 'z) admin_state_scheme \<Rightarrow> audit_record" where
  "next_record peek rq s = audit_of peek rq (uuids s (uuid_ix s)) (clock s (ticks s))"

lemma dispatch_table:
  assumes "call_next s = (r, t)"
  shows "fst (dispatch peek rq call_next s) = r \<and>
    audit_tbl (snd (dispatch peek rq call_next s)) = audit_tbl t @
      (case r of
         Inl e \<Rightarrow> []
       | Inr (n, x) \<Rightarrow>
           if prefix ''/admin/'' (req_path rq) \<and> n \<notin> {401, 403} \<and> audit_up t (audit_ix t) (next_record peek rq t)
           then [next_record peek rq t] else [])"
  using assms
  by (auto simp: dispatch_def bind_def fresh_uuid_def now_utc_def persist_audit_record_def next_record_def split: sum.split)

text \<open>
  What the application answers: 200 with the route's value, the response of an exception that has
  a handler, and 404 for a path and method no route has. Other exceptions pass through.
\<close>

definition handled :: "exn \<Rightarrow> bool" where
  "handled e \<longleftrightarrow> (\<exists>n d. e = HTTPExn n d) \<or> first_handler handlers (mro e) \<noteq> None"

definition served :: "('s, 'a) io \<Rightarrow> ('s, nat \<times> 'a option) io" where
  "served m s =
     (case m s of
        (Inr x, t) \<Rightarrow> (Inr (200, Some x), t)
      | (Inl e, t) \<Rightarrow> if handled e then (Inr (status_code (respond e), None), t) else (Inl e, t))"

definition no_route :: "('s, nat \<times> 'a option) io" where
  "no_route = ret (404, None)"

section \<open>The contract of the session module\<close>

definition sv_view :: "support_session \<Rightarrow> support_session \<times> instant" where
  "sv_view x = (x\<lparr>expires_at := Stamp (Naive 0)\<rparr>, expiry_instant (expires_at x))"

lemma sv_view_fields:
  "sv_view y = sv_view x \<Longrightarrow> worker_idir y = worker_idir x \<and> client_portal_id y = client_portal_id x \<and>
     client_bceid_guid y = client_bceid_guid x \<and> expiry_instant (expires_at y) = expiry_instant (expires_at x)"
  by (cases x; cases y) (simp add: sv_view_def)

lemma sv_load_dump: "\<exists>y. sv_load (sv_dump x) = Inr y \<and> sv_view y = sv_view x"
proof -
  obtain d where "json_time (expiry_json (expires_at x)) = Some d" "dt_instant d = expiry_instant (expires_at x)"
    using expiry_json_time by blast
  then show ?thesis
    by (simp add: sv_load_def sv_dump_def build_defs field_def make_support_session_def sv_view_def)
qed

lemma sv_class_sel:
  "class_prefix sv_class = SV_PREFIX" "class_ttl sv_class = SV_TTL"
  "class_dump sv_class = sv_dump" "class_load sv_class = sv_load" "class_expires sv_class = expires_at"
  by (simp_all add: sv_class_def)

lemma sv_contract:
  assumes "kv_store ops"
  shows "session_store ops sv_class sv_view"
proof (rule session_store.intro[OF assms(1)], rule session_store_axioms.intro)
  show "\<exists>y. class_load sv_class (class_dump sv_class x) = Inr y \<and> sv_view y = sv_view x" for x
    unfolding sv_class_sel by (rule sv_load_dump)
  show "sv_view x = sv_view y \<Longrightarrow> expiry_instant (class_expires sv_class x) = expiry_instant (class_expires sv_class y)" for x y
    unfolding sv_class_sel using sv_view_fields by blast
  show "0 < class_ttl sv_class" by (simp add: sv_class_sel SV_TTL_def)
qed

interpretation sv: session_store ttl_ops sv_class sv_view
  by (rule sv_contract[OF ttl.kv_store_axioms])

text \<open>A tombstone that succeeds stores one session, for this worker and client.\<close>

lemma create_tombstone_Inr:
  assumes "create_tombstone ops icm (Inr u) c s = (Inr rep, t)"
  shows "\<exists>i p. idir_username u = Some i \<and> rep = \<lparr>reply_token = view_key u c, reply_client = c,
      reply_expires = Aware (clock s (ticks s) + seconds 900)\<rparr> \<and>
    kv t = ksetex ops (clock s (Suc (ticks s))) (store_key sv_class (view_key u c)) (class_ttl sv_class)
      (class_dump sv_class (make_support_session i p c (Aware (clock s (ticks s)))
        (Stamp (Aware (clock s (ticks s) + seconds 900))))) (kv s) \<and>
    clock t = clock s \<and> kv_up t = kv_up s \<and> ticks t = Suc (Suc (ticks s))"
  using assms
  by (auto simp: create_tombstone_def icm_call_def bind_def Let_def SUPPORT_VIEW_TTL_MINUTES_def set_session_def store_set_def
      redis_defs sv_class_sel build_defs now_utc_def make_support_session_def
      split: if_splits sum.splits option.splits prod.splits Option.bind_splits elim!: str_of.elims)

lemma get_client_data_cases:
  "fst (get_client_data ops (Inr u) c r v) =
     (case fst (store_get ops sv_class (view_key u c) v) of
        Inl e \<Rightarrow> Inl e
      | Inr None \<Rightarrow> Inl (HTTPExn 401 ''Support view session not found or expired'')
      | Inr (Some x) \<Rightarrow> Inr (JObj [(''resource'', JStr r), (''client_bceid_guid'', JStr (client_bceid_guid x)),
          (''client_portal_id'', JStr (client_portal_id x)), (''data'', JObj [])]))"
  by (auto simp: get_client_data_def require_support_view_session_def get_session_def bind_def split: sum.split prod.split option.split)

text \<open>C22.
  A support view session lasts exactly 15 minutes or until it is ended. After a tombstone for a
  client succeeded, and until another request writes the store, the same worker's client-data
  requests for that client answer that client's own data as long as the clock is before the expiry
  the tombstone announced; once the clock is past it they answer 401; and after the worker ends the
  tombstone they answer 401 at once. The announced expiry is the time of the request plus 15 minutes.
\<close>

theorem support_view_lifecycle:
  assumes "kv_store ops" and "create_tombstone ops icm (Inr u) c s = (Inr rep, t)"
    and "kv v = kv t" and "clock v = clock s" and "mono (clock s)" and "\<And>n. kv_up v n"
    and "e = dt_instant (reply_expires rep)" and "clock v (ticks v) \<noteq> e"
  shows "e = clock s (ticks s) + seconds 900 \<and>
    (\<exists>p. fst (get_client_data ops (Inr u) c r v) =
      (if clock v (Suc (ticks v)) \<le> e
       then Inr (JObj [(''resource'', JStr r), (''client_bceid_guid'', JStr c), (''client_portal_id'', JStr p), (''data'', JObj [])])
       else Inl (HTTPExn 401 ''Support view session not found or expired''))) \<and>
    fst (get_client_data ops (Inr u) c r (snd (end_tombstone ops (Inr u) c v))) =
      Inl (HTTPExn 401 ''Support view session not found or expired'')"
proof -
  obtain i p where rep: "reply_expires rep = Aware (clock s (ticks s) + seconds 900)"
    and kv: "kv t = ksetex ops (clock s (Suc (ticks s))) (store_key sv_class (view_key u c)) (class_ttl sv_class)
      (class_dump sv_class (make_support_session i p c (Aware (clock s (ticks s)))
        (Stamp (Aware (clock s (ticks s) + seconds 900))))) (kv s)"
    using create_tombstone_Inr[OF assms(2)] by auto
  let ?x = "make_support_session i p c (Aware (clock s (ticks s))) (Stamp (Aware (clock s (ticks s) + seconds 900)))"
  note kv' = kv[folded assms(3)]
  have e: "e = clock s (ticks s) + seconds 900" using assms(7) rep by simp
  have ex: "expiry_instant (class_expires sv_class ?x) = e" by (simp add: sv_class_sel make_support_session_def e)
  have later: "clock s (ticks s) \<le> clock s (Suc (ticks s))" "clock v (ticks v) \<le> clock v (Suc (ticks v))"
    using assms(4,5) by (simp_all add: monoD)
  have data: "\<exists>p. fst (get_client_data ops (Inr u) c r v) =
      (if clock v (Suc (ticks v)) \<le> e
       then Inr (JObj [(''resource'', JStr r), (''client_bceid_guid'', JStr c), (''client_portal_id'', JStr p), (''data'', JObj [])])
       else Inl (HTTPExn 401 ''Support view session not found or expired''))"
  proof (cases "clock v (Suc (ticks v)) \<le> e")
    case True
    have ttl: "clock v (ticks v) < clock s (Suc (ticks s)) + seconds (class_ttl sv_class)"
      using True later assms(8) e by (simp add: sv_class_sel SV_TTL_def)
    have "\<exists>y. store_get ops sv_class (view_key u c) v =
        (Inr (Some y), v\<lparr>ticks := Suc (Suc (ticks v)), kv_ix := Suc (kv_ix v)\<rparr>) \<and> sv_view y = sv_view ?x"
      by (rule session_store.get_stored[OF sv_contract[OF assms(1)] kv' assms(6) ttl]) (use True ex in simp)
    then obtain y where y: "fst (store_get ops sv_class (view_key u c) v) = Inr (Some y)" "sv_view y = sv_view ?x" by auto
    have "client_bceid_guid y = c" using sv_view_fields[OF y(2)] by (simp add: make_support_session_def)
    then show ?thesis using True y(1) by (simp add: get_client_data_cases)
  next
    case False
    have "fst (store_get ops sv_class (view_key u c) v) = Inr None"
      by (rule session_store.get_stale[OF sv_contract[OF assms(1)] kv' assms(6)]) (use False ex in simp)
    then show ?thesis using False by (simp add: get_client_data_cases)
  qed
  have "fst (store_get ops sv_class (view_key u c) (snd (end_tombstone ops (Inr u) c v))) = Inr None"
    by (rule session_store.get_none[OF sv_contract[OF assms(1)]])
      (simp_all add: end_tombstone_def delete_session_def store_delete_def redis_defs Let_def assms(6)
        kv_store.get_del[OF assms(1)])
  then show ?thesis using e data by (simp add: get_client_data_cases)
qed

definition demo_sv :: "(nat, ttl_store) admin_state" where
  "demo_sv =
     \<lparr>icm_st = 0, icm_log = [], clock = (\<lambda>n. int n), ticks = 0, uuids = (\<lambda>n. ''0''), uuid_ix = 0,
      kv = [], kv_up = (\<lambda>n. True), kv_ix = 0, audit_tbl = [], audit_up = (\<lambda>n a. True), audit_ix = 0\<rparr>"

definition demo_worker :: "string \<Rightarrow> user_context" where
  "demo_worker i = make_user ''u'' WORKER None (Some i)"

definition demo_icm :: "nat icm_fun" where
  "demo_icm rq n = (Inr (JObj [(''portal_id'', JStr ''P'')]), n)"

lemma demo_tombstone:
  "\<exists>rep t. create_tombstone ttl_ops demo_icm (Inr (demo_worker i)) c demo_sv = (Inr rep, t) \<and>
     reply_expires rep = Aware (seconds 900)"
  by (simp add: demo_sv_def demo_worker_def demo_icm_def create_tombstone_def make_user_def icm_call_def bind_def Let_def
      now_utc_def build_defs set_session_def store_set_def redis_defs SUPPORT_VIEW_TTL_MINUTES_def)

theorem support_view_lifecycle_witness:
  "\<exists>t p. t = snd (create_tombstone ttl_ops demo_icm (Inr (demo_worker ''w'')) ''g'' demo_sv) \<and>
    fst (get_client_data ttl_ops (Inr (demo_worker ''w'')) ''g'' ''messages'' (demo_sv\<lparr>kv := kv t\<rparr>)) =
      Inr (JObj [(''resource'', JStr ''messages''), (''client_bceid_guid'', JStr ''g''), (''client_portal_id'', JStr p),
        (''data'', JObj [])]) \<and>
    fst (get_client_data ttl_ops (Inr (demo_worker ''w'')) ''g'' ''messages''
      (snd (end_tombstone ttl_ops (Inr (demo_worker ''w'')) ''g'' (demo_sv\<lparr>kv := kv t\<rparr>)))) =
      Inl (HTTPExn 401 ''Support view session not found or expired'')"
proof -
  obtain rep t where r: "create_tombstone ttl_ops demo_icm (Inr (demo_worker ''w'')) ''g'' demo_sv = (Inr rep, t)"
      "reply_expires rep = Aware (seconds 900)"
    using demo_tombstone by blast
  have m: "mono (clock demo_sv)" by (simp add: demo_sv_def mono_def)
  have c: "clock demo_sv (Suc 0) \<le> seconds 900" "clock demo_sv 0 \<noteq> seconds 900" "ticks demo_sv = 0" "\<And>n. kv_up demo_sv n"
    by (simp_all add: demo_sv_def seconds_def)
  note l = support_view_lifecycle[OF ttl.kv_store_axioms r(1), of "demo_sv\<lparr>kv := kv t\<rparr>" "seconds 900" "''messages''"]
  show ?thesis
    by (intro exI[of _ t]) (use l m r c in auto)
qed

section \<open>Isolation\<close>

lemma view_key_inj:
  assumes "idir_username u = Some i" and "idir_username u' = Some i'" and "CHR '':'' \<notin> set i" and "CHR '':'' \<notin> set i'"
    and "view_key u c = view_key u' c'"
  shows "i = i' \<and> c = c'"
  using append_split_unique[OF assms(3,4)] assms(1,2,5) by (simp add: view_key_def)

lemma get_client_data_cong:
  assumes "kget ops (clock v (ticks v)) (store_key sv_class (view_key u c)) r' =
      kget ops (clock v (ticks v)) (store_key sv_class (view_key u c)) r" and "kv_store ops"
  shows "fst (get_client_data ops (Inr u) c res (v\<lparr>kv := r'\<rparr>)) = fst (get_client_data ops (Inr u) c res (v\<lparr>kv := r\<rparr>))"
proof -
  have "fst (store_get ops sv_class (view_key u c) ((v\<lparr>kv := r\<rparr>)\<lparr>kv := r'\<rparr>)) =
      fst (store_get ops sv_class (view_key u c) (v\<lparr>kv := r\<rparr>))"
    by (rule session_store.get_cong[OF sv_contract[OF assms(2)]]) (use assms(1) in simp)
  then show ?thesis by (simp add: get_client_data_cases)
qed

text \<open>C23.
  Support view sessions do not mix: for IDIR names without a colon, what a worker's client-data
  request for a client answers is unaffected when another worker, or the same worker for another
  client, opens or ends a session. (With colons the two parts of the key run together.)
\<close>

theorem support_view_isolation:
  assumes "kv_store ops"
    and "idir_username u = Some i" and "idir_username u' = Some i'" and "CHR '':'' \<notin> set i" and "CHR '':'' \<notin> set i'"
    and "i \<noteq> i' \<or> c \<noteq> c'"
    and "create_tombstone ops icm (Inr u) c s = (Inr rep, t) \<or> end_tombstone ops (Inr u) c s = (Inr x, t)"
  shows "fst (get_client_data ops (Inr u') c' r (v\<lparr>kv := kv t\<rparr>)) = fst (get_client_data ops (Inr u') c' r (v\<lparr>kv := kv s\<rparr>))"
proof -
  have "view_key u c \<noteq> view_key u' c'" using view_key_inj[OF assms(2-5)] assms(6) by blast
  then have ne: "store_key sv_class (view_key u' c') \<noteq> store_key sv_class (view_key u c)"
    by (simp add: store_key_def)
  have pos: "0 < class_ttl sv_class" by (simp add: sv_class_sel SV_TTL_def)
  from assms(7) have "kget ops now (store_key sv_class (view_key u' c')) (kv t) =
      kget ops now (store_key sv_class (view_key u' c')) (kv s)" for now
  proof
    assume "create_tombstone ops icm (Inr u) c s = (Inr rep, t)"
    then obtain n v where "kv t = ksetex ops n (store_key sv_class (view_key u c)) (class_ttl sv_class) v (kv s)"
      using create_tombstone_Inr by blast
    then show ?thesis using kv_store.setex_other[OF assms(1) pos ne] by simp
  next
    assume "end_tombstone ops (Inr u) c s = (Inr x, t)"
    then have "kv t = kdel ops [store_key sv_class (view_key u c)] (kv s)"
      by (auto simp: end_tombstone_def delete_session_def store_delete_def redis_defs Let_def split: if_splits)
    then show ?thesis using ne by (simp add: kv_store.get_del[OF assms(1)])
  qed
  then show ?thesis by (rule get_client_data_cong[OF _ assms(1)])
qed

theorem support_view_isolation_witness:
  "\<exists>t. t = snd (create_tombstone ttl_ops demo_icm (Inr (demo_worker ''v'')) ''g'' demo_sv) \<and>
     fst (get_client_data ttl_ops (Inr (demo_worker ''w'')) ''g'' ''x'' (demo_sv\<lparr>kv := kv t\<rparr>)) =
     fst (get_client_data ttl_ops (Inr (demo_worker ''w'')) ''g'' ''x'' (demo_sv\<lparr>kv := kv demo_sv\<rparr>))"
proof -
  obtain rep t where r: "create_tombstone ttl_ops demo_icm (Inr (demo_worker ''v'')) ''g'' demo_sv = (Inr rep, t)"
    using demo_tombstone by blast
  then show ?thesis
    using support_view_isolation[OF ttl.kv_store_axioms, of "demo_worker ''v''" "''v''" "demo_worker ''w''" "''w''" "''g''" "''g''"
        demo_icm demo_sv rep t "()" "''x''" demo_sv]
    by (intro exI[of _ t]) (simp add: demo_worker_def make_user_def)
qed

section \<open>What the audit trail says\<close>

lemma get_client_data_frame:
  fixes s :: "('i, 'r, 'z) admin_state_scheme"
  assumes "get_client_data ops auth c r s = (Inr j, t)"
  shows "audit_tbl t = audit_tbl s \<and> audit_up t = audit_up s \<and> audit_ix t = audit_ix s"
proof -
  from assms obtain u x where "store_get ops sv_class (view_key u c) s = (Inr (Some x), t)"
    by (cases auth) (auto simp: get_client_data_def require_support_view_session_def get_session_def bind_def
        split: sum.splits prod.splits option.splits)
  from store_get_fresh(3)[OF this] show ?thesis by simp
qed

lemma client_data_frame:
  fixes s :: "('i, 'r, 'z) admin_state_scheme"
  assumes "client_data_route ops auth rq r s = (Inr j, t)"
  shows "audit_tbl t = audit_tbl s \<and> audit_up t = audit_up s"
  using assms get_client_data_frame
  by (cases auth; cases "req_support_client rq") (fastforce simp: client_data_route_def)+

lemma served_200: "served m s = (Inr (200, Some y), t) \<Longrightarrow> m s = (Inr y, t)"
  by (auto simp: served_def split: prod.splits sum.splits if_splits)

lemma answered_client_data:
  fixes s :: "('i, 'r, 'z) admin_state_scheme"
  assumes "prefix ''/admin/'' (req_path rq)" and "\<forall>n a. audit_up s n a"
    and "dispatch peek rq (served (client_data_route ops auth rq r)) s = (Inr (200, Some y), t)"
  shows "\<exists>i now. audit_tbl t = audit_tbl s @ [audit_of peek rq i now]"
proof -
  obtain q u where q: "served (client_data_route ops auth rq r) s = (q, u)"
    by (cases "served (client_data_route ops auth rq r) s")
  note d = dispatch_table[where call_next = "served (client_data_route ops auth rq r)" and s = s, OF q, of peek rq]
  have r: "q = Inr (200, Some y)" using d assms(3) by simp
  from client_data_frame[OF served_200[OF q[unfolded r]]] have u: "audit_tbl u = audit_tbl s" "audit_up u = audit_up s" by simp_all
  have "audit_up u (audit_ix u) (next_record peek rq u)" unfolding u(2) using assms(2) by blast
  then have "prefix ''/admin/'' (req_path rq) \<and> (200 :: nat) \<notin> {401, 403} \<and> audit_up u (audit_ix u) (next_record peek rq u)"
    using assms(1) by simp
  then have "audit_tbl t = audit_tbl u @ [next_record peek rq u]"
    using conjunct2[OF d] unfolding r assms(3) sum.case prod.case snd_conv by (simp only: if_True not_False_eq_True simp_thms)
  then show ?thesis unfolding u(1) next_record_def by blast
qed

text \<open>C24.
  The audit trail does not say whose data a worker looked at. Two answered client-data requests that differ only in the
  client named in their header \<open>X-Support-View-Client\<close>, at whatever times, leave audit records that differ only in the id
  and the time: the client of the record is the BCeID claim of the worker's own token, and the client of the header is
  nowhere in it.
\<close>

theorem audit_omits_client:
  fixes s s' :: "('i, 'r, 'z) admin_state_scheme"
  assumes "prefix ''/admin/'' (req_path rq)" and "req_authorization rq = Some (''Bearer '' @ token)" and "peek token = Some p"
    and "\<forall>n a. audit_up s n a" and "\<forall>n a. audit_up s' n a"
    and "dispatch peek rq (served (client_data_route ops auth rq r)) s = (Inr (200, Some y), t)"
    and "rq' = rq\<lparr>req_support_client := Some c'\<rparr>"
    and "dispatch peek rq' (served (client_data_route ops auth rq' r)) s' = (Inr (200, Some y'), t')"
  shows "\<exists>a a'. audit_tbl t = audit_tbl s @ [a] \<and> audit_tbl t' = audit_tbl s' @ [a'] \<and>
    a' = a\<lparr>audit_id := audit_id a', audit_time := audit_time a'\<rparr> \<and> audit_client a = claim p ''bceid_guid''"
proof -
  have "prefix ''/admin/'' (req_path rq')" using assms(1,7) by simp
  from answered_client_data[OF assms(1,4,6)] answered_client_data[OF this assms(5,8)] obtain i now i' now' where
    "audit_tbl t = audit_tbl s @ [audit_of peek rq i now]" "audit_tbl t' = audit_tbl s' @ [audit_of peek rq' i' now']" by blast
  moreover have "audit_of peek rq' i' now' = (audit_of peek rq i now)\<lparr>audit_id := i', audit_time := Aware now'\<rparr>"
    by (simp add: assms(7) audit_of_def split_beta Let_def)
  moreover have "audit_client (audit_of peek rq i now) = claim p ''bceid_guid''"
    using assms(2,3) by (simp add: audit_of_def claims_of_def Let_def)
  ultimately show ?thesis
    by - (rule exI[of _ "audit_of peek rq i now"], rule exI[of _ "audit_of peek rq' i' now'"], simp)
qed

lemma dispatch_no_route:
  assumes "prefix ''/admin/'' (req_path rq)" and "\<And>a. audit_up s (audit_ix s) a"
  shows "\<exists>t. dispatch peek rq no_route s = (Inr (404, None), t) \<and> audit_tbl t = audit_tbl s @ [next_record peek rq s]"
  using assms by (simp add: dispatch_def no_route_def next_record_def persist_audit_record_def bind_def fresh_uuid_def now_utc_def)

text \<open>
  Anyone can write audit records in any worker's name. A request to a path under /admin/ that no
  route has is answered 404 before any token is checked, and the middleware records it with the
  IDIR name and role claimed by the request's token, even when that token does not verify.
\<close>

theorem forged_claims_audited:
  fixes s :: "('i, 'r, 'z) admin_state_scheme"
  assumes "prefix ''/admin/'' (req_path rq)"
    and "req_authorization rq = Some (''Bearer '' @ token)" and "peek token = Some p"
    and "claim p ''idir_username'' = JStr i" and "i \<noteq> []" and "map_of p ''role'' = Some (JStr rl)"
    and "decode token secret = None" and "\<And>a. audit_up s (audit_ix s) a"
  shows "\<exists>t a. dispatch peek rq (no_route :: (('i, 'r, 'z) admin_state_scheme, nat \<times> 'b option) io) s = (Inr (404, None), t) \<and>
    audit_tbl t = audit_tbl s @ [a] \<and>
    audit_idir a = JStr i \<and> audit_role a = JStr rl \<and>
    as_worker decode secret (Some token) = Inl (HTTPExn 401 ''Invalid or expired token'')"
proof -
  let ?a = "next_record peek rq s"
  obtain t where "dispatch peek rq (no_route :: (('i, 'r, 'z) admin_state_scheme, nat \<times> 'b option) io) s = (Inr (404, None), t)"
    "audit_tbl t = audit_tbl s @ [?a]"
    using dispatch_no_route[OF assms(1,8)] by blast
  moreover have "audit_idir ?a = JStr i \<and> audit_role ?a = JStr rl"
    using assms(2-6) by (simp add: next_record_def audit_of_def claims_of_def Let_def)
  moreover have "as_worker decode secret (Some token) = Inl (HTTPExn 401 ''Invalid or expired token'')"
    using assms(7) by (simp add: as_worker_def get_current_user_def is_token_error_def)
  ultimately show ?thesis by - (rule exI[of _ t], rule exI[of _ ?a], simp)
qed

theorem forged_claims_audited_witness:
  "\<exists>t a. dispatch (\<lambda>tok. Some [(''idir_username'', JStr ''BOSS''), (''role'', JStr ''ADMIN'')])
       \<lparr>req_method = ''GET'', req_path = ''/admin/x'', req_authorization = Some (''Bearer '' @ ''t''), req_support_client = Some ''g'', req_host = None\<rparr>
       (no_route :: (_, nat \<times> unit option) io) demo_sv = (Inr (404, None), t) \<and>
     audit_tbl t = audit_tbl demo_sv @ [a] \<and> audit_idir a = JStr ''BOSS'' \<and> audit_role a = JStr ''ADMIN''"
proof -
  let ?rq = "\<lparr>req_method = ''GET'', req_path = ''/admin/x'', req_authorization = Some (''Bearer '' @ ''t''), req_support_client = Some ''g'', req_host = None\<rparr>"
  let ?p = "[(''idir_username'', JStr ''BOSS''), (''role'', JStr ''ADMIN'')]"
  have "prefix ''/admin/'' (req_path ?rq)" by (simp add: prefix_def)
  from forged_claims_audited[OF this, where token = "''t''" and p = ?p and peek = "\<lambda>tok. Some ?p" and i = "''BOSS''"
      and rl = "''ADMIN''" and decode = "\<lambda>tok sec. None" and secret = "''s''" and s = demo_sv]
  show ?thesis by (simp add: claim_def demo_sv_def) blast
qed

definition demo_views :: "(nat, ttl_store) admin_state" where
  "demo_views = demo_sv\<lparr>kv := map (\<lambda>c. (store_key sv_class (view_key (demo_worker ''w'') c),
     sv_dump (make_support_session ''w'' ''p'' c (Aware 0) (Stamp (Aware 9))), 900)) [''g'', ''h'']\<rparr>"

definition demo_claims :: kvs where
  "demo_claims = [(''idir_username'', JStr ''w''), (''role'', JStr ''WORKER'')]"

definition demo_rq :: http_request where
  "demo_rq = \<lparr>req_method = ''GET'', req_path = ''/admin/support-view/client-data/x'',
     req_authorization = Some (''Bearer '' @ ''t''), req_support_client = Some ''g'', req_host = None\<rparr>"

definition demo_rq_for :: "string \<Rightarrow> http_request" where
  "demo_rq_for c = demo_rq\<lparr>req_support_client := Some c\<rparr>"

lemma demo_client_data:
  assumes "c \<in> {''g'', ''h''}"
  shows "\<exists>t. dispatch (\<lambda>tok. Some demo_claims) (demo_rq_for c)
      (served (client_data_route ttl_ops (Inr (demo_worker ''w'')) (demo_rq_for c) ''x'')) demo_views =
    (Inr (200, Some (JObj [(''resource'', JStr ''x''), (''client_bceid_guid'', JStr c), (''client_portal_id'', JStr ''p''),
      (''data'', JObj [])])), t)"
proof -
  have "\<exists>u. get_client_data ttl_ops (Inr (demo_worker ''w'')) c ''x'' demo_views =
      (Inr (JObj [(''resource'', JStr ''x''), (''client_bceid_guid'', JStr c), (''client_portal_id'', JStr ''p''), (''data'', JObj [])]), u)"
    using assms
    by (auto simp: bind_def get_client_data_def require_support_view_session_def get_session_def
        store_get_def redis_get_def redis_call_def Let_def now_utc_def demo_sv_def demo_views_def demo_worker_def make_user_def
        view_key_def store_key_def sv_class_sel ttl_ops_def ttl_get_def json_time_def
        sv_load_def sv_dump_def build_defs field_def make_support_session_def)
  then obtain u where u: "served (client_data_route ttl_ops (Inr (demo_worker ''w'')) (demo_rq_for c) ''x'') demo_views =
      (Inr (200, Some (JObj [(''resource'', JStr ''x''), (''client_bceid_guid'', JStr c), (''client_portal_id'', JStr ''p''),
        (''data'', JObj [])])), u)"
    by (auto simp: served_def client_data_route_def demo_rq_for_def)
  from dispatch_table[where call_next = "served (client_data_route ttl_ops (Inr (demo_worker ''w'')) (demo_rq_for c) ''x'')"
      and s = demo_views, OF u, of "\<lambda>tok. Some demo_claims" "demo_rq_for c"] show ?thesis
    by (metis prod.collapse)
qed

theorem audit_omits_client_witness:
  "\<exists>a a'.
     fst (dispatch (\<lambda>tok. Some demo_claims) (demo_rq_for ''g'')
       (served (client_data_route ttl_ops (Inr (demo_worker ''w'')) (demo_rq_for ''g'') ''x'')) demo_views) \<noteq>
     fst (dispatch (\<lambda>tok. Some demo_claims) (demo_rq_for ''h'')
       (served (client_data_route ttl_ops (Inr (demo_worker ''w'')) (demo_rq_for ''h'') ''x'')) demo_views) \<and>
     audit_tbl (snd (dispatch (\<lambda>tok. Some demo_claims) (demo_rq_for ''g'')
       (served (client_data_route ttl_ops (Inr (demo_worker ''w'')) (demo_rq_for ''g'') ''x'')) demo_views)) = [a] \<and>
     audit_tbl (snd (dispatch (\<lambda>tok. Some demo_claims) (demo_rq_for ''h'')
       (served (client_data_route ttl_ops (Inr (demo_worker ''w'')) (demo_rq_for ''h'') ''x'')) demo_views)) = [a'] \<and>
     a' = a\<lparr>audit_id := audit_id a', audit_time := audit_time a'\<rparr>"
proof -
  obtain t where t: "dispatch (\<lambda>tok. Some demo_claims) (demo_rq_for ''g'')
      (served (client_data_route ttl_ops (Inr (demo_worker ''w'')) (demo_rq_for ''g'') ''x'')) demo_views =
      (Inr (200, Some (JObj [(''resource'', JStr ''x''), (''client_bceid_guid'', JStr ''g''), (''client_portal_id'', JStr ''p''),
        (''data'', JObj [])])), t)"
    using demo_client_data[of "''g''"] by auto
  obtain t' where t': "dispatch (\<lambda>tok. Some demo_claims) (demo_rq_for ''h'')
      (served (client_data_route ttl_ops (Inr (demo_worker ''w'')) (demo_rq_for ''h'') ''x'')) demo_views =
      (Inr (200, Some (JObj [(''resource'', JStr ''x''), (''client_bceid_guid'', JStr ''h''), (''client_portal_id'', JStr ''p''),
        (''data'', JObj [])])), t')"
    using demo_client_data[of "''h''"] by auto
  have a: "prefix ''/admin/'' (req_path (demo_rq_for ''g''))" "req_authorization (demo_rq_for ''g'') = Some (''Bearer '' @ ''t'')"
    by (simp_all add: demo_rq_for_def demo_rq_def prefix_def)
  have up: "\<forall>n a. audit_up demo_views n a" and empty: "audit_tbl demo_views = []" by (simp_all add: demo_views_def demo_sv_def)
  have h: "demo_rq_for ''h'' = (demo_rq_for ''g'')\<lparr>req_support_client := Some ''h''\<rparr>" by (simp add: demo_rq_for_def)
  from audit_omits_client[where peek = "\<lambda>tok. Some demo_claims", OF a refl up up t h t'] obtain a a' where
    "audit_tbl t = [a]" "audit_tbl t' = [a']" "a' = a\<lparr>audit_id := audit_id a', audit_time := audit_time a'\<rparr>"
    unfolding empty by auto
  then show ?thesis unfolding t t' by - (rule exI[of _ a], rule exI[of _ a'], simp)
qed

end
