(* ===== verification/Account.thy ===== *)
theory Account
  imports Auth Pin_Hash
begin

text \<open>
  Account and PIN: \<open>app/domains/account\<close> and the routes of \<open>app/routers/account.py\<close> and \<open>pin.py\<close>. Each
  route takes the result \<open>auth\<close> of its role gate. The locale \<open>gate\<close> states what a check in front of
  an operation promises; the PIN check of ICM instantiates it, and the services that sign with a PIN
  (messages, service requests, monthly reports) rest on it.
\<close>

section \<open>Requests and responses\<close>

datatype phone_operation = ADD | UPDATE | DELETE

definition operation_values :: "(string \<times> phone_operation) list" where
  "operation_values = [(''ADD'', ADD), (''UPDATE'', UPDATE), (''DELETE'', DELETE)]"

record phone_update =
  phone_id :: "int option"
  phone_number :: string
  phone_type :: string
  operation :: phone_operation

record update_contact_request =
  email :: "string option"
  email_confirm :: "string option"
  phones :: "phone_update list"

definition delete_requires_phone_id :: "phone_update \<Rightarrow> phone_update res" where
  "delete_requires_phone_id p =
     (if operation p = DELETE \<and> phone_id p = None then Inl ValidationExn else Inr p)"

definition emails_must_match :: "update_contact_request \<Rightarrow> update_contact_request res" where
  "emails_must_match r =
     (if email r \<noteq> None \<and> email r \<noteq> Some [] \<and> email r \<noteq> email_confirm r then Inl ValidationExn else Inr r)"

definition validate_contact :: "update_contact_request \<Rightarrow> update_contact_request res" where
  "validate_contact r =
     bind_res (map_res delete_requires_phone_id (phones r)) (\<lambda>_. emails_must_match r)"

text \<open>\<open>model_dump()\<close>.\<close>

fun show_operation :: "phone_operation \<Rightarrow> string" where
  "show_operation ADD = ''ADD''"
| "show_operation UPDATE = ''UPDATE''"
| "show_operation DELETE = ''DELETE''"

definition dump_phone :: "phone_update \<Rightarrow> json" where
  "dump_phone p = JObj [(''phone_id'', case phone_id p of None \<Rightarrow> JNull | Some i \<Rightarrow> JInt i),
     (''phone_number'', JStr (phone_number p)), (''phone_type'', JStr (phone_type p)),
     (''operation'', JStr (show_operation (operation p)))]"

definition dump_contact :: "update_contact_request \<Rightarrow> json" where
  "dump_contact r = JObj [(''email'', opt_json (email r)), (''email_confirm'', opt_json (email_confirm r)),
     (''phones'', JArr (map dump_phone (phones r)))]"

record account_info =
  info_user :: string
  info_email :: "string option"
  phone_numbers :: "kvs list"
  case_number :: "string option"
  case_status :: "string option"

definition make_account_info :: "string \<Rightarrow> string option \<Rightarrow> kvs list \<Rightarrow> string option \<Rightarrow> string option \<Rightarrow> account_info" where
  "make_account_info u e p n s =
     \<lparr>info_user = u, info_email = e, phone_numbers = p, case_number = n, case_status = s\<rparr>"

definition account_info_of :: "kvs \<Rightarrow> account_info option" where
  "account_info_of ob = build5 make_account_info (field str_of ''user_id'' ob)
     (field_or (nullable str_of) ''email'' None ob) (field_or (list_of dict_of) ''phone_numbers'' [] ob)
     (field_or (nullable str_of) ''case_number'' None ob) (field_or (nullable str_of) ''case_status'' None ob)"

record case_member =
  member_name :: string
  relationship :: string

definition case_member_of :: "kvs \<Rightarrow> case_member option" where
  "case_member_of ob = build2 (\<lambda>n r. \<lparr>member_name = n, relationship = r\<rparr>) (field str_of ''name'' ob) (field str_of ''relationship'' ob)"

definition case_members_of :: "kvs \<Rightarrow> case_member list option" where
  "case_members_of ob = field (list_of (model_of case_member_of)) ''members'' ob"

section \<open>The account service\<close>

definition get_profile :: "'i icm_fun \<Rightarrow> string \<Rightarrow> (('i, 'z) base_scheme, account_info) io" where
  "get_profile icm user = bind (icm_call icm (acct_profile_req user)) (\<lambda>d. lift_res (construct account_info_of d))"

definition update_contact :: "'i icm_fun \<Rightarrow> string \<Rightarrow> update_contact_request \<Rightarrow> (('i, 'z) base_scheme, unit) io" where
  "update_contact icm user r = bind (icm_call icm (update_contact_req user (dump_contact r))) (\<lambda>_. ret ())"

definition get_case_members :: "'i icm_fun \<Rightarrow> string \<Rightarrow> (('i, 'z) base_scheme, case_member list) io" where
  "get_case_members icm user = bind (icm_call icm (get_case_members_req user)) (\<lambda>d. lift_res (construct case_members_of d))"

definition post_login_sync :: "'i icm_fun \<Rightarrow> string \<Rightarrow> (('i, 'z) base_scheme, unit) io" where
  "post_login_sync icm user =
     catch (bind (icm_call icm (sync_profile_req user)) (\<lambda>_. ret ())) is_exception (\<lambda>_. ret ())"

section \<open>The PIN service\<close>

definition pin_validate :: "'i icm_fun \<Rightarrow> string \<Rightarrow> string \<Rightarrow> (('i, 'z) base_scheme, json) io" where
  "pin_validate icm user pin =
     bind (icm_call icm (validate_pin_req user pin)) (\<lambda>result.
     lift_res (obj_get_default result ''valid'' (JBool False)))"

definition validate_or_raise :: "'i icm_fun \<Rightarrow> string \<Rightarrow> string \<Rightarrow> (('i, 'z) base_scheme, unit) io" where
  "validate_or_raise icm user pin =
     bind (pin_validate icm user pin) (\<lambda>v. if truthy v then ret () else raise (PINValidationExn ''Invalid PIN''))"

definition change_pin :: "'i icm_fun \<Rightarrow> string \<Rightarrow> string \<Rightarrow> string \<Rightarrow> (('i, 'z) base_scheme, unit) io" where
  "change_pin icm user current_pin new_pin =
     bind (pin_validate icm user current_pin) (\<lambda>valid.
     if \<not> truthy valid then raise (ValueExn ''Current PIN is incorrect'')
     else bind (icm_call icm (change_pin_req user new_pin)) (\<lambda>_. ret ()))"

definition request_reset :: "'i icm_fun \<Rightarrow> string \<Rightarrow> string \<Rightarrow> (('i, 'z) base_scheme, unit) io" where
  "request_reset icm user mail = bind (icm_call icm (request_pin_reset_req user mail)) (\<lambda>_. ret ())"

definition confirm_reset :: "'i icm_fun \<Rightarrow> string \<Rightarrow> string \<Rightarrow> (('i, 'z) base_scheme, unit) io" where
  "confirm_reset icm token new_pin =
     bind (icm_call icm (confirm_pin_reset_req token new_pin)) (\<lambda>result.
     bind (lift_res (obj_get_default result ''success'' (JBool False))) (\<lambda>ok.
     if truthy ok then ret () else raise (ValueExn ''Token is invalid or expired'')))"

text \<open>The check of the spouse's PIN that submissions make: only a non-empty one is asked about.\<close>

definition check_spouse :: "'i icm_fun \<Rightarrow> string \<Rightarrow> string option \<Rightarrow> (('i, 'z) base_scheme, unit) io" where
  "check_spouse icm guid sp =
     (case sp of
        None \<Rightarrow> ret ()
      | Some p \<Rightarrow>
          if p = [] then ret ()
          else bind (pin_validate icm guid p) (\<lambda>ok.
            if truthy ok then ret () else raise (PINValidationExn ''Invalid spouse PIN'')))"

section \<open>Routes\<close>

text \<open>A PIN field: four decimal digits of any script, sent on in UTF-8.\<close>

definition pin_field :: "ustr \<Rightarrow> string res" where
  "pin_field p =
     (if length p = 4 \<and> list_all is_digit p
      then bind_res (utf8 p) (\<lambda>bs. Inr (map (\<lambda>b. char_of (unat b)) bs))
      else Inl (HTTPExn 422 ''Unprocessable Entity''))"

definition reraise :: "nat \<Rightarrow> ('s, 'a) io \<Rightarrow> ('s, 'a) io" where
  "reraise n m = catch m is_value_error (\<lambda>e. raise (HTTPExn n (exn_str e)))"

definition as_user :: "user_context res \<Rightarrow> (user_context \<Rightarrow> ('s, 'a) io) \<Rightarrow> ('s, 'a) io" where
  "as_user auth f = bind (lift_res auth) f"

text \<open>\<open>user.bceid_guid or user.user_id\<close>.\<close>

definition pin_owner :: "user_context \<Rightarrow> string" where
  "pin_owner u = (case bceid_guid u of None \<Rightarrow> user_id u | Some g \<Rightarrow> if g = [] then user_id u else g)"

definition unprocessable :: exn where
  "unprocessable = HTTPExn 422 ''Unprocessable Entity''"

definition get_profile_route :: "'i icm_fun \<Rightarrow> user_context res \<Rightarrow> (('i, 'z) base_scheme, account_info) io" where
  "get_profile_route icm auth = as_user auth (\<lambda>u. get_profile icm (user_id u))"

definition update_contact_route ::
  "'i icm_fun \<Rightarrow> user_context res \<Rightarrow> update_contact_request \<Rightarrow> (('i, 'z) base_scheme, unit) io" where
  "update_contact_route icm auth r =
     as_user auth (\<lambda>u.
     bind (lift_res (case validate_contact r of Inr x \<Rightarrow> Inr x | Inl _ \<Rightarrow> Inl (HTTPExn 422 ''Unprocessable Entity'')))
       (update_contact icm (user_id u)))"

definition get_case_members_route :: "'i icm_fun \<Rightarrow> user_context res \<Rightarrow> (('i, 'z) base_scheme, case_member list) io" where
  "get_case_members_route icm auth = as_user auth (\<lambda>u. get_case_members icm (user_id u))"

text \<open>The response, and the task that runs after it.\<close>

definition post_login_sync_route ::
  "'i icm_fun \<Rightarrow> user_context res \<Rightarrow> (('i, 'z) base_scheme, (('i, 'z) base_scheme, unit) io) io" where
  "post_login_sync_route icm auth = as_user auth (\<lambda>u. ret (post_login_sync icm (user_id u)))"

definition validate_pin_route :: "'i icm_fun \<Rightarrow> user_context res \<Rightarrow> ustr \<Rightarrow> (('i, 'z) base_scheme, unit) io" where
  "validate_pin_route icm auth pin =
     as_user auth (\<lambda>u.
     bind (lift_res (pin_field pin)) (\<lambda>p.
     bind (pin_validate icm (user_id u) p) (\<lambda>valid.
     if truthy valid then ret () else raise (HTTPExn 403 ''Invalid PIN''))))"

definition change_pin_route :: "'i icm_fun \<Rightarrow> user_context res \<Rightarrow> ustr \<Rightarrow> ustr \<Rightarrow> (('i, 'z) base_scheme, unit) io" where
  "change_pin_route icm auth current_pin new_pin =
     as_user auth (\<lambda>u.
     bind (lift_res (pin_field current_pin)) (\<lambda>c.
     bind (lift_res (pin_field new_pin)) (\<lambda>n.
     reraise 403 (change_pin icm (user_id u) c n))))"

definition reset_request_route :: "'i icm_fun \<Rightarrow> user_context res \<Rightarrow> string \<Rightarrow> (('i, 'z) base_scheme, unit) io" where
  "reset_request_route icm auth mail = as_user auth (\<lambda>u. request_reset icm (user_id u) mail)"

definition reset_confirm_route :: "'i icm_fun \<Rightarrow> user_context res \<Rightarrow> string \<Rightarrow> ustr \<Rightarrow> (('i, 'z) base_scheme, unit) io" where
  "reset_confirm_route icm auth token new_pin =
     as_user auth (\<lambda>u.
     bind (lift_res (pin_field new_pin)) (\<lambda>n.
     reraise 410 (confirm_reset icm token n)))"

section \<open>Gates\<close>

text \<open>
  A check that makes one request \<open>q\<close> and succeeds only in the states that \<open>ok\<close> accepts: what comes
  behind it runs only then, and a refusal has asked for nothing else.
\<close>

locale gate =
  fixes check :: "(('i, 'z) base_scheme, unit) io" and ok :: "('i, 'z) base_scheme \<Rightarrow> bool" and q :: icm_req
  assumes check_ok: "fst (check s) = Inr () \<longleftrightarrow> ok s"
    and check_log: "icm_log (snd (check s)) = icm_log s @ [q]"
begin

lemma refused:
  assumes "\<not> ok s"
  shows "\<exists>e. bind check (\<lambda>_. m) s = (Inl e, snd (check s)) \<and> icm_log (snd (bind check (\<lambda>_. m) s)) = icm_log s @ [q]"
proof -
  obtain e where "fst (check s) = Inl e" using assms check_ok[of s] by (cases "fst (check s)") auto
  then have "bind check (\<lambda>_. m) s = (Inl e, snd (check s))"
    by (intro bind_Inl) (metis prod.collapse)
  then show ?thesis using check_log by simp
qed

lemma refused_only:
  assumes "\<not> ok s"
  shows "(\<exists>e. fst (bind check (\<lambda>_. m) s) = Inl e) \<and> icm_log (snd (bind check (\<lambda>_. m) s)) = icm_log s @ [q]"
  using refused[OF assms, of m] by (metis fst_conv)

lemma passed: "ok s \<Longrightarrow> bind check (\<lambda>_. m) s = m (snd (check s))"
  using check_ok[of s] by (intro bind_Inr[where x = "()"]) (metis prod.collapse)

end

text \<open>Whether ICM, asked about a PIN, says it is valid.\<close>

definition says_valid :: "json res \<Rightarrow> bool" where
  "says_valid r \<longleftrightarrow> (\<exists>kvs v. r = Inr (JObj kvs) \<and> map_of kvs ''valid'' = Some v \<and> truthy v)"

definition pin_ok :: "'i icm_fun \<Rightarrow> string \<Rightarrow> string \<Rightarrow> ('i, 'z) base_scheme \<Rightarrow> bool" where
  "pin_ok icm user pin s \<longleftrightarrow> says_valid (fst (icm (validate_pin_req user pin) (icm_st s)))"

lemma pin_validate_eq:
  "pin_validate icm user pin s =
     (bind_res (fst (icm (validate_pin_req user pin) (icm_st s))) (\<lambda>r. obj_get_default r ''valid'' (JBool False)),
      snd (icm_call icm (validate_pin_req user pin) s))"
  by (cases "fst (icm (validate_pin_req user pin) (icm_st s))") (simp_all add: pin_validate_def bind_def icm_call_def)

lemma valid_truthy:
  "(case bind_res r (\<lambda>r. obj_get_default r ''valid'' (JBool False)) of Inl e \<Rightarrow> False | Inr v \<Rightarrow> truthy v) = says_valid r"
proof (cases r)
  case (Inr j)
  then show ?thesis
    by (cases j) (auto simp: says_valid_def obj_get_default_def split: option.splits)
qed (simp add: says_valid_def)

interpretation pin: gate "validate_or_raise icm user pin" "pin_ok icm user pin" "validate_pin_req user pin"
  for icm :: "'i icm_fun" and user pin
proof
  fix s :: "('i, 'z) base_scheme"
  define v where "v = bind_res (fst (icm (validate_pin_req user pin) (icm_st s))) (\<lambda>r. obj_get_default r ''valid'' (JBool False))"
  have eq: "validate_or_raise icm user pin s =
      (case v of Inl e \<Rightarrow> Inl e | Inr x \<Rightarrow> if truthy x then Inr () else Inl (PINValidationExn ''Invalid PIN''),
       snd (icm_call icm (validate_pin_req user pin) s))"
    unfolding validate_or_raise_def bind_def pin_validate_eq v_def[symmetric] by (cases v) simp_all
  show "fst (validate_or_raise icm user pin s) = Inr () \<longleftrightarrow> pin_ok icm user pin s"
    unfolding eq pin_ok_def valid_truthy[symmetric] v_def[symmetric] by (cases v) simp_all
  show "icm_log (snd (validate_or_raise icm user pin s)) = icm_log s @ [validate_pin_req user pin]"
    unfolding eq by simp
qed

end
