(* ===== verification/Payment.thy ===== *)
theory Payment
  imports Account
begin

text \<open>
  Payments: \<open>app/domains/payment\<close> and the routes of \<open>app/routers/payment.py\<close>. The coercions \<open>co\<close> of
  the pydantic models are a parameter.
\<close>

section \<open>Models\<close>

datatype benefit_code = HOUSING_STABILITY_SUPPLEMENT | SUPPORT | SHELTER | HARDSHIP_COMFORTS

definition benefit_codes :: "(int \<times> benefit_code) list" where
  "benefit_codes = [(32, HOUSING_STABILITY_SUPPLEMENT), (41, SUPPORT), (42, SHELTER), (73, HARDSHIP_COMFORTS)]"

record allowance =
  allowance_code :: benefit_code
  allowance_amount :: decimal
  allowance_description :: string

definition allowance_of :: "coercions \<Rightarrow> kvs \<Rightarrow> allowance option" where
  "allowance_of co ob = build3 (\<lambda>c a d. \<lparr>allowance_code = c, allowance_amount = a, allowance_description = d\<rparr>)
     (field (\<lambda>j. Option.bind (int_of co j) (map_of benefit_codes)) ''code'' ob) (field (dec_of co) ''amount'' ob)
     (field str_of ''description'' ob)"

record deduction =
  deduction_code :: string
  deduction_amount :: decimal
  deduction_description :: string

definition deduction_of :: "coercions \<Rightarrow> kvs \<Rightarrow> deduction option" where
  "deduction_of co ob = build3 (\<lambda>c a d. \<lparr>deduction_code = c, deduction_amount = a, deduction_description = d\<rparr>)
     (field str_of ''code'' ob) (field (dec_of co) ''amount'' ob) (field str_of ''description'' ob)"

record supplement =
  supplement_code :: string
  supplement_amount :: decimal
  effective_date :: date

definition supplement_of :: "coercions \<Rightarrow> kvs \<Rightarrow> supplement option" where
  "supplement_of co ob = build3 (\<lambda>c a d. \<lparr>supplement_code = c, supplement_amount = a, effective_date = d\<rparr>)
     (field str_of ''code'' ob) (field (dec_of co) ''amount'' ob) (field (date_of co) ''effective_date'' ob)"

record provider_payment =
  provider_name :: string
  provider_amount :: decimal
  payment_date :: date

definition provider_payment_of :: "coercions \<Rightarrow> kvs \<Rightarrow> provider_payment option" where
  "provider_payment_of co ob = build3 (\<lambda>n a d. \<lparr>provider_name = n, provider_amount = a, payment_date = d\<rparr>)
     (field str_of ''provider_name'' ob) (field (dec_of co) ''amount'' ob) (field (date_of co) ''payment_date'' ob)"

record mis_data =
  mis_person_id :: string
  key_player_name :: string
  spouse_name :: "string option"
  payment_method :: string
  payment_distribution :: string
  allowances :: "allowance list"
  deductions :: "deduction list"
  aee_balance :: "decimal option"

definition make_mis_data ::
  "string \<Rightarrow> string \<Rightarrow> string option \<Rightarrow> string \<Rightarrow> string \<Rightarrow> allowance list \<Rightarrow> deduction list \<Rightarrow> decimal option \<Rightarrow> mis_data" where
  "make_mis_data p k s m d al de b =
     \<lparr>mis_person_id = p, key_player_name = k, spouse_name = s, payment_method = m, payment_distribution = d,
      allowances = al, deductions = de, aee_balance = b\<rparr>"

definition mis_data_of :: "coercions \<Rightarrow> kvs \<Rightarrow> mis_data option" where
  "mis_data_of co ob = build8 make_mis_data (field str_of ''mis_person_id'' ob) (field str_of ''key_player_name'' ob)
     (field (nullable str_of) ''spouse_name'' ob) (field str_of ''payment_method'' ob)
     (field str_of ''payment_distribution'' ob) (field (list_of (model_of (allowance_of co))) ''allowances'' ob)
     (field (list_of (model_of (deduction_of co))) ''deductions'' ob) (field (nullable (dec_of co)) ''aee_balance'' ob)"

record payment_info =
  upcoming_benefit_date :: date
  assistance_type :: string
  supplements :: "supplement list"
  service_provider_payments :: "provider_payment list"
  info_mis_data :: mis_data

definition make_payment_info ::
  "date \<Rightarrow> string \<Rightarrow> supplement list \<Rightarrow> provider_payment list \<Rightarrow> mis_data \<Rightarrow> payment_info" where
  "make_payment_info d t s p m =
     \<lparr>upcoming_benefit_date = d, assistance_type = t, supplements = s, service_provider_payments = p, info_mis_data = m\<rparr>"

definition payment_info_of :: "coercions \<Rightarrow> kvs \<Rightarrow> payment_info option" where
  "payment_info_of co ob = build5 make_payment_info (field (date_of co) ''upcoming_benefit_date'' ob)
     (field str_of ''assistance_type'' ob) (field (list_of (model_of (supplement_of co))) ''supplements'' ob)
     (field (list_of (model_of (provider_payment_of co))) ''service_provider_payments'' ob)
     (field (model_of (mis_data_of co)) ''mis_data'' ob)"

record t5_slip =
  tax_year :: int
  box_10_amount :: decimal
  box_11_amount :: decimal
  available :: bool

definition t5_slip_of :: "coercions \<Rightarrow> kvs \<Rightarrow> t5_slip option" where
  "t5_slip_of co ob = build4 (\<lambda>y a b v. \<lparr>tax_year = y, box_10_amount = a, box_11_amount = b, available = v\<rparr>)
     (field (int_of co) ''tax_year'' ob) (field (dec_of co) ''box_10_amount'' ob) (field (dec_of co) ''box_11_amount'' ob)
     (field (bool_of co) ''available'' ob)"

definition t5_slips_of :: "coercions \<Rightarrow> kvs \<Rightarrow> t5_slip list option" where
  "t5_slips_of co ob = field (list_of (model_of (t5_slip_of co))) ''slips'' ob"

section \<open>Service\<close>

definition get_payment_info :: "'i icm_fun \<Rightarrow> coercions \<Rightarrow> string \<Rightarrow> (('i, 'z) base_scheme, payment_info) io" where
  "get_payment_info icm co profile =
     bind (icm_call icm (get_payment_info_req profile)) (\<lambda>d. lift_res (construct (payment_info_of co) d))"

definition get_cheque_schedule :: "'i icm_fun \<Rightarrow> coercions \<Rightarrow> string \<Rightarrow> (('i, 'z) base_scheme, cheque_window) io" where
  "get_cheque_schedule icm co user =
     bind (icm_call icm (get_cheque_schedule_req user)) (\<lambda>d. lift_res (construct (window_of co) d))"

definition get_mis_data :: "'i icm_fun \<Rightarrow> coercions \<Rightarrow> string \<Rightarrow> (('i, 'z) base_scheme, mis_data) io" where
  "get_mis_data icm co profile =
     bind (icm_call icm (get_mis_data_req profile)) (\<lambda>d. lift_res (construct (mis_data_of co) d))"

definition get_t5_slips :: "'i icm_fun \<Rightarrow> coercions \<Rightarrow> string \<Rightarrow> (('i, 'z) base_scheme, t5_slip list) io" where
  "get_t5_slips icm co profile =
     bind (icm_call icm (get_t5007_slips_req profile)) (\<lambda>d. lift_res (construct (t5_slips_of co) d))"

definition get_t5_pdf :: "'i icm_fun \<Rightarrow> string \<Rightarrow> int \<Rightarrow> (('i, 'z) base_scheme, json) io" where
  "get_t5_pdf icm profile yr =
     bind (icm_call icm (get_t5007_pdf_req profile yr)) (\<lambda>d.
     bind (lift_res (obj_get d ''content'')) (\<lambda>content.
     case content of
       None \<Rightarrow> raise (ValueExn (''T5007 PDF content missing for year '' @ show_int yr))
     | Some c \<Rightarrow>
         if \<not> truthy c then raise (ValueExn (''T5007 PDF content missing for year '' @ show_int yr)) else ret c))"

section \<open>Routes\<close>

text \<open>
  \<open>io.BytesIO(x)\<close> on a value that came out of a JSON document: null makes an empty buffer, nothing
  else is bytes.
\<close>

fun bytes_io :: "json \<Rightarrow> string res" where
  "bytes_io JNull = Inr []"
| "bytes_io _ = Inl TypeExn"

definition get_payment_info_route where
  "get_payment_info_route icm co auth = as_user auth (\<lambda>u. get_payment_info icm co (user_id u))"

definition get_cheque_schedule_route where
  "get_cheque_schedule_route icm co auth = as_user auth (\<lambda>u. get_cheque_schedule icm co (user_id u))"

definition get_mis_data_route where
  "get_mis_data_route icm co auth = as_user auth (\<lambda>u. get_mis_data icm co (user_id u))"

definition get_t5_slips_route ::
  "env \<Rightarrow> 'i icm_fun \<Rightarrow> coercions \<Rightarrow> user_context res \<Rightarrow> (('i, 'z) base_scheme, t5_slip list) io" where
  "get_t5_slips_route env icm co auth =
     as_user auth (\<lambda>u.
     if t5_disabled env then raise (HTTPExn 404 ''T5 slips feature is not available.'')
     else get_t5_slips icm co (user_id u))"

definition get_t5_pdf_route ::
  "env \<Rightarrow> 'i icm_fun \<Rightarrow> user_context res \<Rightarrow> int \<Rightarrow> (('i, 'z) base_scheme, string) io" where
  "get_t5_pdf_route env icm auth yr =
     as_user auth (\<lambda>u.
     if \<not> (2000 \<le> yr \<and> yr \<le> 2100) then raise (HTTPExn 422 ''Unprocessable Entity'')
     else if t5_disabled env then raise (HTTPExn 404 ''T5 slips feature is not available.'')
     else
       bind (catch (get_t5_pdf icm (user_id u) yr) is_value_error
         (\<lambda>_. raise (HTTPExn 404 ''T5007 PDF not available for this year.''))) (\<lambda>content.
       lift_res (bytes_io content)))"

lemma get_t5_pdf_content: "get_t5_pdf icm p yr s = (Inr c, t) \<Longrightarrow> c \<noteq> JNull"
  by (auto simp: get_t5_pdf_def bind_def icm_call_def split: sum.splits option.splits if_splits)

lemma bytes_io_null: "bytes_io c = Inr x \<longleftrightarrow> c = JNull \<and> x = []"
  by (cases c) auto

lemma get_t5_pdf_route_fails: "fst (get_t5_pdf_route env icm auth yr s) \<noteq> Inr pdf"
  by (auto simp: get_t5_pdf_route_def as_user_def bind_def catch_def bytes_io_null split: sum.splits prod.splits if_splits
      dest: get_t5_pdf_content)

end
