(* ===== verification/Employment_Plans.thy ===== *)
theory Employment_Plans
  imports Account "HOL-Library.Multiset"
begin

text \<open>Employment plans: \<open>app/domains/employment_plans\<close> and the routes of \<open>app/routers/employment_plans.py\<close>.\<close>

datatype ep_status = Received | Submitted | PendingSignature

definition ep_status_values :: "(string \<times> ep_status) list" where
  "ep_status_values = [(''Received'', Received), (''Submitted'', Submitted), (''PendingSignature'', PendingSignature)]"

record employment_plan =
  ep_id :: int
  message_id :: "int option"
  icm_attachment_id :: string
  ep_status :: ep_status
  plan_date :: date
  message_deleted :: bool

definition make_plan :: "int \<Rightarrow> int option \<Rightarrow> string \<Rightarrow> ep_status \<Rightarrow> date \<Rightarrow> bool \<Rightarrow> employment_plan" where
  "make_plan i m a s d x =
     \<lparr>ep_id = i, message_id = m, icm_attachment_id = a, ep_status = s, plan_date = d, message_deleted = x\<rparr>"

definition plan_of :: "coercions \<Rightarrow> kvs \<Rightarrow> employment_plan option" where
  "plan_of co ob = build6 make_plan (field (int_of co) ''ep_id'' ob) (field_or (nullable (int_of co)) ''message_id'' None ob)
     (field str_of ''icm_attachment_id'' ob) (field (enum_of ep_status_values) ''status'' ob)
     (field (date_of co) ''plan_date'' ob) (field (bool_of co) ''message_deleted'' ob)"

text \<open>\<open>sort(key=k, reverse=True)\<close> keeps equal elements in their order.\<close>

definition sort_reverse :: "('a \<Rightarrow> 'k::linorder) \<Rightarrow> 'a list \<Rightarrow> 'a list" where
  "sort_reverse k xs = rev (sort_key k (rev xs))"

definition list_plans :: "'i icm_fun \<Rightarrow> coercions \<Rightarrow> string \<Rightarrow> (('i, 'z) base_scheme, employment_plan list) io" where
  "list_plans icm co profile =
     bind (icm_call icm (get_ep_list_req profile)) (\<lambda>d.
     bind (lift_res (construct_all (plan_of co) d ''plans'')) (\<lambda>plans.
     ret (sort_reverse plan_date plans)))"

definition ep_get_detail :: "'i icm_fun \<Rightarrow> coercions \<Rightarrow> string \<Rightarrow> (('i, 'z) base_scheme, employment_plan) io" where
  "ep_get_detail icm co i = bind (icm_call icm (get_ep_detail_req i)) (\<lambda>d. lift_res (construct (plan_of co) d))"

text \<open>The response: the plan's id and the time of signing.\<close>

definition ep_sign_and_send ::
  "'i icm_fun \<Rightarrow> int \<Rightarrow> string \<Rightarrow> int \<Rightarrow> string \<Rightarrow> (('i, 'z) base_scheme, int \<times> instant) io" where
  "ep_sign_and_send icm i pin msg profile =
     bind (icm_call icm (send_to_icm_req (show_int i) pin)) (\<lambda>_.
     bind (icm_call icm (mark_form_submitted_req (show_int i) msg)) (\<lambda>_.
     bind now_utc (\<lambda>now. ret (i, now))))"

definition list_employment_plans where
  "list_employment_plans icm co auth = as_user auth (\<lambda>u. list_plans icm co (user_id u))"

definition get_employment_plan_detail ::
  "'i icm_fun \<Rightarrow> coercions \<Rightarrow> user_context res \<Rightarrow> int \<Rightarrow> (('i, 'z) base_scheme, employment_plan) io" where
  "get_employment_plan_detail icm co auth i = as_user auth (\<lambda>u. ep_get_detail icm co (show_int i))"

definition sign_employment_plan ::
  "'i icm_fun \<Rightarrow> user_context res \<Rightarrow> int \<Rightarrow> string \<Rightarrow> int \<Rightarrow> (('i, 'z) base_scheme, int \<times> instant) io" where
  "sign_employment_plan icm auth i pin msg =
     as_user auth (\<lambda>u.
     if pin = [] then raise (HTTPExn 422 ''Unprocessable Entity'')
     else reraise 403 (ep_sign_and_send icm i pin msg (user_id u)))"

lemma sort_reverse_props:
  "mset (sort_reverse k xs) = mset xs"
  "sorted_wrt (\<lambda>a b. k b \<le> k a) (sort_reverse k xs)"
  "filter (\<lambda>x. k x = v) (sort_reverse k xs) = filter (\<lambda>x. k x = v) xs"
proof -
  show "mset (sort_reverse k xs) = mset xs" by (simp add: sort_reverse_def)
  have "sorted (map k (sort_key k (rev xs)))" by simp
  then show "sorted_wrt (\<lambda>a b. k b \<le> k a) (sort_reverse k xs)"
    by (simp add: sort_reverse_def sorted_wrt_rev sorted_wrt_map)
  show "filter (\<lambda>x. k x = v) (sort_reverse k xs) = filter (\<lambda>x. k x = v) xs"
    by (simp add: sort_reverse_def rev_filter[symmetric] sort_key_stable)
qed

text \<open>
  The list of employment plans is every plan of the answer of ICM exactly once, newest plan date
  first, plans of the same date in the order ICM gave them. It is for the caller's profile only.
\<close>

theorem plans_newest_first:
  assumes "list_employment_plans icm co (Inr u) s = (Inr plans, t)"
  shows "icm_log t = icm_log s @ [get_ep_list_req (user_id u)] \<and>
    (\<exists>answer raw. fst (icm (get_ep_list_req (user_id u)) (icm_st s)) = Inr answer \<and>
       construct_all (plan_of co) answer ''plans'' = Inr raw \<and>
       mset plans = mset raw \<and> sorted_wrt (\<lambda>a b. plan_date b \<le> plan_date a) plans \<and>
       (\<forall>d. filter (\<lambda>p. plan_date p = d) plans = filter (\<lambda>p. plan_date p = d) raw))"
  using assms
  by (auto simp: list_employment_plans_def as_user_def list_plans_def bind_def icm_call_def sort_reverse_props
      split: sum.splits)

definition demo_plan :: "int \<Rightarrow> string \<Rightarrow> json" where
  "demo_plan i d = JObj [(''ep_id'', JInt i), (''icm_attachment_id'', JStr ''a''), (''status'', JStr ''Received''),
     (''plan_date'', JStr d), (''message_deleted'', JBool False)]"

lemma demo_dates:
  "iso_date ''2024-01-05'' = Some (Date 2024 1 5)" "iso_date ''2025-03-01'' = Some (Date 2025 3 1)"
  by (simp_all add: iso_date_def read_digits_def read_nat_def dec_digit_def valid_date_def days_in_month_def)

definition demo_plans :: "nat icm_fun" where
  "demo_plans rq n = (Inr (JObj [(''plans'', JArr [demo_plan 1 ''2024-01-05'', demo_plan 2 ''2025-03-01''])]), n)"

definition demo_base :: "nat base" where
  "demo_base = \<lparr>icm_st = 0, icm_log = [], clock = (\<lambda>n. 0), ticks = 0, uuids = (\<lambda>n. []), uuid_ix = 0\<rparr>"

lemma demo_list: "map_sum id (map ep_id) (fst (list_employment_plans demo_plans plain (Inr (make_user ''u'' CLIENT None None)) demo_base)) = Inr [2, 1]"
  by (simp add: list_employment_plans_def as_user_def list_plans_def bind_def icm_call_def construct_all_def demo_plan_def
      demo_plans_def plan_of_def build_defs field_def field_or_def plain_def enum_of_def ep_status_values_def demo_dates make_plan_def
      sort_reverse_def)

theorem plans_newest_first_witness:
  "\<exists>plans t. list_employment_plans demo_plans plain (Inr (make_user ''u'' CLIENT None None)) demo_base = (Inr plans, t) \<and>
     map ep_id plans = [2, 1] \<and> icm_log t = [get_ep_list_req ''u''] \<and> sorted_wrt (\<lambda>a b. plan_date b \<le> plan_date a) plans"
proof (cases "list_employment_plans demo_plans plain (Inr (make_user ''u'' CLIENT None None)) demo_base")
  case (Pair r t)
  then obtain plans where p: "list_employment_plans demo_plans plain (Inr (make_user ''u'' CLIENT None None)) demo_base = (Inr plans, t)"
      "map ep_id plans = [2, 1]"
    using demo_list by (cases r) auto
  from plans_newest_first[OF p(1)] show ?thesis using p by (auto simp: make_user_def demo_base_def)
qed

end
