(* ===== verification/Notifications.thy ===== *)
theory Notifications
  imports Account
begin

text \<open>
  Banners, inbox messages and e-mail tasks: \<open>app/domains/notifications\<close>, the routes of
  \<open>app/routers/notifications.py\<close> and \<open>app/services/notification_service.py\<close> (tasks put on the two
  Celery queues; the tasks themselves are stubs).
\<close>

section \<open>Models\<close>

datatype message_type =
  SD81_STANDARD | SD81_RESTART | SD81_STREAMLINED_RESTART | SD81_PENDING_DOCUMENTS | FORM_SUBMISSION | GENERAL

definition message_types :: "(string \<times> message_type) list" where
  "message_types =
     [(''HR0081'', SD81_STANDARD), (''HR0081Restart'', SD81_RESTART), (''HR0081StreamlinedRestart'', SD81_STREAMLINED_RESTART),
      (''HR0081 Pending Documents'', SD81_PENDING_DOCUMENTS), (''FormSubmission'', FORM_SUBMISSION), (''General'', GENERAL)]"

record banner =
  notification_id :: string
  banner_body :: string
  start_date :: datetime
  end_date :: datetime

definition banner_of :: "coercions \<Rightarrow> kvs \<Rightarrow> banner option" where
  "banner_of co ob = build4 (\<lambda>i b s e. \<lparr>notification_id = i, banner_body = b, start_date = s, end_date = e\<rparr>)
     (field str_of ''notification_id'' ob) (field str_of ''body'' ob) (field (dt_of co) ''start_date'' ob)
     (field (dt_of co) ''end_date'' ob)"

record message_summary =
  message_id :: string
  subject :: string
  sent_date :: datetime
  is_read :: bool
  can_reply :: bool
  message_type :: message_type

definition make_summary :: "string \<Rightarrow> string \<Rightarrow> datetime \<Rightarrow> bool \<Rightarrow> bool \<Rightarrow> message_type \<Rightarrow> message_summary" where
  "make_summary i s d r c t =
     \<lparr>message_id = i, subject = s, sent_date = d, is_read = r, can_reply = c, message_type = t\<rparr>"

definition summary_of :: "coercions \<Rightarrow> kvs \<Rightarrow> message_summary option" where
  "summary_of co ob = build6 make_summary (field str_of ''message_id'' ob) (field str_of ''subject'' ob)
     (field (dt_of co) ''sent_date'' ob) (field (bool_of co) ''is_read'' ob) (field (bool_of co) ''can_reply'' ob)
     (field (enum_of message_types) ''message_type'' ob)"

record message_detail = message_summary +
  detail_body :: string
  attachments :: "string list"

definition detail_of :: "coercions \<Rightarrow> kvs \<Rightarrow> message_detail option" where
  "detail_of co ob = build3 (\<lambda>m b a. message_summary.extend m \<lparr>detail_body = b, attachments = a\<rparr>) (summary_of co ob)
     (field str_of ''body'' ob) (field (list_of str_of) ''attachments'' ob)"

record inbox =
  messages :: "message_summary list"
  message_total :: int

record reply_response =
  reply_status :: string
  sent_at :: datetime

section \<open>Service\<close>

text \<open>The loop over the banners: an expired one is left out, and comparing may raise.\<close>

fun current_banners :: "coercions \<Rightarrow> instant \<Rightarrow> json list \<Rightarrow> banner list res" where
  "current_banners co now [] = Inr []"
| "current_banners co now (j # js) =
     bind_res (construct (banner_of co) j) (\<lambda>b.
     bind_res (dt_le (Aware now) (end_date b)) (\<lambda>keep.
     bind_res (current_banners co now js) (\<lambda>bs. Inr (if keep then b # bs else bs))))"

definition get_banners :: "'i icm_fun \<Rightarrow> coercions \<Rightarrow> string \<Rightarrow> (('i, 'z) base_scheme, banner list) io" where
  "get_banners icm co case_no =
     bind (icm_call icm (get_banners_req case_no)) (\<lambda>raw.
     bind now_utc (\<lambda>now.
     bind (lift_res (obj_get_default raw ''banners'' (JArr []))) (\<lambda>items.
     lift_res (bind_res (elements items) (current_banners co now)))))"

definition list_messages :: "'i icm_fun \<Rightarrow> coercions \<Rightarrow> string \<Rightarrow> int \<Rightarrow> (('i, 'z) base_scheme, inbox) io" where
  "list_messages icm co profile page =
     bind (icm_call icm (get_messages_req profile page)) (\<lambda>raw.
     bind (lift_res (construct_all (summary_of co) raw ''messages'')) (\<lambda>ms.
     bind (lift_res (obj_get_default raw ''total'' (JInt (int (length ms))))) (\<lambda>n.
     lift_res (case int_of co n of None \<Rightarrow> Inl ValidationExn | Some k \<Rightarrow> Inr \<lparr>messages = ms, message_total = k\<rparr>))))"

definition get_message_detail :: "'i icm_fun \<Rightarrow> coercions \<Rightarrow> string \<Rightarrow> (('i, 'z) base_scheme, message_detail) io" where
  "get_message_detail icm co msg =
     bind (icm_call icm (get_message_detail_req msg)) (\<lambda>raw. lift_res (construct (detail_of co) raw))"

definition mark_read :: "'i icm_fun \<Rightarrow> string \<Rightarrow> (('i, 'z) base_scheme, unit) io" where
  "mark_read icm msg = catch (bind (icm_call icm (mark_read_req msg)) (\<lambda>_. ret ())) is_exception (\<lambda>_. ret ())"

definition reply_json :: "string \<Rightarrow> string \<Rightarrow> string list \<Rightarrow> json" where
  "reply_json msg text_body ids =
     JObj [(''reply_to'', JStr msg), (''body'', JStr text_body), (''attachment_ids'', JArr (map JStr ids))]"

definition reply ::
  "'i icm_fun \<Rightarrow> coercions \<Rightarrow> string \<Rightarrow> string \<Rightarrow> string list \<Rightarrow> bool \<Rightarrow> (('i, 'z) base_scheme, reply_response) io" where
  "reply icm co msg text_body ids allowed =
     (if \<not> allowed then raise (ValueExn ''Reply not allowed for this message'')
      else
        bind (icm_call icm (send_message_req (reply_json msg text_body ids))) (\<lambda>raw.
        bind (lift_res (obj_get_default raw ''status'' (JStr ''sent''))) (\<lambda>st.
        bind now_utc (\<lambda>now.
        bind (lift_res (obj_get raw ''sent_at'')) (\<lambda>at.
        lift_res (case build2 (\<lambda>x y. \<lparr>reply_status = x, sent_at = y\<rparr>) (str_of st)
            (case at of None \<Rightarrow> Some (Aware now) | Some j \<Rightarrow> dt_of co j) of
          None \<Rightarrow> Inl ValidationExn | Some r \<Rightarrow> Inr r))))))"

definition delete_message :: "'i icm_fun \<Rightarrow> string \<Rightarrow> (('i, 'z) base_scheme, unit) io" where
  "delete_message icm msg = bind (icm_call icm (delete_message_req msg)) (\<lambda>_. ret ())"

definition sign_and_send :: "'i icm_fun \<Rightarrow> string \<Rightarrow> string \<Rightarrow> string \<Rightarrow> (('i, 'z) base_scheme, unit) io" where
  "sign_and_send icm msg pin guid =
     bind (validate_or_raise icm guid pin) (\<lambda>_.
     bind (icm_call icm (sign_message_req msg pin)) (\<lambda>_. ret ()))"

section \<open>Routes\<close>

definition get_banners_route where
  "get_banners_route icm co auth = as_user auth (\<lambda>u. get_banners icm co (user_id u))"

definition list_messages_route ::
  "'i icm_fun \<Rightarrow> coercions \<Rightarrow> user_context res \<Rightarrow> int \<Rightarrow> (('i, 'z) base_scheme, inbox) io" where
  "list_messages_route icm co auth page =
     as_user auth (\<lambda>u. if page < 1 then raise (HTTPExn 422 ''Unprocessable Entity'') else list_messages icm co (user_id u) page)"

text \<open>The detail, and the task that marks the message read after the response.\<close>

definition get_message_detail_route ::
  "'i icm_fun \<Rightarrow> coercions \<Rightarrow> user_context res \<Rightarrow> string \<Rightarrow>
   (('i, 'z) base_scheme, message_detail \<times> (('i, 'z) base_scheme, unit) io) io" where
  "get_message_detail_route icm co auth msg =
     as_user auth (\<lambda>u. bind (get_message_detail icm co msg) (\<lambda>d. ret (d, mark_read icm msg)))"

definition reply_to_message ::
  "'i icm_fun \<Rightarrow> coercions \<Rightarrow> user_context res \<Rightarrow> string \<Rightarrow> ustr \<Rightarrow> string list \<Rightarrow> (('i, 'z) base_scheme, reply_response) io" where
  "reply_to_message icm co auth msg text_body ids =
     as_user auth (\<lambda>u.
     if 4000 < length text_body then raise (HTTPExn 422 ''Unprocessable Entity'')
     else
       bind (get_message_detail icm co msg) (\<lambda>m.
       if \<not> can_reply m then raise (HTTPExn 403 ''Reply not allowed'')
       else
         bind (lift_res (utf8 text_body)) (\<lambda>bs.
         reply icm co msg (map (\<lambda>b. char_of (unat b)) bs) ids (can_reply m))))"

definition delete_message_route :: "'i icm_fun \<Rightarrow> user_context res \<Rightarrow> string \<Rightarrow> (('i, 'z) base_scheme, unit) io" where
  "delete_message_route icm auth msg = as_user auth (\<lambda>u. delete_message icm msg)"

definition sign_and_send_route :: "'i icm_fun \<Rightarrow> user_context res \<Rightarrow> string \<Rightarrow> string \<Rightarrow> (('i, 'z) base_scheme, unit) io" where
  "sign_and_send_route icm auth msg pin =
     as_user auth (\<lambda>u.
     if pin = [] then raise (HTTPExn 422 ''Unprocessable Entity'') else sign_and_send icm msg pin (pin_owner u))"

section \<open>E-mail tasks\<close>

datatype email_template =
  REGISTRATION_VERIFICATION | PIN_RESET | SD81_REMINDER | REGISTRATION_CONFIRMATION | APPLICATION_SURVEY

datatype notification_type = BULK | TRANSACTIONAL

record email_recipient =
  recipient_email :: string
  recipient_name :: string

record email_task =
  task_template :: email_template
  task_recipients :: "email_recipient list"
  task_context :: json
  task_type :: notification_type

text \<open>The queues by name, with the tasks sent to them.\<close>

type_synonym queues = "(string \<times> email_task) list"

definition send_bulk_email :: "email_template \<Rightarrow> email_recipient list \<Rightarrow> json \<Rightarrow> (queues, unit) io" where
  "send_bulk_email t rs c = modify (\<lambda>q. q @ [(''notifications_bulk'',
     \<lparr>task_template = t, task_recipients = rs, task_context = c, task_type = BULK\<rparr>)])"

definition send_transactional_email :: "email_template \<Rightarrow> email_recipient \<Rightarrow> json \<Rightarrow> (queues, unit) io" where
  "send_transactional_email t r c = modify (\<lambda>q. q @ [(''notifications_transactional'',
     \<lparr>task_template = t, task_recipients = [r], task_context = c, task_type = TRANSACTIONAL\<rparr>)])"

section \<open>Banners\<close>

lemma current_banners_aware:
  assumes "map_res (construct (banner_of co)) js = Inr bs" and "\<forall>b \<in> set bs. end_date b = Aware (dt_instant (end_date b))"
  shows "current_banners co now js = Inr (filter (\<lambda>b. now \<le> dt_instant (end_date b)) bs)"
  using assms
proof (induction js arbitrary: bs)
  case (Cons j js)
  then obtain b cs where b: "construct (banner_of co) j = Inr b" "map_res (construct (banner_of co)) js = Inr cs" "bs = b # cs"
    by auto
  have "dt_le (Aware now) (end_date b) = Inr (now \<le> dt_instant (end_date b))"
    using Cons.prems(2) b(3) by (metis dt_le.simps(1) list.set_intros(1))
  then show ?case using Cons.IH[OF b(2)] Cons.prems(2) b by simp
qed simp

lemma current_banners_naive:
  assumes "map_res (construct (banner_of co)) js = Inr bs" and "b \<in> set bs" and "end_date b = Naive e"
  shows "current_banners co now js = Inl TypeExn"
  using assms
proof (induction js arbitrary: bs)
  case (Cons j js)
  then obtain a cs where a: "construct (banner_of co) j = Inr a" "map_res (construct (banner_of co)) js = Inr cs" "bs = a # cs"
    by auto
  show ?case
  proof (cases "end_date a")
    case Naive
    then show ?thesis using a by simp
  next
    case (Aware t)
    then have "b \<in> set cs" using Cons.prems a(3) by auto
    then show ?thesis using Cons.IH[OF a(2)] Cons.prems(3) a Aware by simp
  qed
qed simp

text \<open>
  The banners shown to a client are exactly those of the answer of ICM that have not ended at the
  time of the request, in its order, when their end dates carry a time zone. A single banner whose
  end date has none makes the whole request fail with TypeError (500), expired or not.
\<close>

theorem banners_not_ended:
  assumes "fst (icm (get_banners_req (user_id u)) (icm_st s)) = Inr (JObj ob)" and "map_of ob ''banners'' = Some (JArr js)"
    and "map_res (construct (banner_of co)) js = Inr bs"
  shows "fst (get_banners_route icm co (Inr u) s) =
    (if \<forall>b \<in> set bs. \<exists>e. end_date b = Aware e
     then Inr (filter (\<lambda>b. clock s (ticks s) \<le> dt_instant (end_date b)) bs) else Inl TypeExn)"
proof -
  have eq: "fst (get_banners_route icm co (Inr u) s) = current_banners co (clock s (ticks s)) js"
    using assms(1,2) by (simp add: get_banners_route_def as_user_def get_banners_def bind_def icm_call_def now_utc_def)
  show ?thesis
  proof (cases "\<forall>b \<in> set bs. \<exists>e. end_date b = Aware e")
    case True
    then show ?thesis unfolding eq using current_banners_aware[OF assms(3)] by fastforce
  next
    case False
    then obtain b e where "b \<in> set bs" "end_date b = Naive e" by (metis datetime.exhaust)
    then show ?thesis unfolding eq using current_banners_naive[OF assms(3)] False by simp
  qed
qed

theorem banners_not_ended_witness:
  "fst (get_banners_route (\<lambda>rq n. (Inr (JObj [(''banners'', JArr
       [JObj [(''notification_id'', JStr ''1''), (''body'', JStr ''b''), (''start_date'', JInt 1), (''end_date'', JInt 5)],
        JObj [(''notification_id'', JStr ''2''), (''body'', JStr ''c''), (''start_date'', JInt 1), (''end_date'', JInt 9)]])]), n))
     plain (Inr (make_user ''u'' CLIENT None None))
     \<lparr>icm_st = (0::nat), icm_log = [], clock = (\<lambda>n. seconds 6), ticks = 0, uuids = (\<lambda>n. []), uuid_ix = 0\<rparr>) =
   Inr [\<lparr>notification_id = ''2'', banner_body = ''c'', start_date = Aware (seconds 1), end_date = Aware (seconds 9)\<rparr>]"
  by (subst banners_not_ended, simp, simp,
      simp add: banner_of_def build_defs field_def plain_def, simp add: seconds_def)

section \<open>Permissions\<close>

text \<open>Signing a message: nothing but the PIN check reaches ICM unless it says the PIN is valid.\<close>

lemma sign_and_send_gated:
  assumes "\<not> pin_ok icm guid pin s"
  shows "(\<exists>e. fst (sign_and_send icm msg pin guid s) = Inl e) \<and>
    icm_log (snd (sign_and_send icm msg pin guid s)) = icm_log s @ [validate_pin_req guid pin]"
  unfolding sign_and_send_def by (rule pin.refused_only[OF assms])

text \<open>
  A reply is sent only to a message that allows it: when ICM's answer for the message is a message
  that does not, or no message at all, the route fails (403 for the former) and the only request
  made was the one for the message.
\<close>

theorem reply_needs_permission:
  assumes "length text_body \<le> 4000"
    and "fst (icm (get_message_detail_req msg) (icm_st s)) = Inr d"
    and "\<not> (\<exists>m. construct (detail_of co) d = Inr m \<and> can_reply m)"
  shows "icm_log (snd (reply_to_message icm co (Inr u) msg text_body ids s)) = icm_log s @ [get_message_detail_req msg] \<and>
    fst (reply_to_message icm co (Inr u) msg text_body ids s) =
      Inl (case construct (detail_of co) d of Inl e \<Rightarrow> e | Inr m \<Rightarrow> HTTPExn 403 ''Reply not allowed'')"
  using assms
  by (cases "construct (detail_of co) d")
    (auto simp: reply_to_message_def as_user_def get_message_detail_def bind_def icm_call_def)

definition demo_message :: json where
  "demo_message = JObj [(''message_id'', JStr ''7''), (''subject'', JStr ''s''), (''sent_date'', JInt 1), (''is_read'', JBool False),
     (''can_reply'', JBool False), (''message_type'', JStr ''General''), (''body'', JStr ''b''), (''attachments'', JArr [])]"

lemma demo_message_detail: "\<exists>m. construct (detail_of plain) demo_message = Inr m \<and> \<not> can_reply m"
  by (simp add: demo_message_def detail_of_def summary_of_def build_defs field_def plain_def enum_of_def message_types_def
      make_summary_def message_summary.defs)

theorem reply_needs_permission_witness:
  "fst (reply_to_message (\<lambda>rq n. (Inr demo_message, n)) plain (Inr (make_user ''u'' CLIENT None None)) ''7'' [104, 105] []
     \<lparr>icm_st = (0::nat), icm_log = [], clock = (\<lambda>n. 0), ticks = 0, uuids = (\<lambda>n. []), uuid_ix = 0\<rparr>) =
   Inl (HTTPExn 403 ''Reply not allowed'')"
proof -
  obtain m where m: "construct (detail_of plain) demo_message = Inr m" "\<not> can_reply m" using demo_message_detail by blast
  show ?thesis
    by (rule trans, rule conjunct2[OF reply_needs_permission[where d = demo_message]]) (simp_all add: m)
qed

end
