(* ===== verification/Service_Requests.thy ===== *)
theory Service_Requests
  imports Account Machines
begin

text \<open>
  Service requests (SRs): \<open>app/domains/service_requests\<close> (models, type registry, draft repository,
  service, PDF placeholder), the table of \<open>app/models/service_requests.py\<close> and the routes of
  \<open>app/routers/service_requests.py\<close>. ICM and the coercions \<open>co\<close> are parameters; a stream says which
  statements the database executes.
\<close>

section \<open>Types\<close>

datatype sr_type =
    ASSIST | RREINSTATE | CRISIS_FOOD | CRISIS_SHELTER | CRISIS_CLOTHING | CRISIS_UTILITIES | CRISIS_MED_TRANSPORT
  | DIRECT_DEPOSIT | DIET | NATAL | MED_TRANSPORT_LOCAL | MED_TRANSPORT_NON_LOCAL | RECONSIDERATION | RECON_SUPPLEMENT
  | RECON_EXTENSION | STREAMLINED | BUS_PASS | PWD_DESIGNATION | PPMB

definition sr_types :: "(string \<times> sr_type) list" where
  "sr_types =
     [(''ASSIST'', ASSIST), (''RREINSTATE'', RREINSTATE), (''CRISIS_FOOD'', CRISIS_FOOD),
      (''CRISIS_SHELTER'', CRISIS_SHELTER), (''CRISIS_CLOTHING'', CRISIS_CLOTHING),
      (''CRISIS_UTILITIES'', CRISIS_UTILITIES), (''CRISIS_MED_TRANSPORT'', CRISIS_MED_TRANSPORT),
      (''DIRECT_DEPOSIT'', DIRECT_DEPOSIT), (''DIET'', DIET), (''NATAL'', NATAL),
      (''MED_TRANSPORT_LOCAL'', MED_TRANSPORT_LOCAL), (''MED_TRANSPORT_NON_LOCAL'', MED_TRANSPORT_NON_LOCAL),
      (''RECONSIDERATION'', RECONSIDERATION), (''RECON_SUPPLEMENT'', RECON_SUPPLEMENT),
      (''RECON_EXTENSION'', RECON_EXTENSION), (''STREAMLINED'', STREAMLINED), (''BUS_PASS'', BUS_PASS),
      (''PWD_DESIGNATION'', PWD_DESIGNATION), (''PPMB'', PPMB)]"

definition sr_value :: "sr_type \<Rightarrow> string" where
  "sr_value t = (case map_of (map prod.swap sr_types) t of Some v \<Rightarrow> v | None \<Rightarrow> [])"

definition DYNAMIC_TYPES :: "sr_type list" where
  "DYNAMIC_TYPES =
     [ASSIST, RREINSTATE, CRISIS_FOOD, CRISIS_SHELTER, CRISIS_CLOTHING, CRISIS_UTILITIES, CRISIS_MED_TRANSPORT,
      DIET, NATAL, MED_TRANSPORT_LOCAL, MED_TRANSPORT_NON_LOCAL, RECONSIDERATION, RECON_SUPPLEMENT,
      RECON_EXTENSION, STREAMLINED, PWD_DESIGNATION, PPMB]"

definition PDF_TYPES :: "sr_type list" where
  "PDF_TYPES =
     [CRISIS_FOOD, CRISIS_SHELTER, CRISIS_CLOTHING, CRISIS_UTILITIES, CRISIS_MED_TRANSPORT, DIRECT_DEPOSIT, DIET, NATAL]"

definition is_dynamic :: "sr_type \<Rightarrow> bool" where
  "is_dynamic t \<longleftrightarrow> t \<in> set DYNAMIC_TYPES"

definition requires_pdf :: "sr_type \<Rightarrow> bool" where
  "requires_pdf t \<longleftrightarrow> t \<in> set PDF_TYPES"

section \<open>Models\<close>

record sr_summary =
  summary_id :: string
  summary_type :: sr_type
  summary_number :: string
  summary_status :: string
  summary_client :: string
  summary_created :: datetime

definition make_sr_summary :: "string \<Rightarrow> sr_type \<Rightarrow> string \<Rightarrow> string \<Rightarrow> string \<Rightarrow> datetime \<Rightarrow> sr_summary" where
  "make_sr_summary i t n s c d =
     \<lparr>summary_id = i, summary_type = t, summary_number = n, summary_status = s, summary_client = c, summary_created = d\<rparr>"

definition sr_summary_of :: "coercions \<Rightarrow> kvs \<Rightarrow> sr_summary option" where
  "sr_summary_of co ob = build6 make_sr_summary (field str_of ''sr_id'' ob) (field (enum_of sr_types) ''sr_type'' ob)
     (field str_of ''sr_number'' ob) (field str_of ''status'' ob) (field str_of ''client_name'' ob)
     (field (dt_of co) ''created_at'' ob)"

record sr_list =
  items :: "sr_summary list"
  list_total :: int
  list_page :: int
  list_page_size :: int

record sr_type_metadata =
  meta_type :: sr_type
  display_name :: string
  requires_pin :: bool
  has_attachments :: bool
  max_active :: int

definition make_metadata :: "sr_type \<Rightarrow> string \<Rightarrow> bool \<Rightarrow> bool \<Rightarrow> int \<Rightarrow> sr_type_metadata" where
  "make_metadata t n p a m =
     \<lparr>meta_type = t, display_name = n, requires_pin = p, has_attachments = a, max_active = m\<rparr>"

definition metadata_of :: "coercions \<Rightarrow> kvs \<Rightarrow> sr_type_metadata option" where
  "metadata_of co ob = build5 make_metadata (field (enum_of sr_types) ''sr_type'' ob) (field str_of ''display_name'' ob)
     (field (bool_of co) ''requires_pin'' ob) (field (bool_of co) ''has_attachments'' ob) (field (int_of co) ''max_active'' ob)"

record draft_response =
  response_id :: string
  response_type :: sr_type
  response_json :: "kvs option"
  response_updated :: datetime

record form_field =
  field_id :: string
  label :: string
  field_type :: string
  required :: bool
  options :: "string list option"
  validation :: "kvs option"

record form_page =
  page_index :: int
  title :: string
  page_fields :: "form_field list"

datatype form_type = SR | MONTHLY_REPORT | APPLICATION

record form_schema =
  form_type :: form_type
  schema_type :: "sr_type option"
  pages :: "form_page list"
  total_pages :: int

record submit_request =
  submit_pin :: string
  spouse_pin :: "string option"
  declaration_accepted :: bool

definition must_be_true :: "submit_request \<Rightarrow> submit_request res" where
  "must_be_true r = (if \<not> declaration_accepted r then Inl ValidationExn else Inr r)"

record submit_response =
  submitted_id :: string
  submitted_number :: string
  submitted_at :: instant

record sr_detail = sr_summary +
  detail_answers :: "kvs option"
  detail_attachments :: "string list"

definition sr_detail_of :: "coercions \<Rightarrow> kvs \<Rightarrow> sr_detail option" where
  "sr_detail_of co ob = build3 (\<lambda>m a xs. sr_summary.extend m \<lparr>detail_answers = a, detail_attachments = xs\<rparr>) (sr_summary_of co ob)
     (field_or (nullable dict_of) ''answers'' None ob) (field_or (list_of str_of) ''attachments'' [] ob)"

section \<open>The draft repository\<close>

record sr_draft =
  d_id :: string
  d_user :: string
  d_type :: string
  d_json :: json
  d_updated :: datetime

text \<open>The table; whether the repository was given a session; which statements execute.\<close>

record 'i sr_state = "'i base" +
  drafts :: "sr_draft list"
  has_session :: bool
  db_up :: "nat \<Rightarrow> bool"
  db_ix :: nat

definition statement :: "(sr_draft list \<Rightarrow> 'a res \<times> sr_draft list) \<Rightarrow> (('i, 'z) sr_state_scheme, 'a) io" where
  "statement f s =
     (let s1 = s\<lparr>db_ix := Suc (db_ix s)\<rparr> in
      if db_up s (db_ix s) then (fst (f (drafts s)), s1\<lparr>drafts := snd (f (drafts s))\<rparr>) else (Inl SQLAlchemyExn, s1))"

text \<open>The columns: texts of at most 64, 36 and 50 characters, the first one the primary key.\<close>

definition insertable :: "sr_draft \<Rightarrow> sr_draft list \<Rightarrow> bool" where
  "insertable d ds \<longleftrightarrow>
     length (d_id d) \<le> 64 \<and> length (d_user d) \<le> 36 \<and> length (d_type d) \<le> 50 \<and> d_id d \<notin> set (map d_id ds)"

definition repo_create :: "json \<Rightarrow> string \<Rightarrow> string \<Rightarrow> (('i, 'z) sr_state_scheme, unit) io" where
  "repo_create sr_id user t s =
     (if \<not> has_session s then ret () s
      else
        bind now_utc (\<lambda>now.
        statement (\<lambda>ds.
          case sr_id of
            JStr i \<Rightarrow>
              let d = \<lparr>d_id = i, d_user = user, d_type = t, d_json = JNull, d_updated = Aware now\<rparr> in
              if insertable d ds then (Inr (), ds @ [d]) else (Inl SQLAlchemyExn, ds)
          | _ \<Rightarrow> (Inl SQLAlchemyExn, ds))) s)"

text \<open>\<open>WHERE sr_id = :id\<close>, and \<open>AND user_id = :user\<close> when a user is given.\<close>

definition scoped :: "string \<Rightarrow> string option \<Rightarrow> sr_draft \<Rightarrow> bool" where
  "scoped sr_id user d \<longleftrightarrow> d_id d = sr_id \<and> (case user of None \<Rightarrow> True | Some u \<Rightarrow> d_user d = u)"

definition one_or_none :: "'a list \<Rightarrow> 'a option res" where
  "one_or_none xs = (case xs of [] \<Rightarrow> Inr None | [x] \<Rightarrow> Inr (Some x) | _ \<Rightarrow> Inl SQLAlchemyExn)"

definition repo_get :: "string \<Rightarrow> string option \<Rightarrow> (('i, 'z) sr_state_scheme, sr_draft option) io" where
  "repo_get sr_id user s =
     (if \<not> has_session s then ret None s
      else statement (\<lambda>ds. (one_or_none (filter (scoped sr_id user) ds), ds)) s)"

definition repo_update_form ::
  "string \<Rightarrow> kvs \<Rightarrow> int \<Rightarrow> string option \<Rightarrow> (('i, 'z) sr_state_scheme, sr_draft option) io" where
  "repo_update_form sr_id answers page user s =
     (if \<not> has_session s then ret None s
      else
        bind now_utc (\<lambda>now.
        statement (\<lambda>ds.
          let upd = (\<lambda>d. d\<lparr>d_json := JObj [(''answers'', JObj answers), (''page_index'', JInt page)], d_updated := Aware now\<rparr>) in
          case one_or_none (map upd (filter (scoped sr_id user) ds)) of
            Inr (Some d) \<Rightarrow> (Inr (Some d), update_where (scoped sr_id user) upd ds)
          | r \<Rightarrow> (r, ds))) s)"

definition repo_delete :: "string \<Rightarrow> string option \<Rightarrow> (('i, 'z) sr_state_scheme, unit) io" where
  "repo_delete sr_id user s =
     (if \<not> has_session s then ret () s
      else statement (\<lambda>ds. (Inr (), filter (\<lambda>d. \<not> scoped sr_id user d) ds)) s)"

section \<open>The service\<close>

text \<open>Which of its optional collaborators the service was given.\<close>

record sr_service =
  has_repo :: bool
  has_pin :: bool

definition list_srs ::
  "'i icm_fun \<Rightarrow> coercions \<Rightarrow> string \<Rightarrow> int \<Rightarrow> int \<Rightarrow> (('i, 'z) base_scheme, sr_list) io" where
  "list_srs icm co profile pg psize =
     bind (icm_call icm (get_sr_list_req profile)) (\<lambda>raw.
     bind (lift_res (construct_all (sr_summary_of co) raw ''items'')) (\<lambda>xs.
     bind (lift_res (obj_get_default raw ''total'' (JInt (int (length xs))))) (\<lambda>n.
     lift_res (case int_of co n of None \<Rightarrow> Inl ValidationExn
       | Some k \<Rightarrow> Inr \<lparr>items = xs, list_total = k, list_page = pg, list_page_size = psize\<rparr>))))"

definition get_eligible_types ::
  "'i icm_fun \<Rightarrow> coercions \<Rightarrow> string \<Rightarrow> string \<Rightarrow> (('i, 'z) base_scheme, sr_type_metadata list) io" where
  "get_eligible_types icm co profile case_st =
     bind (icm_call icm (get_eligible_types_req profile case_st)) (\<lambda>raw.
     lift_res (construct_all (metadata_of co) raw ''types''))"

definition draft_answer :: "json \<Rightarrow> sr_type \<Rightarrow> kvs option \<Rightarrow> datetime \<Rightarrow> draft_response res" where
  "draft_answer i t j d =
     (case i of JStr x \<Rightarrow> Inr \<lparr>response_id = x, response_type = t, response_json = j, response_updated = d\<rparr>
      | _ \<Rightarrow> Inl ValidationExn)"

definition create_sr ::
  "'i icm_fun \<Rightarrow> sr_service \<Rightarrow> sr_type \<Rightarrow> string \<Rightarrow> string \<Rightarrow> (('i, 'z) sr_state_scheme, draft_response) io" where
  "create_sr icm svc t profile user =
     bind (icm_call icm (create_sr_req (sr_value t) profile)) (\<lambda>result.
     bind (lift_res (obj_get_default result ''sr_id'' (JStr []))) (\<lambda>sr_id.
     bind (if has_repo svc then repo_create sr_id user (sr_value t) else ret ()) (\<lambda>_.
     bind now_utc (\<lambda>now. lift_res (draft_answer sr_id t None (Aware now))))))"

definition get_form_schema :: "sr_type \<Rightarrow> form_schema option" where
  "get_form_schema t =
     (if \<not> is_dynamic t then None
      else Some \<lparr>form_type = SR, schema_type = Some t,
        pages = [\<lparr>page_index = 0, title = ''Application Details'',
          page_fields = [\<lparr>field_id = ''reason'', label = ''Reason for Request'', field_type = ''textarea'', required = True, options = None, validation = None\<rparr>]\<rparr>],
        total_pages = 1\<rparr>)"

text \<open>The response for a row: \<open>SRType(row.sr_type)\<close>, and the stored form when it is a dict.\<close>

definition row_response :: "sr_draft \<Rightarrow> draft_response res" where
  "row_response d =
     (case map_of sr_types (d_type d) of
        None \<Rightarrow> Inl (ValueExn ''not a valid SRType'')
      | Some t \<Rightarrow> Inr \<lparr>response_id = d_id d, response_type = t, response_json = dict_of (d_json d), response_updated = d_updated d\<rparr>)"

definition optional_row :: "(('s, sr_draft option) io) \<Rightarrow> ('s, draft_response option) io" where
  "optional_row m =
     bind m (\<lambda>row. case row of None \<Rightarrow> ret None | Some d \<Rightarrow> bind (lift_res (row_response d)) (\<lambda>r. ret (Some r)))"

definition save_form_draft ::
  "sr_service \<Rightarrow> string \<Rightarrow> kvs \<Rightarrow> int \<Rightarrow> string option \<Rightarrow> (('i, 'z) sr_state_scheme, draft_response option) io" where
  "save_form_draft svc sr_id answers page user =
     (if \<not> has_repo svc then ret None else optional_row (repo_update_form sr_id answers page user))"

definition get_draft ::
  "sr_service \<Rightarrow> string \<Rightarrow> string option \<Rightarrow> (('i, 'z) sr_state_scheme, draft_response option) io" where
  "get_draft svc sr_id user =
     (if \<not> has_repo svc then ret None else optional_row (repo_get sr_id user))"

text \<open>\<open>PDFGenerationService.generate\<close>.\<close>

definition generate_pdf :: "string \<Rightarrow> json \<Rightarrow> string res" where
  "generate_pdf t answers = Inl (NotImplementedExn ''PDF generation planned for Phase 2'')"

definition draft_answers :: "draft_response option \<Rightarrow> json" where
  "draft_answers d =
     (case d of
        None \<Rightarrow> JObj []
      | Some r \<Rightarrow>
          (case response_json r of
             None \<Rightarrow> JObj []
           | Some ob \<Rightarrow> (case map_of ob ''answers'' of None \<Rightarrow> JObj [] | Some a \<Rightarrow> a)))"

text \<open>\<open>submit_sr\<close> after the PIN checks, and the whole of it.\<close>

definition submit_draft ::
  "'i icm_fun \<Rightarrow> sr_service \<Rightarrow> string \<Rightarrow> string option \<Rightarrow> (('i, 'z) sr_state_scheme, submit_response) io" where
  "submit_draft icm svc sr_id user =
     bind (get_draft svc sr_id user) (\<lambda>draft.
     let answers = draft_answers draft; t = map_option response_type draft in
     bind (case t of
         Some x \<Rightarrow> if requires_pdf x then bind (lift_res (generate_pdf (sr_value x) answers)) (\<lambda>_. ret ()) else ret ()
       | None \<Rightarrow> ret ()) (\<lambda>_.
     bind (icm_call icm (finalize_sr_form_req sr_id answers)) (\<lambda>result.
     bind (lift_res (obj_get_default result ''sr_number'' (JStr []))) (\<lambda>number.
     bind (if has_repo svc then repo_delete sr_id user else ret ()) (\<lambda>_.
     bind now_utc (\<lambda>now.
     lift_res (case number of
         JStr n \<Rightarrow> Inr \<lparr>submitted_id = sr_id, submitted_number = n, submitted_at = now\<rparr>
       | _ \<Rightarrow> Inl ValidationExn)))))))"

definition submit_sr ::
  "'i icm_fun \<Rightarrow> sr_service \<Rightarrow> string \<Rightarrow> string \<Rightarrow> string option \<Rightarrow> string \<Rightarrow> string option \<Rightarrow>
   (('i, 'z) sr_state_scheme, submit_response) io" where
  "submit_sr icm svc sr_id pin sp guid user =
     (if \<not> has_pin svc then raise (RuntimeExn ''PINService not configured'')
      else
        bind (validate_or_raise icm guid pin) (\<lambda>_.
        bind (check_spouse icm guid sp) (\<lambda>_.
        submit_draft icm svc sr_id user)))"

definition get_sr_detail :: "'i icm_fun \<Rightarrow> coercions \<Rightarrow> string \<Rightarrow> (('i, 'z) base_scheme, sr_detail option) io" where
  "get_sr_detail icm co sr_id =
     bind (icm_call icm (get_sr_detail_req sr_id)) (\<lambda>raw.
     if \<not> truthy raw then ret None else bind (lift_res (construct (sr_detail_of co) raw)) (\<lambda>d. ret (Some d)))"

definition withdraw_sr :: "'i icm_fun \<Rightarrow> string \<Rightarrow> string option \<Rightarrow> (('i, 'z) base_scheme, unit) io" where
  "withdraw_sr icm sr_id reason =
     bind (icm_call icm (cancel_sr_req sr_id (case reason of None \<Rightarrow> [] | Some r \<Rightarrow> r))) (\<lambda>_. ret ())"

section \<open>Routes\<close>

text \<open>\<open>_get_sr_service\<close> gives the service both collaborators, and the repository a session.\<close>

definition full_service :: sr_service where
  "full_service = \<lparr>has_repo = True, has_pin = True\<rparr>"

definition list_service_requests ::
  "'i icm_fun \<Rightarrow> coercions \<Rightarrow> user_context res \<Rightarrow> int \<Rightarrow> int \<Rightarrow> (('i, 'z) base_scheme, sr_list) io" where
  "list_service_requests icm co auth pg psize =
     as_user auth (\<lambda>u.
     if pg < 1 \<or> psize < 1 \<or> 100 < psize then raise unprocessable else list_srs icm co (user_id u) pg psize)"

text \<open>The query pattern \<open>^[A-Za-z_]{1,32}$\<close>.\<close>

definition case_status_ok :: "string \<Rightarrow> bool" where
  "case_status_ok t \<longleftrightarrow> 1 \<le> length t \<and> length t \<le> 32 \<and>
     list_all (\<lambda>c. let n = (of_char c :: nat) in (65 \<le> n \<and> n \<le> 90) \<or> (97 \<le> n \<and> n \<le> 122) \<or> c = CHR ''_'') t"

definition get_eligible_types_route ::
  "'i icm_fun \<Rightarrow> coercions \<Rightarrow> user_context res \<Rightarrow> string \<Rightarrow> (('i, 'z) base_scheme, sr_type_metadata list) io" where
  "get_eligible_types_route icm co auth case_st =
     as_user auth (\<lambda>u.
     if \<not> case_status_ok case_st then raise unprocessable else get_eligible_types icm co (user_id u) case_st)"

definition is_conflict :: "exn \<Rightarrow> bool" where
  "is_conflict e \<longleftrightarrow> (\<exists>m c. e = ICMExn ICMActiveSRConflictError m c)"

definition is_withdrawn :: "exn \<Rightarrow> bool" where
  "is_withdrawn e \<longleftrightarrow> (\<exists>m c. e = ICMExn ICMSRAlreadyWithdrawnError m c)"

definition create_service_request ::
  "'i icm_fun \<Rightarrow> user_context res \<Rightarrow> sr_type \<Rightarrow> (('i, 'z) sr_state_scheme, draft_response) io" where
  "create_service_request icm auth t =
     as_user auth (\<lambda>u.
     catch (create_sr icm full_service t (user_id u) (user_id u)) is_conflict
       (\<lambda>_. raise (HTTPExn 409 ''An active service request of this type already exists'')))"

definition or_404 :: "string \<Rightarrow> ('s, 'a option) io \<Rightarrow> ('s, 'a) io" where
  "or_404 msg m = bind m (\<lambda>x. case x of None \<Rightarrow> raise (HTTPExn 404 msg) | Some y \<Rightarrow> ret y)"

definition get_draft_route ::
  "user_context res \<Rightarrow> string \<Rightarrow> (('i, 'z) sr_state_scheme, draft_response) io" where
  "get_draft_route auth sr_id =
     as_user auth (\<lambda>u. or_404 ''SR draft not found'' (get_draft full_service sr_id (Some (user_id u))))"

definition get_form_schema_route :: "user_context res \<Rightarrow> string \<Rightarrow> sr_type \<Rightarrow> form_schema res" where
  "get_form_schema_route auth sr_id t =
     bind_res auth (\<lambda>u. case get_form_schema t of
       None \<Rightarrow> Inl (HTTPExn 404 ''No form schema for this SR type'') | Some x \<Rightarrow> Inr x)"

definition update_form_draft ::
  "user_context res \<Rightarrow> string \<Rightarrow> kvs \<Rightarrow> int \<Rightarrow> (('i, 'z) sr_state_scheme, draft_response) io" where
  "update_form_draft auth sr_id answers page =
     as_user auth (\<lambda>u. or_404 ''SR draft not found'' (save_form_draft full_service sr_id answers page (Some (user_id u))))"

definition submit_service_request ::
  "'i icm_fun \<Rightarrow> user_context res \<Rightarrow> string \<Rightarrow> submit_request \<Rightarrow> (('i, 'z) sr_state_scheme, submit_response) io" where
  "submit_service_request icm auth sr_id r =
     as_user auth (\<lambda>u.
     bind (lift_res (case must_be_true r of Inr x \<Rightarrow> Inr x | Inl _ \<Rightarrow> Inl unprocessable)) (\<lambda>r.
     submit_sr icm full_service sr_id (submit_pin r) (spouse_pin r) (pin_owner u) (Some (user_id u))))"

definition get_service_request_detail ::
  "'i icm_fun \<Rightarrow> coercions \<Rightarrow> user_context res \<Rightarrow> string \<Rightarrow> (('i, 'z) base_scheme, sr_detail) io" where
  "get_service_request_detail icm co auth sr_id =
     as_user auth (\<lambda>u. or_404 ''Service request not found'' (get_sr_detail icm co sr_id))"

definition withdraw_service_request ::
  "'i icm_fun \<Rightarrow> user_context res \<Rightarrow> string \<Rightarrow> string option \<Rightarrow> (('i, 'z) base_scheme, unit) io" where
  "withdraw_service_request icm auth sr_id reason =
     as_user auth (\<lambda>u.
     catch (withdraw_sr icm sr_id reason) is_icm_error
       (\<lambda>e. if is_withdrawn e then raise (HTTPExn 409 ''Service request already withdrawn'')
            else raise (HTTPExn 400 (exn_str e))))"

section \<open>The draft table under any sequence of requests\<close>

datatype sr_op =
    Create sr_type
  | ReadDraft string
  | SaveForm string kvs int
  | Submit string submit_request
  | Detail string
  | Withdraw string "string option"
  | ListSrs int int

definition discard :: "('s, 'a) io \<Rightarrow> ('s, unit) io" where
  "discard m = bind m (\<lambda>_. ret ())"

fun sr_handle ::
  "'i icm_fun \<Rightarrow> coercions \<Rightarrow> user_context \<Rightarrow> sr_op \<Rightarrow> (('i, 'z) sr_state_scheme, unit) io" where
  "sr_handle icm co u (Create t) = discard (create_service_request icm (Inr u) t)"
| "sr_handle icm co u (ReadDraft i) = discard (get_draft_route (Inr u) i)"
| "sr_handle icm co u (SaveForm i a p) = discard (update_form_draft (Inr u) i a p)"
| "sr_handle icm co u (Submit i r) = discard (submit_service_request icm (Inr u) i r)"
| "sr_handle icm co u (Detail i) = discard (get_service_request_detail icm co (Inr u) i)"
| "sr_handle icm co u (Withdraw i r) = discard (withdraw_service_request icm (Inr u) i r)"
| "sr_handle icm co u (ListSrs p n) = discard (list_service_requests icm co (Inr u) p n)"

text \<open>A request of a user; between requests the database session may come and go.\<close>

inductive sr_step ::
  "'i icm_fun \<Rightarrow> coercions \<Rightarrow> ('i, 'z) sr_state_scheme \<Rightarrow> user_context \<times> sr_op \<Rightarrow> ('i, 'z) sr_state_scheme \<Rightarrow> bool"
  for icm :: "'i icm_fun" and co :: coercions where
  sr_step: "t = snd (sr_handle icm co u e s) \<Longrightarrow> sr_step icm co s (u, e) t"

inductive_simps sr_step_iff: "sr_step icm co s (u, e) t"

text \<open>Frame rules: only statements touch the table.\<close>

named_theorems draft_frame \<open>which operations keep a fact about the draft table\<close>

lemma preserves_statement:
  assumes "\<And>ds. Q ds \<Longrightarrow> Q (snd (f ds))"
  shows "preserves (statement f) (\<lambda>s. Q (drafts s))"
  using assms by (auto simp: preserves_def statement_def Let_def)

lemma preserves_icm [draft_frame]: "preserves (icm_call icm q) (\<lambda>s. Q (drafts s))"
  by (simp add: preserves_def icm_call_def)

lemma preserves_now [draft_frame]: "preserves now_utc (\<lambda>s. Q (drafts s))"
  by (simp add: preserves_def now_utc_def)

lemma preserves_if [draft_frame]: "preserves a I \<Longrightarrow> preserves b I \<Longrightarrow> preserves (if c then a else b) I"
  by simp

lemma preserves_case_option [draft_frame]:
  "preserves a I \<Longrightarrow> (\<And>x. preserves (f x) I) \<Longrightarrow> preserves (case z of None \<Rightarrow> a | Some x \<Rightarrow> f x) I"
  by (cases z) auto

lemma preserves_session_if:
  "preserves a I \<Longrightarrow> preserves b I \<Longrightarrow> preserves (\<lambda>s. if c s then a s else b s) I"
  by (simp add: preserves_def)

lemmas frame_intros = preserves_bind preserves_catch preserves_ret preserves_raise preserves_lift

lemma preserves_discard [draft_frame]: "preserves m I \<Longrightarrow> preserves (discard m) I"
  unfolding discard_def by (intro frame_intros draft_frame)

lemma preserves_pin [draft_frame]:
  "preserves (pin_validate icm guid p) (\<lambda>s. Q (drafts s))"
  "preserves (validate_or_raise icm guid p) (\<lambda>s. Q (drafts s))"
  "preserves (check_spouse icm guid sp) (\<lambda>s. Q (drafts s))"
proof -
  show 1: "preserves (pin_validate icm guid p) (\<lambda>s. Q (drafts s))" for p
    unfolding pin_validate_def by (intro frame_intros draft_frame)
  show "preserves (validate_or_raise icm guid p) (\<lambda>s. Q (drafts s))"
    unfolding validate_or_raise_def by (intro frame_intros draft_frame 1)
  show "preserves (check_spouse icm guid sp) (\<lambda>s. Q (drafts s))"
    unfolding check_spouse_def by (intro frame_intros draft_frame 1)
qed

lemma preserves_repo_get [draft_frame]: "preserves (repo_get i u) (\<lambda>s. Q (drafts s))"
  unfolding repo_get_def[abs_def] by (intro preserves_session_if frame_intros draft_frame preserves_statement) simp

lemma preserves_optional_row [draft_frame]: "preserves m I \<Longrightarrow> preserves (optional_row m) I"
  unfolding optional_row_def by (intro frame_intros draft_frame)

lemma preserves_or_404 [draft_frame]: "preserves m I \<Longrightarrow> preserves (or_404 msg m) I"
  unfolding or_404_def by (intro frame_intros draft_frame)

text \<open>
  A fact \<open>Q\<close> about the table is kept by the requests of a user when the three statements that
  write to it keep it: inserting an empty draft of that user, storing a form in a draft of that
  user, and deleting drafts of that user.
\<close>

definition filled :: "kvs \<Rightarrow> int \<Rightarrow> instant \<Rightarrow> sr_draft \<Rightarrow> sr_draft" where
  "filled a p now d = d\<lparr>d_json := JObj [(''answers'', JObj a), (''page_index'', JInt p)], d_updated := Aware now\<rparr>"

definition new_draft :: "string \<Rightarrow> string \<Rightarrow> sr_type \<Rightarrow> instant \<Rightarrow> sr_draft" where
  "new_draft i user t now = \<lparr>d_id = i, d_user = user, d_type = sr_value t, d_json = JNull, d_updated = Aware now\<rparr>"

definition kept_by_writing :: "(sr_draft list \<Rightarrow> bool) \<Rightarrow> string \<Rightarrow> bool" where
  "kept_by_writing Q user \<longleftrightarrow>
     (\<forall>ds. Q ds \<longrightarrow>
        (\<forall>i t now. insertable (new_draft i user t now) ds \<longrightarrow> Q (ds @ [new_draft i user t now])) \<and>
        (\<forall>i a p now. Q (update_where (scoped i (Some user)) (filled a p now) ds)))"

definition kept_by :: "(sr_draft list \<Rightarrow> bool) \<Rightarrow> string \<Rightarrow> bool" where
  "kept_by Q user \<longleftrightarrow>
     kept_by_writing Q user \<and> (\<forall>ds i. Q ds \<longrightarrow> Q (filter (\<lambda>d. \<not> scoped i (Some user) d) ds))"

lemma kept_byD [dest]: "kept_by Q user \<Longrightarrow> kept_by_writing Q user"
  by (simp add: kept_by_def)

lemma preserves_repo_create:
  assumes "kept_by_writing Q user"
  shows "preserves (repo_create i user (sr_value t)) (\<lambda>s. Q (drafts s))"
  unfolding repo_create_def[abs_def]
proof (intro preserves_session_if frame_intros draft_frame preserves_statement)
  fix now ds
  assume "Q ds"
  then show "Q (snd (case i of JStr i \<Rightarrow>
        let d = \<lparr>d_id = i, d_user = user, d_type = sr_value t, d_json = JNull, d_updated = Aware now\<rparr>
        in if insertable d ds then (Inr (), ds @ [d]) else (Inl SQLAlchemyExn, ds)
      | _ \<Rightarrow> (Inl SQLAlchemyExn, ds)))"
    using assms by (auto simp: kept_by_writing_def new_draft_def Let_def split: json.split)
qed

lemma preserves_repo_update:
  assumes "kept_by_writing Q user"
  shows "preserves (repo_update_form i a p (Some user)) (\<lambda>s. Q (drafts s))"
  unfolding repo_update_form_def[abs_def] Let_def
proof (intro preserves_session_if frame_intros draft_frame preserves_statement)
  fix now ds
  assume "Q ds"
  then have "Q (update_where (scoped i (Some user)) (filled a p now) ds)" using assms by (simp add: kept_by_writing_def)
  then show "Q (snd (case one_or_none (map (\<lambda>d. d\<lparr>d_json := JObj [(''answers'', JObj a), (''page_index'', JInt p)],
        d_updated := Aware now\<rparr>) (filter (scoped i (Some user)) ds)) of
      Inr (Some d) \<Rightarrow> (Inr (Some d), update_where (scoped i (Some user))
        (\<lambda>d. d\<lparr>d_json := JObj [(''answers'', JObj a), (''page_index'', JInt p)], d_updated := Aware now\<rparr>) ds)
    | r \<Rightarrow> (r, ds)))"
    using \<open>Q ds\<close> by (auto simp: filled_def[abs_def] split: sum.split option.split)
qed

lemma preserves_repo_delete:
  assumes "kept_by Q user"
  shows "preserves (repo_delete i (Some user)) (\<lambda>s. Q (drafts s))"
  unfolding repo_delete_def[abs_def]
  by (intro preserves_session_if frame_intros draft_frame preserves_statement) (use assms in \<open>simp add: kept_by_def\<close>)

lemma sr_handle_writes:
  assumes "kept_by_writing Q (user_id u)" and "\<forall>i r. e \<noteq> Submit i r"
  shows "preserves (sr_handle icm co u e) (\<lambda>s. Q (drafts s))"
proof (cases e)
  case (Submit i r)
  with assms(2) show ?thesis by simp
qed (simp only: sr_handle.simps create_service_request_def create_sr_def get_draft_route_def get_draft_def
      update_form_draft_def save_form_draft_def get_service_request_detail_def get_sr_detail_def
      withdraw_service_request_def withdraw_sr_def list_service_requests_def list_srs_def as_user_def bind_lift_Inr,
    intro frame_intros draft_frame preserves_repo_create[OF assms(1)] preserves_repo_update[OF assms(1)])+

lemma sr_handle_keeps:
  assumes "kept_by Q (user_id u)"
  shows "preserves (sr_handle icm co u e) (\<lambda>s. Q (drafts s))"
proof (cases e)
  case (Submit i r)
  show ?thesis
    unfolding Submit sr_handle.simps submit_service_request_def as_user_def submit_sr_def submit_draft_def get_draft_def Let_def bind_lift_Inr
    by (intro frame_intros draft_frame preserves_repo_delete[OF assms])
qed (intro sr_handle_writes kept_byD assms; simp)+

text \<open>A run of requests of users other than \<open>a\<close> keeps the drafts of \<open>a\<close>.\<close>

definition drafts_of :: "string \<Rightarrow> sr_draft list \<Rightarrow> sr_draft list" where
  "drafts_of a ds = filter (\<lambda>d. d_user d = a) ds"

lemma kept_by_other: "user \<noteq> a \<Longrightarrow> kept_by (\<lambda>ds. drafts_of a ds = K) user"
proof -
  assume "user \<noteq> a"
  have "filter (\<lambda>d. d_user d = a) (update_where (scoped i (Some user)) (filled f p now) ds) = filter (\<lambda>d. d_user d = a) ds"
    for i f p now ds
    by (rule filter_update_where) (use \<open>user \<noteq> a\<close> in \<open>auto simp: scoped_def filled_def\<close>)
  moreover have "filter (\<lambda>d. d_user d = a \<and> \<not> scoped i (Some user) d) ds = filter (\<lambda>d. d_user d = a) ds" for i ds
    by (rule filter_cong) (use \<open>user \<noteq> a\<close> in \<open>auto simp: scoped_def\<close>)
  ultimately show ?thesis using \<open>user \<noteq> a\<close> by (simp add: kept_by_def kept_by_writing_def drafts_of_def new_draft_def conj_commute)
qed

lemma drafts_of_step:
  assumes "sr_step icm co s e t" and "user_id (fst e) \<noteq> a"
  shows "drafts_of a (drafts t) = drafts_of a (drafts s)"
proof -
  obtain u op where e: "e = (u, op)" and t: "t = snd (sr_handle icm co u op s)"
    using assms(1) by (cases rule: sr_step.cases)
  have "kept_by (\<lambda>ds. drafts_of a ds = drafts_of a (drafts s)) (user_id u)"
    using assms(2) e by (intro kept_by_other) simp
  from preservesD[OF sr_handle_keeps[OF this] refl] show ?thesis unfolding t .
qed

interpretation others: invariant_machine
  "\<lambda>s e t. sr_step icm co s e t \<and> user_id (fst e) \<noteq> a" "\<lambda>s. drafts_of a (drafts s) = K"
  for icm :: "'i icm_fun" and co and a and K
  by unfold_locales (metis drafts_of_step)

text \<open>
  The rows of the table: distinct ids, as the primary key demands, a known type, and as the form null or a dict. What the routes
  store as a form has answers and a page index; other forms are those the table \<open>ds0\<close> had at the start.
\<close>

definition row_ok :: "sr_draft \<Rightarrow> bool" where
  "row_ok d \<longleftrightarrow> length (d_id d) \<le> 64 \<and> length (d_user d) \<le> 36 \<and> (\<exists>t. d_type d = sr_value t) \<and>
     (d_json d = JNull \<or> (\<exists>ob. d_json d = JObj ob))"

definition route_form :: "json \<Rightarrow> bool" where
  "route_form j \<longleftrightarrow> j = JNull \<or> (\<exists>a p. j = JObj [(''answers'', JObj a), (''page_index'', JInt p)])"

definition table_ok :: "sr_draft list \<Rightarrow> bool" where
  "table_ok ds \<longleftrightarrow> distinct (map d_id ds) \<and> list_all row_ok ds"

definition table_from :: "sr_draft list \<Rightarrow> sr_draft list \<Rightarrow> bool" where
  "table_from ds0 ds \<longleftrightarrow> table_ok ds \<and>
     (\<forall>d \<in> set ds. route_form (d_json d) \<or> (\<exists>d0 \<in> set ds0. d_id d0 = d_id d \<and> d_json d0 = d_json d))"

lemma filled_fields: "d_id (filled a p now d) = d_id d" "route_form (d_json (filled a p now d))"
  by (simp_all add: filled_def route_form_def)

lemma new_draft_fields: "d_id (new_draft i user t now) = i" "route_form (d_json (new_draft i user t now))"
  by (simp_all add: new_draft_def route_form_def)

lemma kept_distinct: "kept_by (\<lambda>ds. distinct (map d_id ds)) user"
  by (auto simp: kept_by_def kept_by_writing_def map_update_where filled_fields insertable_def new_draft_fields distinct_map_filter)

lemma kept_table_from: "kept_by (table_from ds0) user"
proof -
  have row: "row_ok (filled a p now d)" if "row_ok d" for a p now d
    using that by (simp add: row_ok_def filled_def)
  have new: "row_ok (new_draft i user t now)" if "insertable (new_draft i user t now) ds" for i t now ds
    using that by (auto simp: row_ok_def insertable_def new_draft_def)
  show ?thesis
    using kept_distinct[of user]
    unfolding kept_by_def kept_by_writing_def table_from_def table_ok_def list_all_iff set_update_where
    by (auto simp: row new filled_fields new_draft_fields)
qed

interpretation table: invariant_machine "sr_step icm co" "\<lambda>s. table_from ds0 (drafts s)"
  for icm :: "'i icm_fun" and co and ds0
  by unfold_locales (auto elim!: sr_step.cases intro: preservesD[OF sr_handle_keeps[OF kept_table_from]])

lemma sr_type_roundtrip [simp]: "map_of sr_types (sr_value t) = Some t"
  by (cases t) (simp_all add: sr_value_def sr_types_def)

lemma scoped_unique:
  "distinct (map d_id ds) \<Longrightarrow>
   filter (scoped i u) ds = (case find (scoped i u) ds of None \<Rightarrow> [] | Some d \<Rightarrow> [d])"
proof (induction ds)
  case (Cons d ds)
  have "filter (scoped i u) ds = []" if "scoped i u d"
    using that Cons.prems by (auto simp: filter_empty_conv scoped_def) (metis imageI)+
  then show ?case using Cons by auto
qed simp

lemma get_draft_found:
  assumes "distinct (map d_id (drafts s))" and "has_session s" and "db_up s (db_ix s)"
  shows "get_draft full_service i u s =
     ((case find (scoped i u) (drafts s) of None \<Rightarrow> Inr None | Some d \<Rightarrow> bind_res (row_response d) (\<lambda>r. Inr (Some r))),
      s\<lparr>db_ix := Suc (db_ix s)\<rparr>)"
proof -
  have same: "s\<lparr>db_ix := n, drafts := drafts s\<rparr> = s\<lparr>db_ix := n\<rparr>" for n by simp
  have "one_or_none (filter (scoped i u) (drafts s)) = Inr (find (scoped i u) (drafts s))"
    using assms(1) by (cases "find (scoped i u) (drafts s)") (simp_all add: scoped_unique one_or_none_def)
  then have "statement (\<lambda>ds. (one_or_none (filter (scoped i u) ds), ds)) s =
      (Inr (find (scoped i u) (drafts s)), s\<lparr>db_ix := Suc (db_ix s)\<rparr>)"
    using assms(3) by (simp add: statement_def Let_def same)
  then have "repo_get i u s = (Inr (find (scoped i u) (drafts s)), s\<lparr>db_ix := Suc (db_ix s)\<rparr>)"
    using assms(2) by (simp add: repo_get_def)
  then have *: "get_draft full_service i u s =
      (case find (scoped i u) (drafts s) of None \<Rightarrow> ret None
       | Some d \<Rightarrow> bind (lift_res (row_response d)) (\<lambda>r. ret (Some r))) (s\<lparr>db_ix := Suc (db_ix s)\<rparr>)"
    by (simp add: get_draft_def full_service_def optional_row_def bind_Inr)
  show ?thesis
  proof (cases "find (scoped i u) (drafts s)")
    case None
    then show ?thesis using * by simp
  next
    case (Some d)
    then show ?thesis using * by (cases "row_response d") simp_all
  qed
qed

section \<open>Concrete runs\<close>

definition demo_draft :: sr_draft where
  "demo_draft = \<lparr>d_id = ''1'', d_user = ''a'', d_type = ''DIET'', d_json = JNull, d_updated = Aware 0\<rparr>"

definition demo_table :: "nat sr_state" where
  "demo_table = \<lparr>icm_st = 0, icm_log = [], clock = (\<lambda>n. 0), ticks = 0, uuids = (\<lambda>n. []), uuid_ix = 0,
     drafts = [demo_draft], has_session = True, db_up = (\<lambda>n. True), db_ix = 0\<rparr>"

text \<open>An ICM that accepts every PIN and every submission.\<close>

definition demo_accepts :: "nat icm_fun" where
  "demo_accepts rq n = (Inr (JObj [(''valid'', JBool True), (''sr_number'', JStr ''N1'')]), n)"

definition demo_form :: submit_request where
  "demo_form = \<lparr>submit_pin = ''1234'', spouse_pin = None, declaration_accepted = True\<rparr>"

definition demo_user :: "string \<Rightarrow> user_context" where
  "demo_user i = make_user i CLIENT None None"

lemma demo_user_simps [simp]: "user_id (demo_user i) = i" "pin_owner (demo_user i) = i"
  by (simp_all add: demo_user_def make_user_def pin_owner_def)

lemma demo_form_simps [simp]: "submit_pin demo_form = ''1234''" "spouse_pin demo_form = None" "declaration_accepted demo_form"
  by (simp_all add: demo_form_def)

lemma demo_table_simps [simp]: "drafts demo_table = [demo_draft]" "has_session demo_table" "db_up demo_table n"
  by (simp_all add: demo_table_def)

lemma demo_accepts_pin [simp]: "pin_ok demo_accepts g p s"
  by (simp add: pin_ok_def says_valid_def demo_accepts_def)

section \<open>Properties of the table\<close>

text \<open>C28.
  No sequence of requests of other users, whatever ICM and the database do, touches the drafts of a
  user: none is added, changed, deleted or reordered.
\<close>

theorem drafts_isolated:
  assumes "steps (sr_step icm co) s es t" and "\<forall>e \<in> set es. user_id (fst e) \<noteq> a"
  shows "drafts_of a (drafts t) = drafts_of a (drafts s)"
  by (rule others.inv_steps[OF steps_restrict[OF assms] refl])

theorem drafts_isolated_witness:
  "\<exists>t. steps (sr_step demo_accepts plain) demo_table
      [(demo_user ''b'', SaveForm ''1'' [] 0), (demo_user ''b'', Submit ''1'' demo_form)] t \<and>
    drafts_of ''a'' (drafts t) = drafts_of ''a'' [demo_draft]"
proof -
  obtain t where "steps (sr_step demo_accepts plain) demo_table
      [(demo_user ''b'', SaveForm ''1'' [] 0), (demo_user ''b'', Submit ''1'' demo_form)] t"
    by (auto simp: steps_Cons sr_step_iff)
  from this drafts_isolated[OF this, of "''a''"] show ?thesis by auto
qed

text \<open>C29.
  Reading a draft never fails on what is stored. Let the rows at the start have distinct ids, a known type, texts that fit
  their columns and as the form null or a dict, as those of the empty table and of the seed script have. Then after any requests
  a user who reads a draft gets the type and the form of the row with that id and that user, or 404 when there is none:
  never a ValueError for the type, never a row of someone else. A form there is null or has exactly answers and page index,
  unless it is still the one that the row of this id had at the start.
\<close>

theorem drafts_well_typed:
  assumes "steps (sr_step icm co) s es t" and "table_ok (drafts s)"
    and "has_session t" and "db_up t (db_ix t)"
  shows "(case find (scoped i (Some (user_id u))) (drafts t) of
      None \<Rightarrow> fst (get_draft_route (Inr u) i t) = Inl (HTTPExn 404 ''SR draft not found'')
    | Some d \<Rightarrow> d \<in> set (drafts t) \<and> d_id d = i \<and> d_user d = user_id u \<and>
        (route_form (d_json d) \<or> (\<exists>d0 \<in> set (drafts s). d_id d0 = i \<and> d_json d0 = d_json d)) \<and>
        (\<exists>ty form. d_type d = sr_value ty \<and> (form = None \<and> d_json d = JNull \<or> (\<exists>ob. form = Some ob \<and> d_json d = JObj ob)) \<and>
           fst (get_draft_route (Inr u) i t) =
             Inr \<lparr>response_id = i, response_type = ty, response_json = form, response_updated = d_updated d\<rparr>))"
proof -
  have "table_from (drafts s) (drafts s)" using assms(2) by (auto simp: table_from_def)
  then have ok: "table_from (drafts s) (drafts t)" by (rule table.inv_steps[OF assms(1)])
  then have "distinct (map d_id (drafts t))" by (simp add: table_from_def table_ok_def)
  note eq = get_draft_found[OF this assms(3,4), of i "Some (user_id u)"]
  show ?thesis
  proof (cases "find (scoped i (Some (user_id u))) (drafts t)")
    case None
    then show ?thesis using eq by (simp add: get_draft_route_def as_user_def or_404_def bind_def)
  next
    case (Some d)
    then have d: "d \<in> set (drafts t)" "d_id d = i" "d_user d = user_id u"
      by (auto simp: find_Some_iff scoped_def)
    then have row: "row_ok d" and form: "route_form (d_json d) \<or> (\<exists>d0 \<in> set (drafts s). d_id d0 = i \<and> d_json d0 = d_json d)"
      using ok by (auto simp: table_from_def table_ok_def list_all_iff)
    from row obtain ty where ty: "d_type d = sr_value ty" by (auto simp: row_ok_def)
    then have "row_response d = Inr \<lparr>response_id = i, response_type = ty, response_json = dict_of (d_json d),
        response_updated = d_updated d\<rparr>" using d by (simp add: row_response_def)
    then have "fst (get_draft_route (Inr u) i t) =
        Inr \<lparr>response_id = i, response_type = ty, response_json = dict_of (d_json d), response_updated = d_updated d\<rparr>"
      using eq Some by (simp add: get_draft_route_def as_user_def or_404_def bind_def)
    moreover have "dict_of (d_json d) = None \<and> d_json d = JNull \<or> (\<exists>ob. dict_of (d_json d) = Some ob \<and> d_json d = JObj ob)"
      using row by (auto simp: row_ok_def)
    ultimately show ?thesis using Some d form ty by simp
  qed
qed

text \<open>A row as the seed script writes it, read after another user's requests, and read after its user's form.\<close>

definition demo_seeded :: "nat sr_state" where
  "demo_seeded = demo_table\<lparr>drafts := [demo_draft\<lparr>d_json := JObj [(''crisis_type'', JStr ''food'')]\<rparr>]\<rparr>"

lemma demo_seeded_steps:
  "snd (sr_handle demo_accepts plain (demo_user ''b'') (ReadDraft ''1'') demo_seeded) = demo_seeded\<lparr>db_ix := 1\<rparr>"
  "snd (sr_handle demo_accepts plain (demo_user ''a'') (SaveForm ''1'' [] 2) (demo_seeded\<lparr>db_ix := 1\<rparr>)) =
     demo_seeded\<lparr>db_ix := 2, ticks := 1, drafts := [filled [] 2 0 demo_draft]\<rparr>"
  "snd (sr_handle demo_accepts plain (demo_user ''b'') (SaveForm ''1'' [] 5)
       (demo_seeded\<lparr>db_ix := 2, ticks := 1, drafts := [filled [] 2 0 demo_draft]\<rparr>)) =
     demo_seeded\<lparr>db_ix := 3, ticks := 2, drafts := [filled [] 2 0 demo_draft]\<rparr>"
proof -
  have no: "\<not> scoped ''1'' (Some ''b'') demo_draft" "\<not> scoped ''1'' (Some ''b'') (filled [] 2 0 demo_draft)"
    "\<not> scoped ''1'' (Some ''b'') (demo_draft\<lparr>d_json := j\<rparr>)" "scoped ''1'' (Some ''a'') (demo_draft\<lparr>d_json := j\<rparr>)" for j
    by (simp_all add: scoped_def demo_draft_def filled_def)
  have s: "drafts demo_seeded = [demo_draft\<lparr>d_json := JObj [(''crisis_type'', JStr ''food'')]\<rparr>]" "has_session demo_seeded"
    "db_up demo_seeded = (\<lambda>n. True)" "db_ix demo_seeded = 0" "ticks demo_seeded = 0" "clock demo_seeded = (\<lambda>n. 0)"
    by (simp_all add: demo_seeded_def demo_table_def)
  show "snd (sr_handle demo_accepts plain (demo_user ''b'') (ReadDraft ''1'') demo_seeded) = demo_seeded\<lparr>db_ix := 1\<rparr>"
    using no s by (simp add: discard_def get_draft_route_def get_draft_def repo_get_def as_user_def or_404_def full_service_def
        optional_row_def bind_def statement_def Let_def one_or_none_def)
  show "snd (sr_handle demo_accepts plain (demo_user ''a'') (SaveForm ''1'' [] 2) (demo_seeded\<lparr>db_ix := 1\<rparr>)) =
     demo_seeded\<lparr>db_ix := 2, ticks := 1, drafts := [filled [] 2 0 demo_draft]\<rparr>"
    using no s by (simp add: discard_def update_form_draft_def save_form_draft_def repo_update_form_def as_user_def or_404_def
        full_service_def optional_row_def bind_def now_utc_def statement_def Let_def one_or_none_def row_response_def update_where_def
        filled_def) (simp add: demo_draft_def sr_types_def)
  show "snd (sr_handle demo_accepts plain (demo_user ''b'') (SaveForm ''1'' [] 5)
       (demo_seeded\<lparr>db_ix := 2, ticks := 1, drafts := [filled [] 2 0 demo_draft]\<rparr>)) =
     demo_seeded\<lparr>db_ix := 3, ticks := 2, drafts := [filled [] 2 0 demo_draft]\<rparr>"
    using no s by (simp add: discard_def update_form_draft_def save_form_draft_def repo_update_form_def as_user_def or_404_def
        full_service_def optional_row_def bind_def now_utc_def statement_def Let_def one_or_none_def)
qed

theorem drafts_well_typed_witness:
  "\<exists>t. steps (sr_step demo_accepts plain) demo_seeded
       [(demo_user ''b'', ReadDraft ''1''), (demo_user ''a'', SaveForm ''1'' [] 2), (demo_user ''b'', SaveForm ''1'' [] 5)] t \<and>
     (\<exists>ty. fst (get_draft_route (Inr (demo_user ''a'')) ''1'' t) =
        Inr \<lparr>response_id = ''1'', response_type = ty, response_json = Some [(''answers'', JObj []), (''page_index'', JInt 2)],
          response_updated = Aware 0\<rparr>)"
proof -
  have "sr_value DIET = ''DIET''" by (simp add: sr_value_def sr_types_def)
  then have "\<exists>ty. ''DIET'' = sr_value ty" by metis
  then have ok: "table_ok (drafts demo_seeded)"
    by (simp add: demo_seeded_def table_ok_def row_ok_def demo_draft_def)
  define t where "t = demo_seeded\<lparr>db_ix := 3, ticks := 2, drafts := [filled [] 2 0 demo_draft]\<rparr>"
  have t: "steps (sr_step demo_accepts plain) demo_seeded
       [(demo_user ''b'', ReadDraft ''1''), (demo_user ''a'', SaveForm ''1'' [] 2), (demo_user ''b'', SaveForm ''1'' [] 5)] t"
    "drafts t = [filled [] 2 0 demo_draft]" "has_session t" "db_up t (db_ix t)"
    unfolding t_def
    by (simp_all only: steps_Cons steps_Nil sr_step_iff demo_seeded_steps ex_simps simp_thms)
      (simp_all add: demo_seeded_def demo_table_def)
  note read = drafts_well_typed[OF t(1) ok t(3,4), where i = "''1''" and u = "demo_user ''a''"]
  have "find (scoped ''1'' (Some (user_id (demo_user ''a'')))) (drafts t) = Some (filled [] 2 0 demo_draft)"
    using t(2) by (simp add: scoped_def filled_def demo_draft_def)
  then have "\<exists>ty. fst (get_draft_route (Inr (demo_user ''a'')) ''1'' t) =
      Inr \<lparr>response_id = ''1'', response_type = ty, response_json = Some [(''answers'', JObj []), (''page_index'', JInt 2)],
        response_updated = Aware 0\<rparr>"
    using read by (auto simp: filled_def)
  with t(1) show ?thesis by - (rule exI[of _ t], simp)
qed

section \<open>Submission\<close>

text \<open>
  The draft of the caller decides what is submitted. With a row of a PDF type the placeholder raises
  before ICM is told; without a row of the caller the submission goes on with empty answers.
\<close>

lemma submit_sr_gated:
  assumes "\<not> pin_ok icm guid p s" and "has_pin svc"
  shows "(\<exists>e. fst (submit_sr icm svc i p sp guid user s) = Inl e) \<and>
    icm_log (snd (submit_sr icm svc i p sp guid user s)) = icm_log s @ [validate_pin_req guid p]"
  unfolding submit_sr_def using assms(2) by (simp add: pin.refused_only[OF assms(1)])

lemma check_spouse_effect:
  "\<exists>qs. icm_log (snd (check_spouse icm guid sp s)) = icm_log s @ qs \<and> (\<forall>q \<in> set qs. \<exists>p. q = validate_pin_req guid p)"
  by (auto simp: check_spouse_def pin_validate_eq bind_def split: option.split sum.split)

lemma pin_checks_keep:
  fixes s :: "('i, 'z) sr_state_scheme"
  shows "drafts (snd (validate_or_raise icm guid p s)) = drafts s \<and> has_session (snd (validate_or_raise icm guid p s)) = has_session s \<and>
    db_up (snd (validate_or_raise icm guid p s)) = db_up s \<and> db_ix (snd (validate_or_raise icm guid p s)) = db_ix s"
    and "drafts (snd (check_spouse icm guid sp s)) = drafts s \<and> has_session (snd (check_spouse icm guid sp s)) = has_session s"
  by (simp_all add: validate_or_raise_def check_spouse_def pin_validate_eq bind_def icm_call_def split: option.split sum.split)

lemma get_draft_effect:
  assumes "filter (scoped i (Some u)) (drafts s) = [d]" and "has_session s" and "map_of sr_types (d_type d) = Some ty"
  shows "drafts (snd (get_draft full_service i (Some u) s)) = drafts s \<and>
    icm_log (snd (get_draft full_service i (Some u) s)) = icm_log s \<and>
    (case fst (get_draft full_service i (Some u) s) of
       Inl e \<Rightarrow> \<not> db_up s (db_ix s)
     | Inr r \<Rightarrow> r = Some \<lparr>response_id = d_id d, response_type = ty, response_json = dict_of (d_json d), response_updated = d_updated d\<rparr>)"
  using assms
  by (simp add: get_draft_def full_service_def optional_row_def repo_get_def bind_def statement_def Let_def one_or_none_def row_response_def)

lemma submit_draft_pdf:
  assumes "filter (scoped i (Some u)) (drafts s) = [d]" and "has_session s" and "map_of sr_types (d_type d) = Some ty"
    and "requires_pdf ty"
  shows "\<exists>e t. submit_draft icm full_service i (Some u) s = (Inl e, t) \<and> drafts t = drafts s \<and> icm_log t = icm_log s \<and>
    (db_up s (db_ix s) \<longrightarrow> e = NotImplementedExn ''PDF generation planned for Phase 2'')"
proof (cases "get_draft full_service i (Some u) s")
  case (Pair r t)
  then show ?thesis using get_draft_effect[OF assms(1-3)] assms(4)
    by (cases r) (auto simp: submit_draft_def bind_Inl bind_Inr Let_def generate_pdf_def)
qed

text \<open>C30.
  A draft of a type that needs a PDF is never submitted. Whatever ICM and the database answer, the
  request fails, the draft stays, and ICM is asked for nothing but PIN checks; with a valid PIN and a
  working database it fails with NotImplementedError (500).
\<close>

theorem pdf_types_never_submitted:
  fixes s :: "('i, 'z) sr_state_scheme"
  assumes "filter (scoped i (Some (user_id u))) (drafts s) = [d]" and "has_session s"
    and "map_of sr_types (d_type d) = Some ty" and "requires_pdf ty"
  shows "\<exists>e t qs. submit_service_request icm (Inr u) i r s = (Inl e, t) \<and> drafts t = drafts s \<and>
    icm_log t = icm_log s @ qs \<and> (\<forall>q \<in> set qs. \<exists>p. q = validate_pin_req (pin_owner u) p) \<and>
    (declaration_accepted r \<and> spouse_pin r = None \<and> pin_ok icm (pin_owner u) (submit_pin r) s \<and> db_up s (db_ix s)
      \<longrightarrow> e = NotImplementedExn ''PDF generation planned for Phase 2'')"
proof (cases "declaration_accepted r")
  case False
  then show ?thesis by (simp add: submit_service_request_def as_user_def must_be_true_def)
next
  case decl: True
  define g where "g = pin_owner u"
  define rest :: "('i, 'z) sr_state_scheme \<Rightarrow> submit_response res \<times> ('i, 'z) sr_state_scheme" where
    "rest = bind (check_spouse icm g (spouse_pin r)) (\<lambda>_. submit_draft icm full_service i (Some (user_id u)))"
  have eq: "submit_service_request icm (Inr u) i r s = bind (validate_or_raise icm g (submit_pin r)) (\<lambda>_. rest) s"
    using decl by (simp add: submit_service_request_def as_user_def must_be_true_def submit_sr_def full_service_def g_def rest_def)
  define s1 where "s1 = snd (validate_or_raise icm g (submit_pin r) s)"
  have log1: "icm_log s1 = icm_log s @ [validate_pin_req g (submit_pin r)]" unfolding s1_def by (rule pin.check_log)
  show ?thesis
  proof (cases "pin_ok icm g (submit_pin r) s")
    case False
    then obtain e where "bind (validate_or_raise icm g (submit_pin r)) (\<lambda>_. rest) s = (Inl e, s1)"
      using pin.refused[OF False, of rest] s1_def by auto
    then show ?thesis using False log1 pin_checks_keep(1)[of icm g "submit_pin r" s] unfolding eq s1_def g_def by auto
  next
    case ok: True
    then have run: "submit_service_request icm (Inr u) i r s = rest s1" unfolding eq s1_def by (rule pin.passed)
    have s1: "drafts s1 = drafts s" "has_session s1" "db_up s1 (db_ix s1) = db_up s (db_ix s)"
      using pin_checks_keep(1)[of icm g "submit_pin r" s] assms(2) by (simp_all add: s1_def)
    obtain c s2 where c: "check_spouse icm g (spouse_pin r) s1 = (c, s2)" by (cases "check_spouse icm g (spouse_pin r) s1")
    have s2: "drafts s2 = drafts s" "has_session s2" using pin_checks_keep(2)[of icm g "spouse_pin r" s1] s1 c by auto
    obtain qs where qs: "icm_log s2 = icm_log s1 @ qs" "\<forall>q \<in> set qs. \<exists>p. q = validate_pin_req g p"
      using check_spouse_effect[of icm g "spouse_pin r" s1] c by auto
    have none: "c = Inr () \<and> s2 = s1" if "spouse_pin r = None" using c that by (simp add: check_spouse_def)
    show ?thesis
    proof (cases c)
      case (Inl e)
      then show ?thesis unfolding run rest_def using c s2 qs log1 none by (auto simp: bind_Inl g_def)
    next
      case (Inr x)
      obtain e t where "submit_draft icm full_service i (Some (user_id u)) s2 = (Inl e, t)" "drafts t = drafts s2"
          "icm_log t = icm_log s2" "db_up s2 (db_ix s2) \<longrightarrow> e = NotImplementedExn ''PDF generation planned for Phase 2''"
        using submit_draft_pdf[of i "user_id u" s2 d ty icm] assms s2 by auto
      then show ?thesis unfolding run rest_def using c Inr s2 qs log1 none s1(3)
        by (auto simp: bind_Inr g_def intro!: exI[of _ "validate_pin_req (pin_owner u) (submit_pin r) # qs"])
    qed
  qed
qed

theorem pdf_types_never_submitted_witness:
  "\<exists>t. submit_service_request demo_accepts (Inr (demo_user ''a'')) ''1'' demo_form demo_table =
      (Inl (NotImplementedExn ''PDF generation planned for Phase 2''), t) \<and> drafts t = [demo_draft]"
proof -
  have "filter (scoped ''1'' (Some (user_id (demo_user ''a'')))) (drafts demo_table) = [demo_draft]"
    by (simp add: scoped_def demo_draft_def)
  moreover have "map_of sr_types (d_type demo_draft) = Some DIET" by (simp add: demo_draft_def sr_types_def)
  moreover have "requires_pdf DIET" by (simp add: requires_pdf_def PDF_TYPES_def)
  ultimately show ?thesis using pdf_types_never_submitted[where icm = demo_accepts and r = demo_form] by fastforce
qed

text \<open>
  Submitting a service request that has no draft of the caller (a foreign or an unknown id) is not
  refused: with the caller's own PIN ICM is asked to finalize it, with empty answers, and its answer
  is reported as success. The owner's draft stays.
\<close>

theorem foreign_sr_submitted:
  assumes "filter (scoped i (Some (user_id u))) (drafts s) = []" and "has_session s" and "\<forall>n. db_up s n"
    and "declaration_accepted r" and "spouse_pin r = None" and "pin_ok icm (pin_owner u) (submit_pin r) s"
    and "fst (icm (finalize_sr_form_req i (JObj [])) (snd (icm (validate_pin_req (pin_owner u) (submit_pin r)) (icm_st s)))) =
      Inr (JObj ob)" and "map_of ob ''sr_number'' = Some (JStr n)"
  shows "\<exists>x t. submit_service_request icm (Inr u) i r s = (Inr x, t) \<and> submitted_id x = i \<and> submitted_number x = n \<and>
    icm_log t = icm_log s @ [validate_pin_req (pin_owner u) (submit_pin r), finalize_sr_form_req i (JObj [])] \<and>
    drafts t = drafts s"
proof -
  define s1 where "s1 = snd (validate_or_raise icm (pin_owner u) (submit_pin r) s)"
  have s1: "s1 = snd (icm_call icm (validate_pin_req (pin_owner u) (submit_pin r)) s)"
    unfolding s1_def validate_or_raise_def by (auto simp: bind_def pin_validate_eq split: sum.split)
  have "submit_service_request icm (Inr u) i r s =
      bind (validate_or_raise icm (pin_owner u) (submit_pin r)) (\<lambda>_. submit_draft icm full_service i (Some (user_id u))) s"
    using assms(4,5) by (simp add: submit_service_request_def as_user_def must_be_true_def submit_sr_def full_service_def check_spouse_def)
  also have "\<dots> = submit_draft icm full_service i (Some (user_id u)) s1" unfolding s1_def by (rule pin.passed[OF assms(6)])
  finally have eq: "submit_service_request icm (Inr u) i r s = submit_draft icm full_service i (Some (user_id u)) s1" .
  have keep: "filter (\<lambda>d. \<not> scoped i (Some (user_id u)) d) (drafts s) = drafts s"
    using assms(1) by (auto simp: filter_empty_conv intro: map_filter_id)
  show ?thesis unfolding eq s1
    using assms(1,2,3,7,8) keep
    by (simp add: submit_draft_def get_draft_def full_service_def optional_row_def repo_get_def bind_def icm_call_def
        statement_def Let_def one_or_none_def draft_answers_def repo_delete_def now_utc_def)
qed

theorem foreign_sr_submitted_witness:
  "\<exists>x t. submit_service_request demo_accepts (Inr (demo_user ''b'')) ''1'' demo_form demo_table = (Inr x, t) \<and>
     submitted_number x = ''N1'' \<and> drafts t = [demo_draft]"
proof -
  have "filter (scoped ''1'' (Some (user_id (demo_user ''b'')))) (drafts demo_table) = []"
    by (simp add: scoped_def demo_draft_def)
  from foreign_sr_submitted[OF this, where r = demo_form and icm = demo_accepts and n = "''N1''"] show ?thesis
    by (simp add: demo_accepts_def) blast
qed

text \<open>
  Two more facts of the routes: the list ignores the page asked for, as ICM is not told it and the
  answer is not cut; and an outage of ICM during a withdrawal is answered 400, because
  ICMServiceUnavailableError is an ICMError.
\<close>

lemma sr_list_ignores_paging:
  assumes "list_srs icm co profile pg psize s = (Inr r, t)"
  shows "icm_log t = icm_log s @ [get_sr_list_req profile] \<and> list_page r = pg \<and> list_page_size r = psize \<and>
    (\<exists>raw. fst (icm (get_sr_list_req profile) (icm_st s)) = Inr raw \<and> construct_all (sr_summary_of co) raw ''items'' = Inr (items r))"
  using assms
  by (auto simp: list_srs_def bind_def icm_call_def split: sum.splits option.splits)

lemma withdraw_outage_is_400:
  assumes "fst (icm (cancel_sr_req i w) (icm_st s)) = Inl (ICMExn ICMServiceUnavailableError m c)"
  shows "fst (withdraw_service_request icm (Inr u) i (Some w) s) = Inl (HTTPExn 400 m)"
  using assms
  by (simp add: withdraw_service_request_def as_user_def catch_def withdraw_sr_def bind_def icm_call_def is_withdrawn_def)

end
