(* ===== verification/Monthly_Reports.thy ===== *)
theory Monthly_Reports
  imports Account Session_Store
begin

text \<open>
  Monthly reports (SD81): \<open>app/domains/monthly_reports\<close> and the routes of
  \<open>app/routers/monthly_reports.py\<close>. The period of a case comes from Redis or from ICM; a submission
  checks the period, then the PINs, then goes to ICM. Parameters: ICM, its byte downloads, the store,
  the coercions and \<open>from_iso\<close>, the values \<open>datetime.fromisoformat\<close> accepts.
\<close>

section \<open>Models\<close>

datatype sd81_status = PARTIAL | SUBMITTED | RESTARTED | RESUBMITTED | PENDING_DOCUMENTS

definition sd81_statuses :: "(string \<times> sd81_status) list" where
  "sd81_statuses =
     [(''PRT'', PARTIAL), (''SUB'', SUBMITTED), (''RST'', RESTARTED), (''RES'', RESUBMITTED), (''PND'', PENDING_DOCUMENTS)]"

record sd81_summary =
  report_id :: string
  report_month :: date
  report_status :: sd81_status
  report_submitted :: "datetime option"

definition make_report :: "string \<Rightarrow> date \<Rightarrow> sd81_status \<Rightarrow> datetime option \<Rightarrow> sd81_summary" where
  "make_report i m s d = \<lparr>report_id = i, report_month = m, report_status = s, report_submitted = d\<rparr>"

definition report_of :: "coercions \<Rightarrow> kvs \<Rightarrow> sd81_summary option" where
  "report_of co ob = build4 make_report (field str_of ''sd81_id'' ob) (field (date_of co) ''benefit_month'' ob)
     (field (enum_of sd81_statuses) ''status'' ob) (field_or (nullable (dt_of co)) ''submitted_at'' None ob)"

record report_list =
  reports :: "sd81_summary list"
  reports_total :: int

record report_receipt =
  receipt_id :: string
  receipt_status :: sd81_status
  receipt_at :: datetime

section \<open>The cached period\<close>

text \<open>\<open>model_dump_json\<close> and \<open>model_validate_json\<close> of a window; in a stored text a date is represented by its parts.\<close>

fun date_json :: "date \<Rightarrow> json" where
  "date_json (Date y m d) = JArr [JInt y, JInt m, JInt d]"

definition json_date :: "date reader" where
  "json_date j = (case j of JArr [JInt y, JInt m, JInt d] \<Rightarrow> Some (Date y m d) | _ \<Rightarrow> None)"

definition window_dump :: "cheque_window \<Rightarrow> json" where
  "window_dump w = JObj [(''benefit_month'', date_json (benefit_month w)), (''income_date'', date_json (income_date w)),
     (''cheque_issue_date'', date_json (cheque_issue_date w)), (''period_close_date'', time_json (period_close_date w))]"

definition window_load :: "json \<Rightarrow> cheque_window res" where
  "window_load j =
     (case Option.bind (dict_of j) (\<lambda>ob. build4 make_window (field json_date ''benefit_month'' ob)
         (field json_date ''income_date'' ob) (field json_date ''cheque_issue_date'' ob) (field json_time ''period_close_date'' ob)) of
        None \<Rightarrow> Inl ValidationExn | Some w \<Rightarrow> Inr w)"

lemma json_date_json [simp]: "json_date (date_json d) = Some d"
  by (cases d) (simp add: json_date_def)

lemma window_load_dump [simp]: "window_load (window_dump w) = Inr w"
  by (simp add: window_load_def window_dump_def build_defs field_def make_window_def)

section \<open>The service\<close>

text \<open>Which of its optional collaborators the service was given.\<close>

record mr_service =
  mr_has_pin :: bool
  mr_has_redis :: bool

definition get_current_period ::
  "'r kv_ops \<Rightarrow> 'i icm_fun \<Rightarrow> coercions \<Rightarrow> mr_service \<Rightarrow> string \<Rightarrow> (('i, 'r, 'z) kvbase_scheme, cheque_window) io" where
  "get_current_period ops icm co svc case_no =
     bind (if mr_has_redis svc then redis_get ops (icm_cheque_schedule_key case_no) else ret None) (\<lambda>cached.
     case cached of
       Some j \<Rightarrow> lift_res (window_load j)
     | None \<Rightarrow>
         bind (icm_call icm (get_report_period_req case_no)) (\<lambda>raw.
         bind (lift_res (construct (window_of co) raw)) (\<lambda>w.
         bind (if mr_has_redis svc
               then redis_setex ops (icm_cheque_schedule_key case_no) ICM_CHEQUE_SCHEDULE_TTL (window_dump w)
               else ret ()) (\<lambda>_.
         ret w))))"

definition list_reports ::
  "'i icm_fun \<Rightarrow> coercions \<Rightarrow> string \<Rightarrow> int \<Rightarrow> (('i, 'z) base_scheme, report_list) io" where
  "list_reports icm co profile days_ago =
     bind (icm_call icm (list_reports_req profile days_ago)) (\<lambda>raw.
     bind (lift_res (construct_all (report_of co) raw ''reports'')) (\<lambda>rs.
     bind (lift_res (obj_get_default raw ''total'' (JInt (int (length rs))))) (\<lambda>n.
     lift_res (case int_of co n of None \<Rightarrow> Inl ValidationExn | Some k \<Rightarrow> Inr \<lparr>reports = rs, reports_total = k\<rparr>))))"

definition start_report :: "'i icm_fun \<Rightarrow> string \<Rightarrow> (('i, 'z) base_scheme, json) io" where
  "start_report icm profile =
     bind (icm_call icm (start_report_req profile)) (\<lambda>result.
     bind (lift_res (obj_get_default result ''sd81_id'' (JStr []))) (\<lambda>i.
     ret (JObj [(''sd81_id'', i)])))"

definition get_answers :: "'i icm_fun \<Rightarrow> string \<Rightarrow> string option \<Rightarrow> (('i, 'z) base_scheme, json) io" where
  "get_answers icm i profile = icm_call icm (get_ia_questionnaire_req i profile)"

definition save_answers :: "'i icm_fun \<Rightarrow> string \<Rightarrow> json \<Rightarrow> string option \<Rightarrow> (('i, 'z) base_scheme, json) io" where
  "save_answers icm i answers profile = icm_call icm (finalize_report_req i answers profile)"

definition restart_report :: "'i icm_fun \<Rightarrow> string \<Rightarrow> string option \<Rightarrow> (('i, 'z) base_scheme, json) io" where
  "restart_report icm i profile = icm_call icm (restart_report_req i profile)"

definition get_report_pdf :: "'i icm_bytes \<Rightarrow> string \<Rightarrow> string option \<Rightarrow> (('i, 'z) base_scheme, string) io" where
  "get_report_pdf bytes i profile = icm_call bytes (report_pdf_req i profile)"

text \<open>The time and the status of the receipt, from ICM's answer.\<close>

definition receipt_time :: "(string \<Rightarrow> datetime option) \<Rightarrow> json option \<Rightarrow> (('i, 'z) base_scheme, datetime) io" where
  "receipt_time from_iso at =
     (case at of
        None \<Rightarrow> bind now_utc (\<lambda>now. ret (Aware now))
      | Some j \<Rightarrow>
          if \<not> truthy j then bind now_utc (\<lambda>now. ret (Aware now))
          else lift_res (case j of
              JStr t \<Rightarrow> (case from_iso t of None \<Rightarrow> Inl (ValueExn ''Invalid isoformat string'') | Some d \<Rightarrow> Inr d)
            | _ \<Rightarrow> Inl TypeExn))"

definition status_or_submitted :: "json \<Rightarrow> sd81_status" where
  "status_or_submitted j = (case enum_of sd81_statuses j of None \<Rightarrow> SUBMITTED | Some s \<Rightarrow> s)"

definition send_report ::
  "'i icm_fun \<Rightarrow> (string \<Rightarrow> datetime option) \<Rightarrow> string \<Rightarrow> string \<Rightarrow> string option \<Rightarrow> string option \<Rightarrow>
   (('i, 'z) base_scheme, report_receipt) io" where
  "send_report icm from_iso i pin sp profile =
     bind (icm_call icm (submit_monthly_report_req i (JObj [(''pin'', JStr pin), (''spouse_pin'', opt_json sp)]) profile)) (\<lambda>result.
     bind (lift_res (obj_get result ''submitted_at'')) (\<lambda>at.
     bind (receipt_time from_iso at) (\<lambda>d.
     bind (lift_res (obj_get_default result ''status'' (JStr ''SUB''))) (\<lambda>st.
     ret \<lparr>receipt_id = i, receipt_status = status_or_submitted st, receipt_at = d\<rparr>))))"

definition period_owner :: "string option \<Rightarrow> string \<Rightarrow> string" where
  "period_owner profile guid = (case profile of None \<Rightarrow> guid | Some p \<Rightarrow> if p = [] then guid else p)"

text \<open>A close date without a time zone is taken as UTC.\<close>

definition submit_report ::
  "'r kv_ops \<Rightarrow> 'i icm_fun \<Rightarrow> coercions \<Rightarrow> (string \<Rightarrow> datetime option) \<Rightarrow> mr_service \<Rightarrow>
   string \<Rightarrow> string \<Rightarrow> string option \<Rightarrow> string \<Rightarrow> string option \<Rightarrow> (('i, 'r, 'z) kvbase_scheme, report_receipt) io" where
  "submit_report ops icm co from_iso svc i pin sp guid profile =
     bind (get_current_period ops icm co svc (period_owner profile guid)) (\<lambda>period.
     bind now_utc (\<lambda>now.
     bind (lift_res (dt_less (as_utc (period_close_date period)) (Aware now))) (\<lambda>closed.
     if closed then raise (ReportingPeriodClosedExn ''Submission period is closed for this benefit month'')
     else if \<not> mr_has_pin svc then raise (RuntimeExn ''PINService not configured'')
     else
       bind (validate_or_raise icm guid pin) (\<lambda>_.
       bind (check_spouse icm guid sp) (\<lambda>_.
       send_report icm from_iso i pin sp profile)))))"

section \<open>Routes\<close>

definition full_mr :: mr_service where
  "full_mr = \<lparr>mr_has_pin = True, mr_has_redis = True\<rparr>"

lemma full_mr_simps [simp]: "mr_has_pin full_mr" "mr_has_redis full_mr"
  by (simp_all add: full_mr_def)

text \<open>A route annotated \<open>dict\<close>: any other answer fails the validation of the response.\<close>

definition as_dict :: "('s, json) io \<Rightarrow> ('s, kvs) io" where
  "as_dict m = bind m (\<lambda>j. lift_res (case dict_of j of None \<Rightarrow> Inl ValidationExn | Some ob \<Rightarrow> Inr ob))"

definition get_current_period_route ::
  "'r kv_ops \<Rightarrow> 'i icm_fun \<Rightarrow> coercions \<Rightarrow> user_context res \<Rightarrow> string option \<Rightarrow> (('i, 'r, 'z) kvbase_scheme, cheque_window) io" where
  "get_current_period_route ops icm co auth case_no =
     as_user auth (\<lambda>u. get_current_period ops icm co full_mr (case case_no of None \<Rightarrow> ''default'' | Some c \<Rightarrow> c))"

definition list_reports_route ::
  "'i icm_fun \<Rightarrow> coercions \<Rightarrow> user_context res \<Rightarrow> int \<Rightarrow> (('i, 'z) base_scheme, report_list) io" where
  "list_reports_route icm co auth days_ago =
     as_user auth (\<lambda>u.
     if days_ago < 1 \<or> 3650 < days_ago then raise unprocessable else list_reports icm co (user_id u) days_ago)"

definition start_report_route :: "'i icm_fun \<Rightarrow> user_context res \<Rightarrow> (('i, 'z) base_scheme, kvs) io" where
  "start_report_route icm auth = as_user auth (\<lambda>u. as_dict (start_report icm (user_id u)))"

definition get_answers_route :: "'i icm_fun \<Rightarrow> user_context res \<Rightarrow> string \<Rightarrow> (('i, 'z) base_scheme, kvs) io" where
  "get_answers_route icm auth i = as_user auth (\<lambda>u. as_dict (get_answers icm i (Some (user_id u))))"

definition save_answers_route :: "'i icm_fun \<Rightarrow> user_context res \<Rightarrow> string \<Rightarrow> kvs \<Rightarrow> (('i, 'z) base_scheme, kvs) io" where
  "save_answers_route icm auth i answers =
     as_user auth (\<lambda>u. as_dict (save_answers icm i (JObj answers) (Some (user_id u))))"

definition submit_report_route ::
  "'r kv_ops \<Rightarrow> 'i icm_fun \<Rightarrow> coercions \<Rightarrow> (string \<Rightarrow> datetime option) \<Rightarrow> user_context res \<Rightarrow>
   string \<Rightarrow> string \<Rightarrow> string option \<Rightarrow> (('i, 'r, 'z) kvbase_scheme, report_receipt) io" where
  "submit_report_route ops icm co from_iso auth i pin sp =
     as_user auth (\<lambda>u. submit_report ops icm co from_iso full_mr i pin sp (pin_owner u) (Some (user_id u)))"

definition restart_report_route :: "'i icm_fun \<Rightarrow> user_context res \<Rightarrow> string \<Rightarrow> (('i, 'z) base_scheme, kvs) io" where
  "restart_report_route icm auth i = as_user auth (\<lambda>u. as_dict (restart_report icm i (Some (user_id u))))"

text \<open>The content and its \<open>Content-Disposition\<close>.\<close>

definition get_report_pdf_route ::
  "'i icm_bytes \<Rightarrow> user_context res \<Rightarrow> string \<Rightarrow> (('i, 'z) base_scheme, string \<times> string) io" where
  "get_report_pdf_route bytes auth i =
     as_user auth (\<lambda>u. bind (get_report_pdf bytes i (Some (user_id u))) (\<lambda>pdf.
     ret (pdf, ''inline; filename='' @ i @ ''.pdf'')))"

section \<open>Submission is gated\<close>

lemma get_current_period_log:
  assumes "get_current_period ops icm co svc c s = (r, t)"
  shows "clock t = clock s \<and> (icm_log t = icm_log s \<or> icm_log t = icm_log s @ [get_report_period_req c])"
  using assms
  by (auto simp: get_current_period_def redis_defs bind_def icm_call_def Let_def split: sum.splits option.splits if_splits)

lemma submit_request_distinct [simp]:
  "submit_monthly_report_req i d p \<noteq> get_report_period_req c"
  "submit_monthly_report_req i d p \<noteq> validate_pin_req g x"
  by (simp_all add: submit_monthly_report_req_def get_report_period_req_def validate_pin_req_def get_req_def post_req_def)

text \<open>C31.
  A report reaches ICM only through both checks: if the request to submit it was made, the period of
  the user was read and had not closed when it was compared, and ICM had said that the PIN is valid.
  In every other case the route fails without it.
\<close>

theorem report_submission_gated:
  fixes s :: "('i, 'r, 'z) kvbase_scheme"
  assumes "submit_report_route ops icm co from_iso (Inr u) i pin sp s = (r, t)"
    and "submit_monthly_report_req i d p \<in> set (drop (length (icm_log s)) (icm_log t)) \<or> (\<exists>x. r = Inr x)"
  shows "\<exists>w s1. get_current_period ops icm co full_mr (period_owner (Some (user_id u)) (pin_owner u)) s = (Inr w, s1) \<and>
    clock s (ticks s1) \<le> dt_instant (period_close_date w) \<and> pin_ok icm (pin_owner u) pin s1"
proof -
  define c where "c = period_owner (Some (user_id u)) (pin_owner u)"
  define rest :: "('i, 'r, 'z) kvbase_scheme \<Rightarrow> report_receipt res \<times> ('i, 'r, 'z) kvbase_scheme" where
    "rest = bind (check_spouse icm (pin_owner u) sp) (\<lambda>_. send_report icm from_iso i pin sp (Some (user_id u)))"
  obtain p1 s1 where p1: "get_current_period ops icm co full_mr c s = (p1, s1)"
    by (cases "get_current_period ops icm co full_mr c s")
  have s1: "clock s1 = clock s" "icm_log s1 = icm_log s \<or> icm_log s1 = icm_log s @ [get_report_period_req c]"
    using get_current_period_log[OF p1] by auto
  have run: "submit_report ops icm co from_iso full_mr i pin sp (pin_owner u) (Some (user_id u)) s = (r, t)"
    using assms(1) by (simp add: submit_report_route_def as_user_def)
  show ?thesis
  proof (cases p1)
    case (Inl e)
    then have "r = Inl e \<and> t = s1" using run p1 by (simp add: submit_report_def bind_def c_def)
    then show ?thesis using assms(2) s1(2) by auto
  next
    case (Inr w)
    define s2 where "s2 = s1\<lparr>ticks := Suc (ticks s1)\<rparr>"
    show ?thesis
    proof (cases "dt_instant (period_close_date w) < clock s (ticks s1)")
      case True
      then have "icm_log t = icm_log s1 \<and> (\<exists>e. r = Inl e)"
        using run p1 Inr s1(1) by (auto simp: submit_report_def bind_def c_def now_utc_def)
      then show ?thesis using assms(2) s1(2) by auto
    next
      case opened: False
      then have run2: "bind (validate_or_raise icm (pin_owner u) pin) (\<lambda>_. rest) s2 = (r, t)"
        using run s1(1)
        by (simp add: submit_report_def c_def[symmetric] rest_def s2_def
            bind_Inr[where m = "get_current_period ops icm co full_mr c", OF p1[unfolded Inr]])
      show ?thesis
      proof (cases "pin_ok icm (pin_owner u) pin s2")
        case True
        then have "pin_ok icm (pin_owner u) pin s1" by (simp add: pin_ok_def s2_def)
        then show ?thesis using p1 Inr opened by (auto simp: c_def)
      next
        case False
        have "(\<exists>e. r = Inl e) \<and> icm_log t = icm_log s2 @ [validate_pin_req (pin_owner u) pin]"
          using pin.refused_only[OF False, of rest] run2 by simp
        then show ?thesis using assms(2) s1(2) by (auto simp: s2_def)
      qed
    qed
  qed
qed

section \<open>Concrete runs\<close>

definition demo_period :: json where
  "demo_period = JObj [(''benefit_month'', JStr ''2025-03-01''), (''income_date'', JStr ''2025-03-01''),
     (''cheque_issue_date'', JStr ''2025-03-01''), (''period_close_date'', JInt 100)]"

text \<open>An ICM with that period that accepts every PIN and every report.\<close>

definition demo_reports :: "nat icm_fun" where
  "demo_reports rq n =
     (if rq = get_report_period_req ''u'' then (Inr demo_period, n) else (Inr (JObj [(''valid'', JBool True)]), n))"

definition demo_kv :: "instant \<Rightarrow> (nat, ttl_store) kvbase" where
  "demo_kv now = \<lparr>icm_st = 0, icm_log = [], clock = (\<lambda>n. now), ticks = 0, uuids = (\<lambda>n. []), uuid_ix = 0,
     kv = [], kv_up = (\<lambda>n. True), kv_ix = 0\<rparr>"

lemma demo_kv_simps [simp]:
  "clock (demo_kv now) n = now" "kv_up (demo_kv now) n" "kv (demo_kv now) = []" "icm_st (demo_kv now) = 0"
  "icm_log (demo_kv now) = []" "ticks (demo_kv now) = 0" "kv_ix (demo_kv now) = 0"
  by (simp_all add: demo_kv_def)

definition demo_window :: cheque_window where
  "demo_window = make_window (Date 2025 3 1) (Date 2025 3 1) (Date 2025 3 1) (Aware (seconds 100))"

lemma demo_period_window: "construct (window_of plain) demo_period = Inr demo_window"
proof -
  have "iso_date ''2025-03-01'' = Some (Date 2025 3 1)"
    by (simp add: iso_date_def read_digits_def read_nat_def dec_digit_def valid_date_def days_in_month_def)
  then show ?thesis
    by (simp add: demo_period_def window_of_def build_defs field_def plain_def demo_window_def)
qed

lemma demo_get_period:
  "get_current_period ttl_ops demo_reports plain full_mr ''u'' (demo_kv now) =
     (Inr demo_window, (demo_kv now)\<lparr>ticks := 2, kv_ix := 2, icm_log := [get_report_period_req ''u''],
        kv := [(icm_cheque_schedule_key ''u'', window_dump demo_window, now + seconds ICM_CHEQUE_SCHEDULE_TTL)]\<rparr>)"
  by (simp add: get_current_period_def redis_defs bind_def Let_def ttl_ops_def ttl_get_def icm_call_def demo_reports_def
      demo_period_window demo_kv_def numeral_2_eq_2)

definition demo_client :: user_context where
  "demo_client = make_user ''u'' CLIENT None None"

lemma demo_client_simps [simp]: "user_id demo_client = ''u''" "pin_owner demo_client = ''u''"
  by (simp_all add: demo_client_def make_user_def pin_owner_def)

lemma demo_submits:
  "\<exists>x t. submit_report_route ttl_ops demo_reports plain (\<lambda>x. None) (Inr demo_client) ''7'' ''1234'' None (demo_kv 0) = (Inr x, t)"
proof -
  have ne: "validate_pin_req a b \<noteq> get_report_period_req ''u''"
      "submit_monthly_report_req a2 b2 c2 \<noteq> get_report_period_req ''u''" for a b a2 b2 c2
    by (simp_all add: validate_pin_req_def get_report_period_req_def get_req_def post_req_def submit_monthly_report_req_def)
  show ?thesis
    by (simp add: submit_report_route_def as_user_def submit_report_def period_owner_def bind_def demo_get_period
        demo_window_def make_window_def validate_or_raise_def pin_validate_def check_spouse_def send_report_def
        receipt_time_def icm_call_def demo_reports_def ne now_utc_def seconds_def)
qed

theorem report_submission_gated_witness:
  "\<exists>w s1. get_current_period ttl_ops demo_reports plain full_mr ''u'' (demo_kv 0) = (Inr w, s1) \<and>
     0 \<le> dt_instant (period_close_date w) \<and> pin_ok demo_reports ''u'' ''1234'' s1"
proof -
  obtain x t where "submit_report_route ttl_ops demo_reports plain (\<lambda>x. None) (Inr demo_client) ''7'' ''1234'' None (demo_kv 0) = (Inr x, t)"
    using demo_submits by blast
  from report_submission_gated[OF this disjI2] show ?thesis
    by (auto simp: period_owner_def)
qed

section \<open>The cached period\<close>

text \<open>
  The period fetched for a case is what every request for that case gets for the next hour, whoever
  asks and whatever ICM would answer by then. In particular a submission of that user after the cached
  close date is refused as closed without asking ICM, even when ICM has opened the next period.
\<close>

theorem period_cached_for_an_hour:
  assumes "get_current_period_route ttl_ops icm co (Inr u) (Some c) s = (Inr w, t)"
    and "kget ttl_ops (clock s (ticks s)) (icm_cheque_schedule_key c) (kv s) = None"
    and "kv v = kv t" and "\<forall>n. kv_up v n" and "clock v (ticks v) < clock s (Suc (ticks s)) + seconds 3600"
  shows "get_current_period_route ttl_ops icm' co (Inr u') (Some c) v =
      (Inr w, v\<lparr>ticks := Suc (ticks v), kv_ix := Suc (kv_ix v)\<rparr>) \<and>
    (user_id a = c \<and> c \<noteq> [] \<and> dt_instant (period_close_date w) < clock v (Suc (ticks v)) \<longrightarrow>
      fst (submit_report_route ttl_ops icm' co from_iso (Inr a) i pin sp v) =
        Inl (ReportingPeriodClosedExn ''Submission period is closed for this benefit month'') \<and>
      icm_log (snd (submit_report_route ttl_ops icm' co from_iso (Inr a) i pin sp v)) = icm_log v)"
proof -
  have kv_t: "kv t = ksetex ttl_ops (clock s (Suc (ticks s))) (icm_cheque_schedule_key c) ICM_CHEQUE_SCHEDULE_TTL (window_dump w) (kv s)"
    using assms(1,2)
    by (auto simp: get_current_period_route_def as_user_def get_current_period_def redis_defs bind_def icm_call_def Let_def
        split: sum.splits if_splits)
  have "kget ttl_ops (clock v (ticks v)) (icm_cheque_schedule_key c) (kv v) = Some (window_dump w)"
    unfolding assms(3) kv_t by (rule ttl.setex_get_before) (use assms(5) in \<open>simp_all add: ICM_CHEQUE_SCHEDULE_TTL_def\<close>)
  then have *: "get_current_period ttl_ops icm' co full_mr c v = (Inr w, v\<lparr>ticks := Suc (ticks v), kv_ix := Suc (kv_ix v)\<rparr>)"
    using assms(4) by (simp add: get_current_period_def redis_get_def redis_call_def bind_def Let_def)
  have "fst (submit_report_route ttl_ops icm' co from_iso (Inr a) i pin sp v) =
        Inl (ReportingPeriodClosedExn ''Submission period is closed for this benefit month'') \<and>
      icm_log (snd (submit_report_route ttl_ops icm' co from_iso (Inr a) i pin sp v)) = icm_log v"
    if "user_id a = c" "c \<noteq> []" "dt_instant (period_close_date w) < clock v (Suc (ticks v))"
    using that by (simp add: submit_report_route_def as_user_def submit_report_def period_owner_def
        bind_Inr[where m = "get_current_period ttl_ops icm' co full_mr c", OF *])
  then show ?thesis using * by (simp add: get_current_period_route_def as_user_def)
qed

theorem period_cached_for_an_hour_witness:
  "fst (submit_report_route ttl_ops (\<lambda>rq n. (Inr JNull, n)) plain (\<lambda>x. None) (Inr demo_client) ''7'' ''1234'' None
      (snd (get_current_period_route ttl_ops demo_reports plain (Inr demo_client) (Some ''u'') (demo_kv (seconds 200))))) =
    Inl (ReportingPeriodClosedExn ''Submission period is closed for this benefit month'')"
proof -
  let ?s = "demo_kv (seconds 200)"
  let ?g = "get_current_period_route ttl_ops demo_reports plain (Inr demo_client) (Some ''u'') ?s"
  have g: "?g = (Inr demo_window, snd ?g)"
    by (simp add: get_current_period_route_def as_user_def demo_get_period)
  have "kget ttl_ops (clock ?s (ticks ?s)) (icm_cheque_schedule_key ''u'') (kv ?s) = None"
    by (simp add: ttl_ops_def ttl_get_def)
  moreover have "\<forall>n. kv_up (snd ?g) n" "clock (snd ?g) n = seconds 200" for n
    by (simp_all add: get_current_period_route_def as_user_def demo_get_period)
  ultimately show ?thesis
    using period_cached_for_an_hour[OF g, where v = "snd ?g" and a = demo_client and icm' = "\<lambda>rq n. (Inr JNull, n)"
        and from_iso = "\<lambda>x. None" and i = "''7''" and pin = "''1234''" and sp = None]
    by (simp add: demo_window_def make_window_def)
qed

end
