(* ===== verification/Attachments.thy ===== *)
theory Attachments
  imports Account Machines Payment
begin

text \<open>
  Attachments: \<open>app/domains/attachments\<close> (models, service with its table of scan jobs) and the routes
  of \<open>app/routers/attachments.py\<close> (guards, webhook secret, file names). A file is held until the
  virus scanner reports through the webhook, and goes to ICM in base64. The scan jobs are a module
  variable of one process; ICM is a parameter.
\<close>

section \<open>base64\<close>

definition b64_alphabet :: string where
  "b64_alphabet = ''ABCDEFGHIJKLMNOPQRSTUVWXYZabcdefghijklmnopqrstuvwxyz0123456789+/''"

definition b64_char :: "nat \<Rightarrow> char" where
  "b64_char n = b64_alphabet ! n"

text \<open>Three bytes as four groups of six bits, the first group first.\<close>

definition b64_groups :: "nat \<Rightarrow> nat \<Rightarrow> nat \<Rightarrow> string" where
  "b64_groups a b c =
     (let n = (a * 256 + b) * 256 + c in
      map b64_char [n div 64 div 64 div 64, n div 64 div 64 mod 64, n div 64 mod 64, n mod 64])"

fun b64encode :: "byte list \<Rightarrow> string" where
  "b64encode [] = []"
| "b64encode [a] = take 2 (b64_groups (unat a) 0 0) @ ''==''"
| "b64encode [a, b] = take 3 (b64_groups (unat a) (unat b) 0) @ ''=''"
| "b64encode (a # b # c # bs) = b64_groups (unat a) (unat b) (unat c) @ b64encode bs"

text \<open>The reference: what a receiver decodes.\<close>

definition b64_index :: "char \<Rightarrow> nat" where
  "b64_index c = length (takeWhile (\<lambda>d. d \<noteq> c) b64_alphabet)"

definition b64_value :: "char \<Rightarrow> char \<Rightarrow> char \<Rightarrow> char \<Rightarrow> nat" where
  "b64_value p q r s = ((b64_index p * 64 + b64_index q) * 64 + b64_index r) * 64 + b64_index s"

definition b64_bytes :: "nat \<Rightarrow> byte list" where
  "b64_bytes n = [of_nat (n div 256 div 256), of_nat (n div 256 mod 256), of_nat (n mod 256)]"

fun b64decode :: "string \<Rightarrow> byte list" where
  "b64decode (p # q # r # s # cs) =
     (if s = CHR ''='' \<and> r = CHR ''='' then take 1 (b64_bytes (b64_value p q CHR ''A'' CHR ''A''))
      else if s = CHR ''='' then take 2 (b64_bytes (b64_value p q r CHR ''A''))
      else b64_bytes (b64_value p q r s) @ b64decode cs)"
| "b64decode _ = []"

lemma b64_index_char: "n < 64 \<Longrightarrow> b64_index (b64_char n) = n \<and> b64_char n \<noteq> CHR ''=''"
proof -
  have "\<forall>n \<in> set [0..<64]. b64_index (b64_char n) = n \<and> b64_char n \<noteq> CHR ''=''"
    by code_simp
  then show "n < 64 \<Longrightarrow> ?thesis" by auto
qed

lemma b64_value_groups:
  assumes "n < 16777216"
  shows "b64_value (b64_char (n div 64 div 64 div 64)) (b64_char (n div 64 div 64 mod 64)) (b64_char (n div 64 mod 64))
    (b64_char (n mod 64)) = n"
proof -
  have "n div 64 div 64 div 64 < 64" using assms by (simp add: div_mult2_eq[symmetric] less_mult_imp_div_less)
  then show ?thesis by (simp add: b64_value_def b64_index_char)
qed

lemma b64_bytes_value:
  assumes "a < 256" and "b < 256" and "c < 256"
  shows "b64_bytes ((a * 256 + b) * 256 + c) = [of_nat a, of_nat b, of_nat c]"
proof -
  have *: "(m * 256 + x) div 256 = m" "(m * 256 + x) mod 256 = x" if "x < 256" for m x :: nat using that by simp_all
  show ?thesis unfolding b64_bytes_def *[OF assms(3)] *[OF assms(2)] ..
qed

lemma unat_byte: "unat (b :: byte) < 256"
  using unsigned_less[of b] by simp

lemma b64_decode_groups:
  assumes "b64_groups (unat a) (unat b) (unat c) = [p, q, r, s]"
  shows "b64_bytes (b64_value p q r s) = [a, b, c] \<and> p \<noteq> CHR ''='' \<and> q \<noteq> CHR ''='' \<and> r \<noteq> CHR ''='' \<and> s \<noteq> CHR ''=''"
proof -
  define n where "n = (unat a * 256 + unat b) * 256 + unat c"
  have n: "n < 16777216" using unat_byte[of a] unat_byte[of b] unat_byte[of c] by (simp add: n_def)
  have "n div 64 div 64 div 64 < 64" using n by (simp add: div_mult2_eq[symmetric] less_mult_imp_div_less)
  moreover have "b64_bytes n = [a, b, c]"
    unfolding n_def using unat_byte by (subst b64_bytes_value) simp_all
  moreover have "p = b64_char (n div 64 div 64 div 64)" "q = b64_char (n div 64 div 64 mod 64)"
      "r = b64_char (n div 64 mod 64)" "s = b64_char (n mod 64)"
    using assms by (simp_all add: b64_groups_def n_def Let_def)
  ultimately show ?thesis using b64_value_groups[OF n] by (simp add: b64_index_char)
qed

lemma b64_char_0: "b64_char 0 = CHR ''A''"
  by (simp add: b64_char_def b64_alphabet_def)

lemma b64_decode_padded: "b64decode (b64encode [a]) = [a]" "b64decode (b64encode [a, b]) = [a, b]"
proof -
  have last: "b64_groups x y 0 ! 3 = CHR ''A''" "b64_groups x 0 0 ! 2 = CHR ''A''" for x y
  proof -
    have "(x * 256 + y) * 256 = 64 * (4 * (x * 256 + y))" by simp
    then show "b64_groups x y 0 ! 3 = CHR ''A''"
      unfolding b64_groups_def Let_def by (simp add: b64_char_0 del: distrib_left_numeral distrib_right_numeral)
    have "(x * 256 + 0) * 256 = 64 * (64 * (16 * x))" by simp
    then show "b64_groups x 0 0 ! 2 = CHR ''A''"
      unfolding b64_groups_def Let_def by (simp add: b64_char_0 del: distrib_left_numeral distrib_right_numeral)
  qed
  obtain p q r s where g: "b64_groups (unat a) (unat (0::byte)) (unat (0::byte)) = [p, q, r, s]"
    by (simp add: b64_groups_def Let_def)
  then show "b64decode (b64encode [a]) = [a]"
    using b64_decode_groups[OF g] last(1)[of "unat a" 0] last(2)[of "unat a"] by simp
  obtain p q r s where g: "b64_groups (unat a) (unat b) (unat (0::byte)) = [p, q, r, s]"
    by (simp add: b64_groups_def Let_def)
  then show "b64decode (b64encode [a, b]) = [a, b]"
    using b64_decode_groups[OF g] last(1)[of "unat a" "unat b"] by simp
qed

lemma b64_roundtrip: "b64decode (b64encode bs) = bs"
proof (induction bs rule: b64encode.induct)
  case (4 a b c bs)
  obtain p q r s where g: "b64_groups (unat a) (unat b) (unat c) = [p, q, r, s]"
    by (simp add: b64_groups_def Let_def)
  then show ?case using b64_decode_groups[OF g] 4 by simp
qed (simp, rule b64_decode_padded, rule b64_decode_padded)

section \<open>File names\<close>

text \<open>The code points of a text given in UTF-8, as the texts of ICM's answers are.\<close>

fun code_points :: "nat list \<Rightarrow> ustr" where
  "code_points [] = []"
| "code_points (a # bs) =
     (if a < 192 then a # code_points bs
      else if a < 224 then ((a mod 32) * 64 + hd (bs @ [0]) mod 64) # code_points (drop 1 bs)
      else if a < 240 then
        (((a mod 16) * 64 + hd (bs @ [0]) mod 64) * 64 + hd (drop 1 bs @ [0]) mod 64) # code_points (drop 2 bs)
      else
        ((((a mod 8) * 64 + hd (bs @ [0]) mod 64) * 64 + hd (drop 1 bs @ [0]) mod 64) * 64 + hd (drop 2 bs @ [0]) mod 64)
          # code_points (drop 3 bs))"

definition safe_char :: "nat \<Rightarrow> bool" where
  "safe_char c \<longleftrightarrow> 65 \<le> c \<and> c \<le> 90 \<or> 97 \<le> c \<and> c \<le> 122 \<or> 48 \<le> c \<and> c \<le> 57 \<or> c = 46 \<or> c = 95 \<or> c = 45"

definition strip_underscores :: "string \<Rightarrow> string" where
  "strip_underscores s = rev (dropWhile (\<lambda>c. c = CHR ''_'') (rev (dropWhile (\<lambda>c. c = CHR ''_'') s)))"

definition sanitize_filename :: "ustr \<Rightarrow> string" where
  "sanitize_filename filename =
     (let name = strip_underscores (map (\<lambda>c. if safe_char c then char_of c else CHR ''_'') filename)
      in if name = [] then ''attachment'' else name)"

section \<open>Scan jobs\<close>

datatype scan_status = PENDING | SCANNING | CLEAN | INFECTED

text \<open>A job without its id, the key of the table.\<close>

record scan_job =
  job_filename :: ustr
  job_status :: scan_status
  job_content :: "byte list"
  job_user :: string
  job_uploaded :: instant
  job_scanned :: "datetime option"

record 'i att_state = "'i base" +
  scan_jobs :: "string \<rightharpoonup> scan_job"

record upload_response =
  upload_id :: string
  upload_filename :: ustr
  uploaded_at :: instant

record scan_status_response =
  scanned_id :: string
  scan_state :: scan_status
  scanned_at :: "datetime option"

record attachment_response =
  attachment_id :: string
  attached_to :: string
  attached_filename :: string

definition upload :: "ustr \<Rightarrow> byte list \<Rightarrow> string \<Rightarrow> (('i, 'z) att_state_scheme, upload_response) io" where
  "upload filename content user =
     bind fresh_uuid (\<lambda>i.
     bind now_utc (\<lambda>now.
     bind (modify (\<lambda>s. s\<lparr>scan_jobs := (scan_jobs s)(i \<mapsto>
         \<lparr>job_filename = filename, job_status = PENDING, job_content = content, job_user = user,
          job_uploaded = now, job_scanned = None\<rparr>)\<rparr>)) (\<lambda>_.
     ret \<lparr>upload_id = i, upload_filename = filename, uploaded_at = now\<rparr>)))"

text \<open>\<open>not job or job["user_id"] != user_id\<close>.\<close>

definition own_job :: "string \<Rightarrow> string \<Rightarrow> (('i, 'z) att_state_scheme, scan_job) io" where
  "own_job scan_id user =
     bind (reads (\<lambda>s. scan_jobs s scan_id)) (\<lambda>j.
     case j of None \<Rightarrow> raise (ValueExn ''Scan job not found'')
     | Some job \<Rightarrow> if job_user job \<noteq> user then raise (ValueExn ''Scan job not found'') else ret job)"

definition get_scan_status :: "string \<Rightarrow> string \<Rightarrow> (('i, 'z) att_state_scheme, scan_status_response) io" where
  "get_scan_status scan_id user =
     bind (own_job scan_id user) (\<lambda>job.
     ret \<lparr>scanned_id = scan_id, scan_state = job_status job, scanned_at = job_scanned job\<rparr>)"

definition process_scan_result :: "string \<Rightarrow> scan_status \<Rightarrow> datetime \<Rightarrow> (('i, 'z) att_state_scheme, unit) io" where
  "process_scan_result scan_id status at =
     bind (reads (\<lambda>s. scan_jobs s scan_id)) (\<lambda>j.
     case j of None \<Rightarrow> raise (ValueExn ''Scan job not found'')
     | Some job \<Rightarrow>
         modify (\<lambda>s. s\<lparr>scan_jobs := (scan_jobs s)(scan_id \<mapsto> job\<lparr>job_status := status, job_scanned := Some at\<rparr>)\<rparr>))"

definition upload_json :: "string \<Rightarrow> byte list \<Rightarrow> json" where
  "upload_json filename content =
     JObj [(''filename'', JStr filename), (''content_base64'', JStr (b64encode content))]"

definition submit_attachment ::
  "'i icm_fun \<Rightarrow> string \<Rightarrow> string \<Rightarrow> string \<Rightarrow> string \<Rightarrow> (('i, 'z) att_state_scheme, attachment_response) io" where
  "submit_attachment icm sr_id scan_id filename user =
     bind (own_job scan_id user) (\<lambda>job.
     if job_status job \<in> {PENDING, SCANNING} then raise (ValueExn ''Scan not complete'')
     else if job_status job = INFECTED then raise (ValueExn ''File failed virus scan'')
     else
       bind (icm_call icm (upload_attachment_req sr_id (upload_json filename (job_content job)))) (\<lambda>result.
       bind (lift_res (obj_get_default result ''attachment_id'' (JStr scan_id))) (\<lambda>i.
       lift_res (case str_of i of None \<Rightarrow> Inl ValidationExn
         | Some a \<Rightarrow> Inr \<lparr>attachment_id = a, attached_to = sr_id, attached_filename = filename\<rparr>))))"

text \<open>\<open>data.get("content", b"")\<close>: \<open>None\<close> is the default, which is bytes; a value of the JSON answer is not.\<close>

definition download_parts :: "json \<Rightarrow> (json option \<times> json) res" where
  "download_parts data =
     bind_res (obj_get data ''content'') (\<lambda>c.
     bind_res (obj_get_default data ''filename'' (JStr ''attachment'')) (\<lambda>f. Inr (c, f)))"

definition download_message_attachment_svc ::
  "'i icm_fun \<Rightarrow> string \<Rightarrow> string \<Rightarrow> string \<Rightarrow> (('i, 'z) base_scheme, json option \<times> json) io" where
  "download_message_attachment_svc icm profile msg att =
     bind (icm_call icm (get_message_attachment_req profile msg att)) (\<lambda>data. lift_res (download_parts data))"

definition download_sr_attachment_svc ::
  "'i icm_fun \<Rightarrow> string \<Rightarrow> string \<Rightarrow> (('i, 'z) base_scheme, json option \<times> json) io" where
  "download_sr_attachment_svc icm profile sr_id =
     bind (icm_call icm (get_sr_attachment_req profile sr_id)) (\<lambda>data. lift_res (download_parts data))"

section \<open>Routes\<close>

definition MAX_FILE_SIZE :: nat where "MAX_FILE_SIZE = 5242880"

definition ALLOWED_MIME_TYPES :: "string list" where
  "ALLOWED_MIME_TYPES =
     [''application/pdf'', ''image/jpeg'', ''image/png'', ''image/gif'', ''image/bmp'', ''image/tiff'', ''application/msword'',
      ''application/vnd.openxmlformats-officedocument.wordprocessingml.document'', ''application/vnd.ms-excel'',
      ''application/vnd.openxmlformats-officedocument.spreadsheetml.sheet'']"

definition mime_allowed :: "string option \<Rightarrow> bool" where
  "mime_allowed m \<longleftrightarrow> (case m of None \<Rightarrow> False | Some t \<Rightarrow> t \<in> set ALLOWED_MIME_TYPES)"

text \<open>
  \<open>_require_webhook_secret\<close>. \<open>hmac.compare_digest\<close> raises TypeError on texts that are not ASCII.
\<close>

definition is_ascii :: "string \<Rightarrow> bool" where
  "is_ascii s \<longleftrightarrow> list_all (\<lambda>c. (of_char c :: nat) < 128) s"

definition require_webhook_secret :: "string \<Rightarrow> string option \<Rightarrow> unit res" where
  "require_webhook_secret expected given =
     (if expected = [] then Inl (HTTPExn 500 ''AV_WEBHOOK_SECRET not configured'')
      else case given of
        None \<Rightarrow> Inl (HTTPExn 401 ''Invalid webhook secret'')
      | Some g \<Rightarrow>
          if g = [] then Inl (HTTPExn 401 ''Invalid webhook secret'')
          else if \<not> is_ascii g \<or> \<not> is_ascii expected then Inl TypeExn
          else if g \<noteq> expected then Inl (HTTPExn 401 ''Invalid webhook secret'')
          else Inr ())"

definition upload_file ::
  "user_context res \<Rightarrow> string option \<Rightarrow> ustr option \<Rightarrow> byte list \<Rightarrow> (('i, 'z) att_state_scheme, upload_response) io" where
  "upload_file auth content_type filename content =
     as_user auth (\<lambda>u.
     if \<not> mime_allowed content_type then raise (HTTPExn 415 ''File type not allowed.'')
     else if MAX_FILE_SIZE < length content then raise (HTTPExn 413 ''File exceeds maximum allowed size of 5 MB.'')
     else upload (case filename of None \<Rightarrow> ascii ''upload'' | Some f \<Rightarrow> if f = [] then ascii ''upload'' else f)
       content (user_id u))"

definition get_scan_status_route ::
  "user_context res \<Rightarrow> string \<Rightarrow> (('i, 'z) att_state_scheme, scan_status_response) io" where
  "get_scan_status_route auth scan_id = as_user auth (\<lambda>u. reraise 404 (get_scan_status scan_id (user_id u)))"

definition av_scan_result ::
  "string \<Rightarrow> string option \<Rightarrow> string \<Rightarrow> scan_status \<Rightarrow> datetime \<Rightarrow> (('i, 'z) att_state_scheme, unit) io" where
  "av_scan_result expected given scan_id status at =
     bind (lift_res (require_webhook_secret expected given)) (\<lambda>_.
     reraise 404 (process_scan_result scan_id status at))"

definition submit_attachment_route ::
  "'i icm_fun \<Rightarrow> user_context res \<Rightarrow> string \<Rightarrow> string \<Rightarrow> string \<Rightarrow> (('i, 'z) att_state_scheme, attachment_response) io" where
  "submit_attachment_route icm auth sr_id scan_id filename =
     as_user auth (\<lambda>u. reraise 422 (submit_attachment icm sr_id scan_id filename (user_id u)))"

text \<open>The streamed content and its \<open>Content-Disposition\<close>; \<open>re.sub\<close> raises TypeError unless the name is a text.\<close>

definition stream_attachment :: "json option \<times> json \<Rightarrow> (string \<times> string) res" where
  "stream_attachment p =
     bind_res (case fst p of None \<Rightarrow> Inr [] | Some c \<Rightarrow> bytes_io c) (\<lambda>content.
     bind_res (case snd p of JStr f \<Rightarrow> Inr (sanitize_filename (code_points (map of_char f))) | _ \<Rightarrow> Inl TypeExn) (\<lambda>name.
     Inr (content, ''attachment; filename='' @ [CHR 34] @ name @ [CHR 34])))"

definition download_sr_attachment ::
  "'i icm_fun \<Rightarrow> user_context res \<Rightarrow> string \<Rightarrow> (('i, 'z) base_scheme, string \<times> string) io" where
  "download_sr_attachment icm auth sr_id =
     as_user auth (\<lambda>u. bind (download_sr_attachment_svc icm (user_id u) sr_id) (\<lambda>p. lift_res (stream_attachment p)))"

definition download_message_attachment ::
  "'i icm_fun \<Rightarrow> user_context res \<Rightarrow> string \<Rightarrow> string \<Rightarrow> (('i, 'z) base_scheme, string \<times> string) io" where
  "download_message_attachment icm auth msg att =
     as_user auth (\<lambda>u. bind (download_message_attachment_svc icm (user_id u) msg att) (\<lambda>p. lift_res (stream_attachment p)))"

section \<open>File names are safe in a header\<close>

lemma strip_underscores_set: "set (strip_underscores s) \<subseteq> set s"
  by (auto simp: strip_underscores_def dest!: set_dropWhileD)

lemma strip_underscores_ends:
  assumes "strip_underscores s \<noteq> []"
  shows "hd (strip_underscores s) \<noteq> CHR ''_'' \<and> last (strip_underscores s) \<noteq> CHR ''_''"
proof -
  define l where "l = dropWhile (\<lambda>c. c = CHR ''_'') s"
  define m where "m = dropWhile (\<lambda>c. c = CHR ''_'') (rev l)"
  have eq: "strip_underscores s = rev m" by (simp add: strip_underscores_def l_def m_def)
  then have "m \<noteq> []" using assms by simp
  then have m: "hd m \<noteq> CHR ''_''" unfolding m_def by (metis (mono_tags, lifting) hd_dropWhile)
  have "rev l = takeWhile (\<lambda>c. c = CHR ''_'') (rev l) @ m" by (simp add: m_def)
  then have l: "l = rev m @ rev (takeWhile (\<lambda>c. c = CHR ''_'') (rev l))" by (metis rev_append rev_rev_ident)
  then have "l \<noteq> []" using \<open>m \<noteq> []\<close> by (metis Nil_is_append_conv rev_is_Nil_conv)
  then have "hd l \<noteq> CHR ''_''" unfolding l_def by (metis (mono_tags, lifting) hd_dropWhile)
  moreover have "hd l = hd (rev m)" using \<open>m \<noteq> []\<close> by (subst l) simp
  ultimately show ?thesis using m \<open>m \<noteq> []\<close> by (simp add: eq last_rev)
qed

lemma strip_underscores_id:
  assumes "s \<noteq> []" and "hd s \<noteq> CHR ''_''" and "last s \<noteq> CHR ''_''"
  shows "strip_underscores s = s"
proof -
  have "dropWhile (\<lambda>c. c = CHR ''_'') s = s" using assms(1,2) by (cases s) auto
  moreover have "dropWhile (\<lambda>c. c = CHR ''_'') (rev s) = rev s"
    using assms(1,3) by (cases s rule: rev_cases) auto
  ultimately show ?thesis by (simp add: strip_underscores_def)
qed

text \<open>C32.
  Whatever name ICM gives, the name in the download header is not empty, has only ASCII letters,
  digits, dots, hyphens and underscores, and no underscore at either end; so no quote or line break
  reaches the header. Sanitizing it again changes nothing.
\<close>

theorem sanitized_filename_safe:
  "sanitize_filename f \<noteq> [] \<and> list_all (\<lambda>c. safe_char (of_char c)) (sanitize_filename f) \<and>
   hd (sanitize_filename f) \<noteq> CHR ''_'' \<and> last (sanitize_filename f) \<noteq> CHR ''_'' \<and>
   sanitize_filename (map of_char (sanitize_filename f)) = sanitize_filename f"
proof -
  define n where "n = sanitize_filename f"
  define mapped where "mapped = map (\<lambda>c. if safe_char c then char_of c else CHR ''_'') f"
  have n: "n = (if strip_underscores mapped = [] then ''attachment'' else strip_underscores mapped)"
    by (simp add: n_def sanitize_filename_def mapped_def Let_def)
  have "safe_char (of_char c)" if "c \<in> set mapped" for c
  proof -
    from that obtain x where c: "c = (if safe_char x then char_of x else CHR ''_'')"
      unfolding mapped_def set_map by blast
    show ?thesis unfolding c by (auto simp: safe_char_def of_char_of)
  qed
  then have "safe_char (of_char c)" if "c \<in> set n" for c
    using that strip_underscores_set[of mapped] by (auto simp: n safe_char_def split: if_splits)
  then have safe: "list_all (\<lambda>c. safe_char (of_char c)) n" by (simp add: list_all_iff)
  have ends: "n \<noteq> []" "hd n \<noteq> CHR ''_''" "last n \<noteq> CHR ''_''"
    using strip_underscores_ends[of mapped] by (auto simp: n)
  have "map (\<lambda>c. if safe_char c then char_of c else CHR ''_'') (map of_char n) = n"
    using safe by (induction n) (auto simp: char_of_char)
  then have "sanitize_filename (map of_char n) = n"
    using strip_underscores_id[OF ends] ends(1) by (simp add: sanitize_filename_def Let_def)
  then show ?thesis using safe ends unfolding n_def by blast
qed

section \<open>Runs of uploads, scan results and submissions\<close>

datatype att_op =
    Upload user_context "string option" "ustr option" "byte list"
  | ScanStatus user_context string
  | ScanResult "string option" string scan_status datetime
  | Attach user_context string string string

datatype att_reply = Uploaded string | Answered

fun att_handle ::
  "'i icm_fun \<Rightarrow> string \<Rightarrow> att_op \<Rightarrow> (('i, 'z) att_state_scheme, att_reply) io" where
  "att_handle icm expected (Upload u m n c) =
     bind (upload_file (Inr u) m n c) (\<lambda>r. ret (Uploaded (upload_id r)))"
| "att_handle icm expected (ScanStatus u i) = bind (get_scan_status_route (Inr u) i) (\<lambda>_. ret Answered)"
| "att_handle icm expected (ScanResult g i st at) = bind (av_scan_result expected g i st at) (\<lambda>_. ret Answered)"
| "att_handle icm expected (Attach u sr i f) = bind (submit_attachment_route icm (Inr u) sr i f) (\<lambda>_. ret Answered)"

inductive att_step ::
  "'i icm_fun \<Rightarrow> string \<Rightarrow> ('i, 'z) att_state_scheme \<Rightarrow> att_op \<times> att_reply res \<Rightarrow> ('i, 'z) att_state_scheme \<Rightarrow> bool"
  for icm :: "'i icm_fun" and expected :: string where
  att_step: "att_handle icm expected op s = (r, t) \<Longrightarrow> att_step icm expected s (op, r) t"

inductive_cases att_stepE: "att_step icm expected s e t"
inductive_simps att_step_iff: "att_step icm expected s (op, r) t"

text \<open>The abstract table: owner, content and verdict of every id, a function of the events alone.\<close>

type_synonym scan_view = "string \<rightharpoonup> string \<times> byte list \<times> scan_status"

definition job_view :: "scan_job \<Rightarrow> string \<times> byte list \<times> scan_status" where
  "job_view j = (job_user j, job_content j, job_status j)"

definition table_view :: "('i, 'z) att_state_scheme \<Rightarrow> scan_view" where
  "table_view s i = map_option job_view (scan_jobs s i)"

fun apply_event :: "scan_view \<Rightarrow> att_op \<times> att_reply res \<Rightarrow> scan_view" where
  "apply_event v (Upload u m n c, Inr (Uploaded i)) = v(i \<mapsto> (user_id u, c, PENDING))"
| "apply_event v (ScanResult g i st at, Inr a) =
     (case v i of None \<Rightarrow> v | Some (u, c, old) \<Rightarrow> v(i \<mapsto> (u, c, st)))"
| "apply_event v e = v"

text \<open>What an event that succeeded had to satisfy.\<close>

fun event_ok :: "string \<Rightarrow> att_op \<times> att_reply res \<Rightarrow> bool" where
  "event_ok expected (Upload u m n c, Inr a) = (mime_allowed m \<and> length c \<le> MAX_FILE_SIZE)"
| "event_ok expected (ScanResult g i st at, Inr a) = (g = Some expected \<and> expected \<noteq> [])"
| "event_ok expected e = True"

lemma table_view_cong: "scan_jobs t = scan_jobs s \<Longrightarrow> table_view t = table_view s"
  by (rule ext) (simp add: table_view_def)

lemma own_job_state [simp]: "snd (own_job i u s) = s"
  by (simp add: own_job_def split: option.split)

lemma reraise_state: "snd (reraise n m s) = snd (m s)"
  by (auto simp: reraise_def catch_def split: prod.split sum.split)

lemma reraise_Inr: "fst (reraise n m s) = Inr x \<longleftrightarrow> fst (m s) = Inr x"
  by (auto simp: reraise_def catch_def split: prod.split sum.split)

lemma submit_jobs: "scan_jobs (snd (submit_attachment icm sr i f u s)) = scan_jobs s"
  by (auto simp: submit_attachment_def bind_def icm_call_def own_job_def split: option.split sum.split)

lemma upload_view:
  assumes "upload_file (Inr u) m n c s = (r, t)"
  shows "table_view t = (case r of Inl e \<Rightarrow> table_view s | Inr x \<Rightarrow> (table_view s)(upload_id x \<mapsto> (user_id u, c, PENDING)))"
    and "\<exists>x. r = Inr x \<Longrightarrow> mime_allowed m \<and> length c \<le> MAX_FILE_SIZE"
  using assms
  by (auto simp: upload_file_def as_user_def upload_def fresh_uuid_def now_utc_def table_view_def job_view_def bind_def
      intro!: ext split: if_splits)

lemma scan_result_view:
  assumes "av_scan_result expected g i st at s = (r, t)"
  shows "table_view t = (case r of Inl e \<Rightarrow> table_view s
      | Inr x \<Rightarrow> (case table_view s i of None \<Rightarrow> table_view s | Some (u, c, old) \<Rightarrow> (table_view s)(i \<mapsto> (u, c, st))))"
    and "\<exists>x. r = Inr x \<Longrightarrow> g = Some expected \<and> expected \<noteq> []"
  using assms
  by (auto simp: av_scan_result_def bind_def reraise_def catch_def process_scan_result_def require_webhook_secret_def
      table_view_def job_view_def intro!: ext split: option.splits if_splits sum.splits)

lemma att_step_view:
  assumes "att_step icm expected s e t"
  shows "table_view t = apply_event (table_view s) e" and "event_ok expected e"
proof -
  obtain op r where e: "e = (op, r)" and h: "att_handle icm expected op s = (r, t)"
    using assms by (cases rule: att_stepE) auto
  have "table_view t = apply_event (table_view s) e \<and> event_ok expected e"
  proof (cases op)
    case (Upload u m n c)
    obtain r' where u: "upload_file (Inr u) m n c s = (r', t)" "r = (case r' of Inl e \<Rightarrow> Inl e | Inr x \<Rightarrow> Inr (Uploaded (upload_id x)))"
      using h Upload by (cases "upload_file (Inr u) m n c s") (auto simp: bind_def split: sum.splits)
    show ?thesis using upload_view[OF u(1)] u(2) by (cases r') (auto simp: e Upload)
  next
    case (ScanResult g i st at)
    obtain r' where u: "av_scan_result expected g i st at s = (r', t)" "r = (case r' of Inl e \<Rightarrow> Inl e | Inr x \<Rightarrow> Inr Answered)"
      using h ScanResult by (cases "av_scan_result expected g i st at s") (auto simp: bind_def split: sum.splits)
    show ?thesis using scan_result_view[OF u(1)] u(2) by (cases r') (auto simp: e ScanResult)
  next
    case (ScanStatus u i)
    have "scan_jobs t = scan_jobs s"
      using h ScanStatus
      by (auto simp: get_scan_status_route_def as_user_def bind_def reraise_def catch_def get_scan_status_def own_job_def
          split: option.splits if_splits sum.splits)
    then have "table_view t = table_view s" by (rule table_view_cong)
    then show ?thesis by (cases r) (simp_all add: e ScanStatus)
  next
    case (Attach u sr i f)
    have "scan_jobs (snd (submit_attachment_route icm (Inr u) sr i f s)) = scan_jobs s"
      by (simp add: submit_attachment_route_def as_user_def reraise_state submit_jobs)
    moreover have "t = snd (submit_attachment_route icm (Inr u) sr i f s)"
      using h Attach
      by (cases "submit_attachment_route icm (Inr u) sr i f s"; cases "fst (submit_attachment_route icm (Inr u) sr i f s)")
        (auto simp: bind_def)
    ultimately have "table_view t = table_view s" by (intro table_view_cong) simp
    then show ?thesis by (cases r) (simp_all add: e Attach)
  qed
  then show "table_view t = apply_event (table_view s) e" and "event_ok expected e" by auto
qed

section \<open>A concrete run\<close>

definition demo_att :: "nat att_state" where
  "demo_att = \<lparr>icm_st = 0, icm_log = [], clock = (\<lambda>n. 0), ticks = 0, uuids = (\<lambda>n. ''k''), uuid_ix = 0, scan_jobs = Map.empty\<rparr>"

definition demo_owner :: user_context where
  "demo_owner = make_user ''a'' CLIENT None None"

definition demo_job :: "scan_status \<Rightarrow> datetime option \<Rightarrow> scan_job" where
  "demo_job st at = \<lparr>job_filename = ascii ''upload'', job_status = st, job_content = [77, 97], job_user = ''a'',
     job_uploaded = 0, job_scanned = at\<rparr>"

definition demo_events :: "(att_op \<times> att_reply res) list" where
  "demo_events =
     [(Upload demo_owner (Some ''application/pdf'') None [77, 97], Inr (Uploaded ''k'')),
      (ScanResult (Some ''x'') ''k'' CLEAN (Aware 9), Inr Answered)]"

definition demo_scanned :: "nat att_state" where
  "demo_scanned = demo_att\<lparr>ticks := 1, uuid_ix := 1, scan_jobs := [''k'' \<mapsto> demo_job CLEAN (Some (Aware 9))]\<rparr>"

definition demo_stores :: "nat icm_fun" where
  "demo_stores rq n = (Inr (JObj []), n)"

lemma demo_att_run: "steps (att_step demo_stores ''x'') demo_att demo_events demo_scanned"
proof -
  have 1: "att_handle demo_stores ''x'' (Upload demo_owner (Some ''application/pdf'') None [77, 97]) demo_att =
      (Inr (Uploaded ''k''), demo_att\<lparr>ticks := 1, uuid_ix := 1, scan_jobs := [''k'' \<mapsto> demo_job PENDING None]\<rparr>)"
    by (simp add: upload_file_def as_user_def upload_def demo_att_def demo_job_def demo_owner_def make_user_def
        mime_allowed_def ALLOWED_MIME_TYPES_def MAX_FILE_SIZE_def bind_def fresh_uuid_def now_utc_def)
  have 2: "att_handle demo_stores ''x'' (ScanResult (Some ''x'') ''k'' CLEAN (Aware 9))
      (demo_att\<lparr>ticks := 1, uuid_ix := 1, scan_jobs := [''k'' \<mapsto> demo_job PENDING None]\<rparr>) = (Inr Answered, demo_scanned)"
    by (simp add: av_scan_result_def require_webhook_secret_def is_ascii_def reraise_def catch_def process_scan_result_def
        demo_job_def demo_scanned_def bind_def)
  show ?thesis unfolding demo_events_def by (rule steps_cons, rule att_step, rule 1, rule steps_cons, rule att_step, rule 2, rule steps_nil)
qed

section \<open>Properties of the runs\<close>

text \<open>C33.
  The table of scan jobs is what the events say and nothing else: after any sequence of requests, the
  owner, the content and the verdict of every id are those of the abstract table, in which an upload
  records a pending file of its user, a scan result replaces the verdict and nothing changes or
  removes anything else. Uploads that succeeded were of an allowed type and at most 5 MB, scan
  results that were accepted carried the webhook secret.
\<close>

theorem scan_table_refines_events:
  assumes "steps (att_step icm expected) s es t"
  shows "table_view t = foldl apply_event (table_view s) es \<and> list_all (event_ok expected) es"
  using assms
  by (induction rule: steps.induct) (auto dest: att_step_view)

theorem scan_table_refines_events_witness:
  "table_view demo_scanned ''k'' = Some (''a'', [77, 97], CLEAN)"
  using scan_table_refines_events[OF demo_att_run]
  by (simp add: demo_events_def table_view_def demo_att_def demo_owner_def make_user_def)

lemma apply_event_Inl: "apply_event v (op, Inl x) = v"
  by (cases op) simp_all

lemma fold_events:
  assumes "foldl apply_event Map.empty es i = Some (u, c, st)"
  shows "(\<exists>uc m n. (Upload uc m n c, Inr (Uploaded i)) \<in> set es \<and> user_id uc = u) \<and>
    (st = PENDING \<or> (\<exists>g at a. (ScanResult g i st at, Inr a) \<in> set es))"
  using assms
proof (induction es arbitrary: u c st rule: rev_induct)
  case (snoc e es)
  define v where "v = foldl apply_event Map.empty es"
  have now: "apply_event v e i = Some (u, c, st)" using snoc.prems by (simp add: v_def)
  show ?case
  proof (cases "v i = Some (u, c, st)")
    case True
    then show ?thesis using snoc.IH[of u c st] by (auto simp: v_def)
  next
    case False
    show ?thesis
    proof (cases "(v, e)" rule: apply_event.cases)
      case (1 v' uc m n c' i')
      then show ?thesis using now False by (auto split: if_splits)
    next
      case (2 v' g i' st' at a)
      then have e: "e = (ScanResult g i' st' at, Inr a)" by simp
      obtain u0 c0 old0 where v: "v i' = Some (u0, c0, old0)"
        using now False by (cases "v i'") (auto simp: e)
      then have "(v(i' \<mapsto> (u0, c0, st'))) i = Some (u, c, st)" using now by (simp add: e)
      then have old: "v i = Some (u, c, old0)" "i' = i" "st' = st"
        using False v by (simp_all split: if_splits)
      have "\<exists>uc m n. (Upload uc m n c, Inr (Uploaded i)) \<in> set es \<and> user_id uc = u"
        by (rule conjunct1[OF snoc.IH[folded v_def, OF old(1)]])
      moreover have "e = (ScanResult g i st at, Inr a)" using e old by simp
      ultimately show ?thesis unfolding set_append by fastforce
    qed (use now False in \<open>simp_all add: apply_event_Inl\<close>)
  qed
qed simp

text \<open>C34.
  A file reaches ICM only clean, whole and from its owner. If, after any sequence of requests to an
  empty table, submitting an attachment makes a request to ICM, then it is one upload for the given
  service request, its base64 text decodes to bytes that the same user uploaded under that scan id,
  of an allowed type and at most 5 MB, and the scanner, showing the webhook secret, reported CLEAN
  for that id.
\<close>

theorem only_clean_own_files_reach_icm:
  assumes "steps (att_step icm expected) s es t" and "scan_jobs s = Map.empty"
    and "submit_attachment_route icm (Inr u) sr i f t = (r, t')" and "icm_log t' \<noteq> icm_log t"
  shows "\<exists>enc c uc m n at a. icm_log t' = icm_log t @
      [upload_attachment_req sr (JObj [(''filename'', JStr f), (''content_base64'', JStr enc)])] \<and> b64decode enc = c \<and>
    (Upload uc m n c, Inr (Uploaded i)) \<in> set es \<and> user_id uc = user_id u \<and> mime_allowed m \<and> length c \<le> MAX_FILE_SIZE \<and>
    (ScanResult (Some expected) i CLEAN at, Inr a) \<in> set es \<and> expected \<noteq> []"
proof -
  have t': "t' = snd (submit_attachment icm sr i f (user_id u) t)"
    using assms(3) by (simp add: submit_attachment_route_def as_user_def) (metis reraise_state snd_conv)
  obtain job where job: "scan_jobs t i = Some job" "job_user job = user_id u"
    using assms(4) unfolding t' by (auto simp: submit_attachment_def own_job_def bind_def split: option.splits if_splits)
  have clean: "job_status job = CLEAN" and log: "icm_log t' = icm_log t @ [upload_attachment_req sr (upload_json f (job_content job))]"
    using assms(4) job unfolding t'
    by (cases "job_status job"; auto simp: submit_attachment_def own_job_def bind_def icm_call_def split: sum.splits)+
  note hist = scan_table_refines_events[OF assms(1)]
  have "table_view s = Map.empty" using assms(2) by (intro ext) (simp add: table_view_def)
  then have "foldl apply_event Map.empty es i = Some (user_id u, job_content job, CLEAN)"
    using hist job clean by (metis job_view_def option.simps(9) table_view_def)
  from fold_events[OF this] obtain uc m n g at a where
    ev: "(Upload uc m n (job_content job), Inr (Uploaded i)) \<in> set es" "user_id uc = user_id u"
      "(ScanResult g i CLEAN at, Inr a) \<in> set es" by auto
  then have "event_ok expected (Upload uc m n (job_content job), Inr (Uploaded i))" "event_ok expected (ScanResult g i CLEAN at, Inr a)"
    using hist by (auto simp: list_all_iff)
  then show ?thesis using log ev
    by (intro exI[of _ "b64encode (job_content job)"], simp add: upload_json_def b64_roundtrip) blast
qed

theorem only_clean_own_files_reach_icm_witness:
  "\<exists>enc t'. snd (submit_attachment_route demo_stores (Inr demo_owner) ''7'' ''k'' ''f'' demo_scanned) = t' \<and>
     icm_log t' = [upload_attachment_req ''7'' (JObj [(''filename'', JStr ''f''), (''content_base64'', JStr enc)])] \<and>
     b64decode enc = [77, 97]"
proof -
  obtain r t' where sub: "submit_attachment_route demo_stores (Inr demo_owner) ''7'' ''k'' ''f'' demo_scanned = (r, t')"
    by (cases "submit_attachment_route demo_stores (Inr demo_owner) ''7'' ''k'' ''f'' demo_scanned")
  have "t' = snd (submit_attachment demo_stores ''7'' ''k'' ''f'' ''a'' demo_scanned)"
    using sub by (simp add: submit_attachment_route_def as_user_def demo_owner_def make_user_def) (metis reraise_state snd_conv)
  then have "icm_log t' \<noteq> icm_log demo_scanned"
    by (simp add: submit_attachment_def own_job_def bind_def icm_call_def demo_scanned_def demo_job_def demo_stores_def)
  moreover have "scan_jobs demo_att = Map.empty" by (simp add: demo_att_def)
  ultimately obtain enc c uc m n where log: "icm_log t' = icm_log demo_scanned @
      [upload_attachment_req ''7'' (JObj [(''filename'', JStr ''f''), (''content_base64'', JStr enc)])]" "b64decode enc = c"
      "(Upload uc m n c, Inr (Uploaded ''k'')) \<in> set demo_events"
    using only_clean_own_files_reach_icm[OF demo_att_run _ sub] by blast
  moreover have "icm_log demo_scanned = []" by (simp add: demo_scanned_def demo_att_def)
  ultimately show ?thesis using sub by (auto simp: demo_events_def)
qed

section \<open>Downloads\<close>

text \<open>No answer of ICM has bytes for a content, so that a download that succeeds is empty.\<close>

lemma stream_attachment_empty: "stream_attachment p = Inr (x, h) \<Longrightarrow> x = []"
  by (auto simp: stream_attachment_def bytes_io_null split: option.splits)

lemma download_sr_empty: "fst (download_sr_attachment icm auth sr_id s) = Inr (x, h) \<Longrightarrow> x = []"
  by (auto simp: download_sr_attachment_def as_user_def bind_def split: sum.splits prod.splits dest: stream_attachment_empty)

lemma download_message_empty: "fst (download_message_attachment icm auth msg att s) = Inr (x, h) \<Longrightarrow> x = []"
  by (auto simp: download_message_attachment_def as_user_def bind_def split: sum.splits prod.splits dest: stream_attachment_empty)

end
