(* ===== verification/Mock_Data.thy ===== *)
theory Mock_Data
  imports Attachments
begin

text \<open>
  The canned answers of the mock ICM clients, \<open>app/services/icm/mock/data.py\<close>: three personas, their
  data by domain, and the functions that resolve an identifier or compute dates from today. A Python
  dict is the list of its items in order.
\<close>

section \<open>Dates from today\<close>

text \<open>\<open>date + timedelta(days=n)\<close>, within the years 1 to 9999.\<close>

definition next_day :: "date \<Rightarrow> date" where
  "next_day d =
     (if day d < days_in_month (year d) (month d) then Date (year d) (month d) (day d + 1)
      else if month d < 12 then Date (year d) (month d + 1) 1 else Date (year d + 1) 1 1)"

definition prev_day :: "date \<Rightarrow> date" where
  "prev_day d =
     (if 1 < day d then Date (year d) (month d) (day d - 1)
      else if 1 < month d then Date (year d) (month d - 1) (days_in_month (year d) (month d - 1))
      else Date (year d - 1) 12 31)"

definition add_days :: "date \<Rightarrow> int \<Rightarrow> date" where
  "add_days d n = (if 0 \<le> n then (next_day ^^ nat n) d else (prev_day ^^ nat (- n)) d)"

definition replace_day :: "date \<Rightarrow> int \<Rightarrow> date" where
  "replace_day d n = Date (year d) (month d) n"

definition padded :: "nat \<Rightarrow> int \<Rightarrow> string" where
  "padded n i = (let t = show_int i in replicate (n - length t) CHR ''0'' @ t)"

definition isoformat :: "date \<Rightarrow> string" where
  "isoformat d = padded 4 (year d) @ ''-'' @ padded 2 (month d) @ ''-'' @ padded 2 (day d)"

text \<open>
  What a mock client reads besides its arguments: \<open>_today()\<close>, \<open>_now().isoformat()\<close>,
  \<open>uuid4().hex[:6]\<close> and \<open>str.lower\<close>.
\<close>

record mock_env =
  today :: date
  now_text :: string
  hex6 :: string
  lower :: "string \<Rightarrow> string"

section \<open>Personas\<close>

definition ALICE_USER_ID :: string where
  "ALICE_USER_ID = ''a0000000-0000-0000-0000-000000000001''"

definition BOB_USER_ID :: string where
  "BOB_USER_ID = ''b0000000-0000-0000-0000-000000000002''"

definition CAROL_USER_ID :: string where
  "CAROL_USER_ID = ''c0000000-0000-0000-0000-000000000003''"

definition ALICE_BCEID :: string where
  "ALICE_BCEID = ''alice-bceid-1001''"

definition BOB_BCEID :: string where
  "BOB_BCEID = ''bob-bceid-1002''"

definition CAROL_BCEID :: string where
  "CAROL_BCEID = ''carol-bceid-1003''"

definition ALICE_PROFILE_ID :: string where
  "ALICE_PROFILE_ID = ''a1000000-0000-0000-0000-000000000001''"

definition BOB_PROFILE_ID :: string where
  "BOB_PROFILE_ID = ''b1000000-0000-0000-0000-000000000002''"

definition CAROL_PROFILE_ID :: string where
  "CAROL_PROFILE_ID = ''c1000000-0000-0000-0000-000000000003''"

definition ALICE_PORTAL_ID :: string where
  "ALICE_PORTAL_ID = ''PTL-ALICE-001''"

definition BOB_PORTAL_ID :: string where
  "BOB_PORTAL_ID = ''PTL-BOB-002''"

definition CAROL_PORTAL_ID :: string where
  "CAROL_PORTAL_ID = ''PTL-CAROL-003''"

definition ALICE_MIS_ID :: string where
  "ALICE_MIS_ID = ''MIS-001''"

definition BOB_MIS_ID :: string where
  "BOB_MIS_ID = ''MIS-002''"

definition CAROL_MIS_ID :: string where
  "CAROL_MIS_ID = ''MIS-003''"

definition ALICE_CASE :: string where
  "ALICE_CASE = ''100100''"

definition BOB_CASE :: string where
  "BOB_CASE = ''100200''"

definition CAROL_CASE :: string where
  "CAROL_CASE = ''100300''"

definition WORKER_IDIR :: string where
  "WORKER_IDIR = ''jsmith''"

definition BCEID_TO_PROFILE_ID :: "(string \<times> string) list" where
  "BCEID_TO_PROFILE_ID =
     [(ALICE_BCEID, ALICE_PROFILE_ID), (BOB_BCEID, BOB_PROFILE_ID), (CAROL_BCEID, CAROL_PROFILE_ID)]"

definition BCEID_TO_CASE :: "(string \<times> string) list" where
  "BCEID_TO_CASE =
     [(ALICE_BCEID, ALICE_CASE), (BOB_BCEID, BOB_CASE), (CAROL_BCEID, CAROL_CASE)]"

definition PROFILE_TO_CASE :: "(string \<times> string) list" where
  "PROFILE_TO_CASE =
     [(ALICE_PROFILE_ID, ALICE_CASE), (BOB_PROFILE_ID, BOB_CASE), (CAROL_PROFILE_ID, CAROL_CASE)]"

definition CASE_TO_PROFILE :: "(string \<times> string) list" where
  "CASE_TO_PROFILE = map prod.swap PROFILE_TO_CASE"

definition USER_TO_PROFILE :: "(string \<times> string) list" where
  "USER_TO_PROFILE =
     [(ALICE_USER_ID, ALICE_PROFILE_ID), (BOB_USER_ID, BOB_PROFILE_ID), (CAROL_USER_ID, CAROL_PROFILE_ID)]"

definition USER_TO_CASE :: "(string \<times> string) list" where
  "USER_TO_CASE =
     [(ALICE_USER_ID, ALICE_CASE), (BOB_USER_ID, BOB_CASE), (CAROL_USER_ID, CAROL_CASE)]"

definition DEFAULT_PROFILE_ID :: string where
  "DEFAULT_PROFILE_ID = ALICE_PROFILE_ID"

definition DEFAULT_CASE :: string where
  "DEFAULT_CASE = ALICE_CASE"

definition resolve_profile_id :: "string \<Rightarrow> string" where
  "resolve_profile_id i =
     (case map_of USER_TO_PROFILE i of Some p \<Rightarrow> p
      | None \<Rightarrow> (case map_of BCEID_TO_PROFILE_ID i of Some p \<Rightarrow> p | None \<Rightarrow> i))"

definition resolve_case_number :: "string \<Rightarrow> string" where
  "resolve_case_number i =
     (case map_of USER_TO_CASE i of Some c \<Rightarrow> c
      | None \<Rightarrow> (case map_of BCEID_TO_CASE i of Some c \<Rightarrow> c
      | None \<Rightarrow> (case map_of PROFILE_TO_CASE i of Some c \<Rightarrow> c | None \<Rightarrow> DEFAULT_CASE)))"

definition MOCK_PDF_BYTES :: string where
  "MOCK_PDF_BYTES =
     ''%PDF-1.4'' @ [CHR 10] @ ''1 0 obj<</Type/Catalog/Pages 2 0 R>>endobj'' @ [CHR 10] @
     ''2 0 obj<</Type/Pages/Kids[3 0 R]/Count 1>>endobj'' @ [CHR 10] @
     ''3 0 obj<</Type/Page/MediaBox[0 0 612 792]/Parent 2 0 R>>endobj'' @ [CHR 10] @
     ''xref'' @ [CHR 10] @ ''0 4'' @ [CHR 10] @ ''trailer<</Size 4/Root 1 0 R>>'' @ [CHR 10] @ ''startxref'' @ [CHR 10] @
     ''0'' @ [CHR 10] @ ''%%EOF''"

definition MOCK_PDF_BASE64 :: string where
  "MOCK_PDF_BASE64 = b64encode (map (\<lambda>c. of_nat (of_char c)) MOCK_PDF_BYTES)"

section \<open>Account, tombstones and profiles\<close>

definition ACCOUNT_PROFILES :: kvs where
  "ACCOUNT_PROFILES =
     [(ALICE_USER_ID, JObj [(''user_id'', JStr ALICE_USER_ID), (''email'', JStr ''alice.thompson@example.com''),
         (''phone_numbers'', JArr [JObj [(''phone_id'', JStr ''PH-A1''), (''phone_number'', JStr ''604-555-0101''),
              (''phone_type'', JStr ''CELL'')]]), (''case_number'', JStr ALICE_CASE),
         (''case_status'', JStr ''Active''), (''first_name'', JStr ''Alice''),
         (''last_name'', JStr ''Thompson'')]),
      (BOB_USER_ID, JObj [(''user_id'', JStr BOB_USER_ID), (''email'', JStr ''bob.chen@example.com''),
         (''phone_numbers'', JArr [JObj [(''phone_id'', JStr ''PH-B1''), (''phone_number'', JStr ''778-555-0202''),
              (''phone_type'', JStr ''HOME'')],
             JObj [(''phone_id'', JStr ''PH-B2''), (''phone_number'', JStr ''604-555-0203''),
              (''phone_type'', JStr ''CELL'')]]), (''case_number'', JStr BOB_CASE),
         (''case_status'', JStr ''Active''), (''first_name'', JStr ''Bob''), (''last_name'', JStr ''Chen'')]),
      (CAROL_USER_ID, JObj [(''user_id'', JStr CAROL_USER_ID), (''email'', JStr ''carol.williams@example.com''),
         (''phone_numbers'', JArr [JObj [(''phone_id'', JStr ''PH-C1''), (''phone_number'', JStr ''250-555-0303''),
              (''phone_type'', JStr ''HOME'')]]), (''case_number'', JStr CAROL_CASE),
         (''case_status'', JStr ''Closed''), (''first_name'', JStr ''Carol''),
         (''last_name'', JStr ''Williams'')])]"

definition CASE_MEMBERS :: kvs where
  "CASE_MEMBERS =
     [(ALICE_USER_ID, JObj [(''members'', JArr [JObj [(''name'', JStr ''Lily Thompson''), (''relationship'', JStr ''Child'')]])]),
      (BOB_USER_ID, JObj [(''members'', JArr [JObj [(''name'', JStr ''Maria Chen''), (''relationship'', JStr ''Spouse'')],
             JObj [(''name'', JStr ''Emily Chen''), (''relationship'', JStr ''Child'')],
             JObj [(''name'', JStr ''James Chen''), (''relationship'', JStr ''Child'')]])]),
      (CAROL_USER_ID, JObj [(''members'', JArr [])])]"

definition TOMBSTONES :: kvs where
  "TOMBSTONES =
     [(ALICE_BCEID, JObj [(''bceid_guid'', JStr ALICE_BCEID), (''first_name'', JStr ''Alice''),
         (''last_name'', JStr ''Thompson''), (''date_of_birth'', JStr ''1990-03-15''), (''gender'', JStr ''F''),
         (''email'', JStr ''alice.thompson@example.com''), (''phone_number'', JStr ''604-555-0101''),
         (''phone_type'', JStr ''CELL''),
         (''address'', JObj [(''street'', JStr ''123 Main St''), (''city'', JStr ''Vancouver''), (''province'', JStr ''BC''),
            (''postal_code'', JStr ''V5K 0A1'')]), (''case_number'', JStr ALICE_CASE),
         (''case_status'', JStr ''Active'')]),
      (BOB_BCEID, JObj [(''bceid_guid'', JStr BOB_BCEID), (''first_name'', JStr ''Bob''), (''last_name'', JStr ''Chen''),
         (''date_of_birth'', JStr ''1985-07-22''), (''gender'', JStr ''M''),
         (''email'', JStr ''bob.chen@example.com''), (''phone_number'', JStr ''778-555-0202''),
         (''phone_type'', JStr ''HOME''),
         (''address'', JObj [(''street'', JStr ''456 Oak Ave''), (''city'', JStr ''Surrey''), (''province'', JStr ''BC''),
            (''postal_code'', JStr ''V3T 1Z4'')]), (''case_number'', JStr BOB_CASE),
         (''case_status'', JStr ''Active'')]),
      (CAROL_BCEID, JObj [(''bceid_guid'', JStr CAROL_BCEID), (''first_name'', JStr ''Carol''),
         (''last_name'', JStr ''Williams''), (''date_of_birth'', JStr ''1978-11-02''), (''gender'', JStr ''F''),
         (''email'', JStr ''carol.williams@example.com''), (''phone_number'', JStr ''250-555-0303''),
         (''phone_type'', JStr ''HOME''),
         (''address'', JObj [(''street'', JStr ''789 Cedar Rd''), (''city'', JStr ''Victoria''), (''province'', JStr ''BC''),
            (''postal_code'', JStr ''V8W 2C3'')]), (''case_number'', JStr CAROL_CASE),
         (''case_status'', JStr ''Closed'')])]"

definition PROFILE_DATA :: kvs where
  "PROFILE_DATA =
     [(ALICE_BCEID, JObj [(''bceid_guid'', JStr ALICE_BCEID), (''portal_id'', JStr ALICE_PORTAL_ID),
         (''profile_id'', JStr ALICE_PROFILE_ID), (''link_code'', JStr ''LINKED''),
         (''case_number'', JStr ALICE_CASE), (''case_status'', JStr ''Active'')]),
      (BOB_BCEID, JObj [(''bceid_guid'', JStr BOB_BCEID), (''portal_id'', JStr BOB_PORTAL_ID),
         (''profile_id'', JStr BOB_PROFILE_ID), (''link_code'', JStr ''LINKED''),
         (''case_number'', JStr BOB_CASE), (''case_status'', JStr ''Active'')]),
      (CAROL_BCEID, JObj [(''bceid_guid'', JStr CAROL_BCEID), (''portal_id'', JStr CAROL_PORTAL_ID),
         (''profile_id'', JStr CAROL_PROFILE_ID), (''link_code'', JStr ''UNLINKED''),
         (''case_number'', JStr CAROL_CASE), (''case_status'', JStr ''Closed'')])]"

section \<open>Payments\<close>

text \<open>The three windows of \<open>_cheque_schedule\<close>; the argument is not used.\<close>

definition schedule_month :: "date \<Rightarrow> nat \<Rightarrow> date" where
  "schedule_month d i = replace_day (add_days (replace_day d 1) (32 * int i)) 1"

definition window_json :: "date \<Rightarrow> json" where
  "window_json m =
     JObj [(''benefit_month'', JStr (isoformat m)), (''income_date'', JStr (isoformat (add_days m (- 10)))),
       (''cheque_issue_date'', JStr (isoformat (add_days m 20))), (''period_close_date'', JStr (isoformat (add_days m 15)))]"

definition cheque_schedule :: "mock_env \<Rightarrow> string \<Rightarrow> json" where
  "cheque_schedule m case_no =
     JObj [(''schedule'', JArr (map (\<lambda>i. window_json (schedule_month (today m) i)) [0, 1, 2]))]"

text \<open>\<open>d[k]\<close> on an object that has the key.\<close>

definition subscript :: "json \<Rightarrow> string \<Rightarrow> json" where
  "subscript d k = (case obj_item d k of Inr v \<Rightarrow> v | Inl e \<Rightarrow> JNull)"

definition PAYMENT_INFO :: kvs where
  "PAYMENT_INFO =
     [(ALICE_CASE, JObj [(''upcoming_benefit_date'', JNull), (''assistance_type'', JStr ''EA''),
         (''supplements'', JArr [JObj [(''code'', JStr ''32''), (''amount'', JStr ''50.00''), (''effective_date'', JStr ''2025-01-01'')]]),
         (''service_provider_payments'', JArr []),
         (''mis_data'', JObj [(''mis_person_id'', JStr ALICE_MIS_ID), (''key_player_name'', JStr ''Alice Thompson''),
            (''spouse_name'', JNull), (''payment_method'', JStr ''Direct Deposit''),
            (''payment_distribution'', JStr ''Single''),
            (''allowances'', JArr [JObj [(''code'', JInt 41), (''amount'', JStr ''760.00''), (''description'', JStr ''Support'')],
                JObj [(''code'', JInt 42), (''amount'', JStr ''500.00''), (''description'', JStr ''Shelter'')],
                JObj [(''code'', JInt 32), (''amount'', JStr ''50.00''),
                 (''description'', JStr ''Housing Stability Supplement'')]]),
            (''deductions'', JArr [JObj [(''code'', JStr ''99''), (''amount'', JStr ''50.00''),
                 (''description'', JStr ''Earned Income Exemption'')]]),
            (''aee_balance'', JStr ''200.00'')])]),
      (BOB_CASE, JObj [(''upcoming_benefit_date'', JNull), (''assistance_type'', JStr ''EA''),
         (''supplements'', JArr [JObj [(''code'', JStr ''32''), (''amount'', JStr ''75.00''), (''effective_date'', JStr ''2025-01-01'')],
             JObj [(''code'', JStr ''73''), (''amount'', JStr ''45.00''), (''effective_date'', JStr ''2025-06-01'')]]),
         (''service_provider_payments'', JArr [JObj [(''provider_name'', JStr ''BC Hydro''), (''amount'', JStr ''120.00''),
              (''payment_date'', JStr ''2026-03-15'')]]),
         (''mis_data'', JObj [(''mis_person_id'', JStr BOB_MIS_ID), (''key_player_name'', JStr ''Bob Chen''),
            (''spouse_name'', JStr ''Maria Chen''), (''payment_method'', JStr ''Direct Deposit''),
            (''payment_distribution'', JStr ''Couple''),
            (''allowances'', JArr [JObj [(''code'', JInt 41), (''amount'', JStr ''1120.00''), (''description'', JStr ''Support'')],
                JObj [(''code'', JInt 42), (''amount'', JStr ''750.00''), (''description'', JStr ''Shelter'')],
                JObj [(''code'', JInt 32), (''amount'', JStr ''75.00''),
                 (''description'', JStr ''Housing Stability Supplement'')],
                JObj [(''code'', JInt 73), (''amount'', JStr ''45.00''),
                 (''description'', JStr ''Hardship/Comforts'')]]), (''deductions'', JArr []),
            (''aee_balance'', JStr ''0.00'')])]),
      (CAROL_CASE, JObj [(''upcoming_benefit_date'', JNull), (''assistance_type'', JStr ''EA''), (''supplements'', JArr []),
         (''service_provider_payments'', JArr []),
         (''mis_data'', JObj [(''mis_person_id'', JStr CAROL_MIS_ID), (''key_player_name'', JStr ''Carol Williams''),
            (''spouse_name'', JNull), (''payment_method'', JStr ''Cheque''),
            (''payment_distribution'', JStr ''Single''), (''allowances'', JArr []), (''deductions'', JArr []),
            (''aee_balance'', JStr ''0.00'')])])]"

definition T5007_SLIPS :: kvs where
  "T5007_SLIPS =
     [(ALICE_PROFILE_ID, JObj [(''slips'', JArr [JObj [(''tax_year'', JInt 2025), (''box_10_amount'', JStr ''15720.00''),
              (''box_11_amount'', JStr ''0.00''), (''available'', JBool True)],
             JObj [(''tax_year'', JInt 2024), (''box_10_amount'', JStr ''14880.00''),
              (''box_11_amount'', JStr ''0.00''), (''available'', JBool True)]])]),
      (BOB_PROFILE_ID, JObj [(''slips'', JArr [JObj [(''tax_year'', JInt 2025), (''box_10_amount'', JStr ''23280.00''),
              (''box_11_amount'', JStr ''540.00''), (''available'', JBool True)],
             JObj [(''tax_year'', JInt 2024), (''box_10_amount'', JStr ''22100.00''),
              (''box_11_amount'', JStr ''540.00''), (''available'', JBool True)]])]),
      (CAROL_PROFILE_ID, JObj [(''slips'', JArr [])])]"

definition T5_HISTORY_YEARS :: kvs where
  "T5_HISTORY_YEARS =
     [(ALICE_PROFILE_ID, JObj [(''years'', JArr [JInt 2025,
             JInt 2024])]),
      (BOB_PROFILE_ID, JObj [(''years'', JArr [JInt 2025,
             JInt 2024])]), (CAROL_PROFILE_ID, JObj [(''years'', JArr [])])]"

definition MIS_DATA :: kvs where
  "MIS_DATA =
     [(ALICE_PROFILE_ID, subscript (the (map_of PAYMENT_INFO ALICE_CASE)) ''mis_data''),
      (BOB_PROFILE_ID, subscript (the (map_of PAYMENT_INFO BOB_CASE)) ''mis_data''),
      (CAROL_PROFILE_ID, subscript (the (map_of PAYMENT_INFO CAROL_CASE)) ''mis_data'')]"

section \<open>Notifications and messages\<close>

definition BANNERS :: kvs where
  "BANNERS =
     [(ALICE_CASE, JObj [(''banners'', JArr [JObj [(''notification_id'', JStr ''BNR-001''),
              (''body'', JStr ''Scheduled maintenance: March 29, 10PM-2AM. Some services may be unavailable.''),
              (''start_date'', JStr ''2026-03-25''), (''end_date'', JStr ''2026-03-30'')],
             JObj [(''notification_id'', JStr ''BNR-002''),
              (''body'', JStr ''New: You can now view T5007 tax slips online for 2025.''),
              (''start_date'', JStr ''2026-02-01''), (''end_date'', JStr ''2026-04-30'')]])]),
      (BOB_CASE, JObj [(''banners'', JArr [JObj [(''notification_id'', JStr ''BNR-001''),
              (''body'', JStr ''Scheduled maintenance: March 29, 10PM-2AM. Some services may be unavailable.''),
              (''start_date'', JStr ''2026-03-25''), (''end_date'', JStr ''2026-03-30'')]])]),
      (CAROL_CASE, JObj [(''banners'', JArr [])])]"

definition MESSAGES :: kvs where
  "MESSAGES =
     [(ALICE_PROFILE_ID, JObj [(''messages'', JArr [JObj [(''message_id'', JStr ''MSG-A001''), (''subject'', JStr ''Monthly Report Reminder''),
              (''sent_date'', JStr ''2026-03-15T09:00:00Z''), (''is_read'', JBool False),
              (''can_reply'', JBool False), (''message_type'', JStr ''HR0081'')],
             JObj [(''message_id'', JStr ''MSG-A002''), (''subject'', JStr ''Service Request Received''),
              (''sent_date'', JStr ''2026-03-10T14:30:00Z''), (''is_read'', JBool True),
              (''can_reply'', JBool False), (''message_type'', JStr ''FormSubmission'')],
             JObj [(''message_id'', JStr ''MSG-A003''), (''subject'', JStr ''Important Update About Your Benefits''),
              (''sent_date'', JStr ''2026-03-01T10:00:00Z''), (''is_read'', JBool True),
              (''can_reply'', JBool True), (''message_type'', JStr ''General'')]]),
         (''total'', JInt 3)]),
      (BOB_PROFILE_ID, JObj [(''messages'', JArr [JObj [(''message_id'', JStr ''MSG-B001''), (''subject'', JStr ''Monthly Report Restart Required''),
              (''sent_date'', JStr ''2026-03-18T11:00:00Z''), (''is_read'', JBool False),
              (''can_reply'', JBool False), (''message_type'', JStr ''HR0081Restart'')],
             JObj [(''message_id'', JStr ''MSG-B002''), (''subject'', JStr ''Employment Plan Ready for Signature''),
              (''sent_date'', JStr ''2026-03-05T08:00:00Z''), (''is_read'', JBool True),
              (''can_reply'', JBool False), (''message_type'', JStr ''General'')],
             JObj [(''message_id'', JStr ''MSG-B003''), (''subject'', JStr ''Previous Employment Plan Signed''),
              (''sent_date'', JStr ''2025-09-16T10:00:00Z''), (''is_read'', JBool True),
              (''can_reply'', JBool False), (''message_type'', JStr ''General'')]]),
         (''total'', JInt 3)]), (CAROL_PROFILE_ID, JObj [(''messages'', JArr []), (''total'', JInt 0)])]"

definition MESSAGE_DETAILS :: kvs where
  "MESSAGE_DETAILS =
     [(''MSG-A001'', JObj [(''message_id'', JStr ''MSG-A001''), (''subject'', JStr ''Monthly Report Reminder''),
         (''sent_date'', JStr ''2026-03-15T09:00:00Z''), (''is_read'', JBool False),
         (''can_reply'', JBool False), (''message_type'', JStr ''HR0081''),
         (''body'', JStr ''Your monthly report for March 2026 is due. Please submit it before the period close date to avoid delays in your benefit payment.''),
         (''attachments'', JArr [])]),
      (''MSG-A002'', JObj [(''message_id'', JStr ''MSG-A002''), (''subject'', JStr ''Service Request Received''),
         (''sent_date'', JStr ''2026-03-10T14:30:00Z''), (''is_read'', JBool True),
         (''can_reply'', JBool False), (''message_type'', JStr ''FormSubmission''),
         (''body'', JStr ''We have received your service request SR-100101. You will be notified when it has been reviewed.''),
         (''attachments'', JArr [JObj [(''attachment_id'', JStr ''ATT-001''),
              (''filename'', JStr ''T4_2025_Pacific_Coast_Catering.pdf'')]])]),
      (''MSG-A003'', JObj [(''message_id'', JStr ''MSG-A003''), (''subject'', JStr ''Important Update About Your Benefits''),
         (''sent_date'', JStr ''2026-03-01T10:00:00Z''), (''is_read'', JBool True), (''can_reply'', JBool True),
         (''message_type'', JStr ''General''),
         (''body'', JStr ''Effective April 1, 2026, shelter allowance rates have been updated. Please review your payment information for details.''),
         (''attachments'', JArr [])]),
      (''MSG-B001'', JObj [(''message_id'', JStr ''MSG-B001''), (''subject'', JStr ''Monthly Report Restart Required''),
         (''sent_date'', JStr ''2026-03-18T11:00:00Z''), (''is_read'', JBool False),
         (''can_reply'', JBool False), (''message_type'', JStr ''HR0081Restart''),
         (''body'', JStr ''Your monthly report for March 2026 requires additional information. Please restart and resubmit.''),
         (''attachments'', JArr [])]),
      (''MSG-B002'', JObj [(''message_id'', JStr ''MSG-B002''), (''subject'', JStr ''Employment Plan Ready for Signature''),
         (''sent_date'', JStr ''2026-03-05T08:00:00Z''), (''is_read'', JBool True),
         (''can_reply'', JBool False), (''message_type'', JStr ''General''),
         (''body'', JStr ''Your employment plan EP-B001 is ready for your electronic signature. Please review and sign at your earliest convenience.''),
         (''attachments'', JArr [JObj [(''attachment_id'', JStr ''ATT-EP-001''), (''filename'', JStr ''employment_plan_2026.pdf'')]])]),
      (''MSG-B003'', JObj [(''message_id'', JStr ''MSG-B003''), (''subject'', JStr ''Previous Employment Plan Signed''),
         (''sent_date'', JStr ''2025-09-16T10:00:00Z''), (''is_read'', JBool True),
         (''can_reply'', JBool False), (''message_type'', JStr ''General''),
         (''body'', JStr ''Your employment plan EP-B002 has been signed and submitted. Your worker will follow up with next steps.''),
         (''attachments'', JArr [JObj [(''attachment_id'', JStr ''ATT-EP-002''), (''filename'', JStr ''employment_plan_2025.pdf'')]])])]"

section \<open>Service requests\<close>

definition SR_LISTS :: kvs where
  "SR_LISTS =
     [(ALICE_PROFILE_ID, JObj [(''items'', JArr [JObj [(''sr_id'', JStr ''SR-A001''), (''sr_type'', JStr ''ASSIST''),
              (''sr_number'', JStr ''SR-100101''), (''status'', JStr ''Open''),
              (''client_name'', JStr ''Alice Thompson''), (''created_at'', JStr ''2026-03-10T14:30:00Z'')],
             JObj [(''sr_id'', JStr ''SR-A002''), (''sr_type'', JStr ''CRISIS_FOOD''),
              (''sr_number'', JStr ''SR-100102''), (''status'', JStr ''Submitted''),
              (''client_name'', JStr ''Alice Thompson''), (''created_at'', JStr ''2026-02-15T09:00:00Z'')]]),
         (''total'', JInt 2), (''page'', JInt 1), (''page_size'', JInt 10)]),
      (BOB_PROFILE_ID, JObj [(''items'', JArr [JObj [(''sr_id'', JStr ''SR-B001''), (''sr_type'', JStr ''DIRECT_DEPOSIT''),
              (''sr_number'', JStr ''SR-100201''), (''status'', JStr ''Cancelled''),
              (''client_name'', JStr ''Bob Chen''), (''created_at'', JStr ''2026-01-20T11:00:00Z'')]]),
         (''total'', JInt 1), (''page'', JInt 1), (''page_size'', JInt 10)]),
      (CAROL_PROFILE_ID, JObj [(''items'', JArr []), (''total'', JInt 0), (''page'', JInt 1), (''page_size'', JInt 10)])]"

definition SR_DETAILS :: kvs where
  "SR_DETAILS =
     [(''SR-A001'', JObj [(''sr_id'', JStr ''SR-A001''), (''sr_type'', JStr ''ASSIST''), (''sr_number'', JStr ''SR-100101''),
         (''status'', JStr ''Open''), (''client_name'', JStr ''Alice Thompson''),
         (''created_at'', JStr ''2026-03-10T14:30:00Z''),
         (''answers'', JObj [(''employment_status'', JStr ''unemployed''), (''seeking_employment'', JBool True),
            (''last_employer'', JStr ''Pacific Coast Catering''),
            (''last_employment_date'', JStr ''2025-11-15''), (''reason_for_leaving'', JStr ''Contract ended''),
            (''monthly_expenses'', JStr ''1450.00'')]),
         (''attachments'', JArr [JObj [(''attachment_id'', JStr ''ATT-001''),
              (''filename'', JStr ''T4_2025_Pacific_Coast_Catering.pdf'')]])]),
      (''SR-A002'', JObj [(''sr_id'', JStr ''SR-A002''), (''sr_type'', JStr ''CRISIS_FOOD''),
         (''sr_number'', JStr ''SR-100102''), (''status'', JStr ''Submitted''),
         (''client_name'', JStr ''Alice Thompson''), (''created_at'', JStr ''2026-02-15T09:00:00Z''),
         (''answers'', JObj [(''crisis_type'', JStr ''food''), (''amount_requested'', JStr ''200.00''),
            (''household_size'', JInt 2), (''last_grocery_date'', JStr ''2026-02-10''),
            (''description'', JStr ''Unexpected expense depleted food budget for the month'')]),
         (''attachments'', JArr [])]),
      (''SR-B001'', JObj [(''sr_id'', JStr ''SR-B001''), (''sr_type'', JStr ''DIRECT_DEPOSIT''),
         (''sr_number'', JStr ''SR-100201''), (''status'', JStr ''Cancelled''),
         (''client_name'', JStr ''Bob Chen''), (''created_at'', JStr ''2026-01-20T11:00:00Z''),
         (''answers'', JObj [(''bank_name'', JStr ''TD Canada Trust''), (''transit_number'', JStr ''00123''),
            (''institution_number'', JStr ''004''), (''account_number'', JStr ''1234567''),
            (''account_holder_name'', JStr ''Bob Chen'')]), (''attachments'', JArr [])])]"

definition ELIGIBLE_SR_TYPES :: kvs where
  "ELIGIBLE_SR_TYPES =
     [(''Active'', JObj [(''types'', JArr [JObj [(''sr_type'', JStr ''ASSIST''), (''display_name'', JStr ''Income Assistance''),
              (''requires_pin'', JBool True), (''has_attachments'', JBool False), (''max_active'', JInt 1)],
             JObj [(''sr_type'', JStr ''CRISIS_FOOD''), (''display_name'', JStr ''Crisis - Food''),
              (''requires_pin'', JBool True), (''has_attachments'', JBool False), (''max_active'', JInt 1)],
             JObj [(''sr_type'', JStr ''CRISIS_SHELTER''), (''display_name'', JStr ''Crisis - Shelter''),
              (''requires_pin'', JBool True), (''has_attachments'', JBool True), (''max_active'', JInt 1)],
             JObj [(''sr_type'', JStr ''DIRECT_DEPOSIT''), (''display_name'', JStr ''Direct Deposit Change''),
              (''requires_pin'', JBool True), (''has_attachments'', JBool True), (''max_active'', JInt 1)],
             JObj [(''sr_type'', JStr ''DIET''), (''display_name'', JStr ''Diet Supplement''),
              (''requires_pin'', JBool True), (''has_attachments'', JBool True), (''max_active'', JInt 1)],
             JObj [(''sr_type'', JStr ''BUS_PASS''), (''display_name'', JStr ''Bus Pass''),
              (''requires_pin'', JBool True), (''has_attachments'', JBool False), (''max_active'', JInt 1)]])]),
      (''Closed'', JObj [(''types'', JArr [])])]"

definition SR_RETURN_ACTIONS :: kvs where
  "SR_RETURN_ACTIONS =
     [(''ASSIST'', JObj [(''sr_type'', JStr ''ASSIST''), (''action'', JStr ''submit''), (''requires_pin'', JBool True)]),
      (''CRISIS_FOOD'', JObj [(''sr_type'', JStr ''CRISIS_FOOD''), (''action'', JStr ''submit''), (''requires_pin'', JBool True)]),
      (''DIRECT_DEPOSIT'', JObj [(''sr_type'', JStr ''DIRECT_DEPOSIT''), (''action'', JStr ''submit''), (''requires_pin'', JBool True)])]"

section \<open>Monthly reports\<close>

definition report_period :: "mock_env \<Rightarrow> string \<Rightarrow> json" where
  "report_period m case_no = window_json (replace_day (today m) 1)"

definition MONTHLY_REPORTS :: kvs where
  "MONTHLY_REPORTS =
     [(ALICE_PROFILE_ID, JObj [(''reports'', JArr [JObj [(''sd81_id'', JStr ''SD81-A001''), (''benefit_month'', JStr ''2026-03-01''),
              (''status'', JStr ''PRT''), (''submitted_at'', JNull)],
             JObj [(''sd81_id'', JStr ''SD81-A002''), (''benefit_month'', JStr ''2026-02-01''),
              (''status'', JStr ''SUB''), (''submitted_at'', JStr ''2026-02-14T16:00:00Z'')],
             JObj [(''sd81_id'', JStr ''SD81-A003''), (''benefit_month'', JStr ''2026-01-01''),
              (''status'', JStr ''RES''), (''submitted_at'', JStr ''2026-01-18T10:00:00Z'')]]),
         (''total'', JInt 3)]),
      (BOB_PROFILE_ID, JObj [(''reports'', JArr [JObj [(''sd81_id'', JStr ''SD81-B001''), (''benefit_month'', JStr ''2026-03-01''),
              (''status'', JStr ''PRT''), (''submitted_at'', JNull)],
             JObj [(''sd81_id'', JStr ''SD81-B002''), (''benefit_month'', JStr ''2026-02-01''),
              (''status'', JStr ''SUB''), (''submitted_at'', JStr ''2026-02-12T14:00:00Z'')]]),
         (''total'', JInt 2)]), (CAROL_PROFILE_ID, JObj [(''reports'', JArr []), (''total'', JInt 0)])]"

definition QUESTIONNAIRE :: json where
  "QUESTIONNAIRE =
     JObj [(''questions'', JArr [JObj [(''field_id'', JStr ''income_amount''), (''label'', JStr ''Total income this month''),
           (''field_type'', JStr ''currency''), (''required'', JBool True)],
          JObj [(''field_id'', JStr ''income_source''), (''label'', JStr ''Source of income''),
           (''field_type'', JStr ''text''), (''required'', JBool False)],
          JObj [(''field_id'', JStr ''housing_change''), (''label'', JStr ''Has your housing situation changed?''),
           (''field_type'', JStr ''boolean''), (''required'', JBool True)],
          JObj [(''field_id'', JStr ''employment_change''), (''label'', JStr ''Has your employment changed?''),
           (''field_type'', JStr ''boolean''), (''required'', JBool True)]])]"

definition REPORT_SUMMARY :: kvs where
  "REPORT_SUMMARY =
     [(''SD81-A001'', JObj [(''sd81_id'', JStr ''SD81-A001''), (''benefit_month'', JStr ''2026-03-01''),
         (''status'', JStr ''PRT''), (''answers'', JObj [])]),
      (''SD81-A002'', JObj [(''sd81_id'', JStr ''SD81-A002''), (''benefit_month'', JStr ''2026-02-01''),
         (''status'', JStr ''SUB''),
         (''answers'', JObj [(''income_amount'', JStr ''800.00''), (''housing_change'', JBool False)])])]"

section \<open>Employment plans\<close>

definition EP_LISTS :: kvs where
  "EP_LISTS =
     [(ALICE_PROFILE_ID, JObj [(''plans'', JArr [])]),
      (BOB_PROFILE_ID, JObj [(''plans'', JArr [JObj [(''ep_id'', JStr ''EP-B001''), (''message_id'', JStr ''MSG-B002''),
              (''icm_attachment_id'', JStr ''ATT-EP-001''), (''status'', JStr ''PENDING_SIGNATURE''),
              (''plan_date'', JStr ''2026-03-01''), (''message_deleted'', JBool False)],
             JObj [(''ep_id'', JStr ''EP-B002''), (''message_id'', JStr ''MSG-B003''),
              (''icm_attachment_id'', JStr ''ATT-EP-002''), (''status'', JStr ''SUBMITTED''),
              (''plan_date'', JStr ''2025-09-15''), (''message_deleted'', JBool False)]])]),
      (CAROL_PROFILE_ID, JObj [(''plans'', JArr [])])]"

definition EP_DETAILS :: kvs where
  "EP_DETAILS =
     [(''EP-B001'', JObj [(''ep_id'', JStr ''EP-B001''), (''message_id'', JStr ''MSG-B002''),
         (''icm_attachment_id'', JStr ''ATT-EP-001''), (''status'', JStr ''PENDING_SIGNATURE''),
         (''plan_date'', JStr ''2026-03-01''), (''message_deleted'', JBool False)]),
      (''EP-B002'', JObj [(''ep_id'', JStr ''EP-B002''), (''message_id'', JStr ''MSG-B003''),
         (''icm_attachment_id'', JStr ''ATT-EP-002''), (''status'', JStr ''SUBMITTED''),
         (''plan_date'', JStr ''2025-09-15''), (''message_deleted'', JBool False)])]"

section \<open>Registration, administration, attachments\<close>

definition REGISTRATION_RESPONSES :: kvs where
  "REGISTRATION_RESPONSES =
     [(''new'', JObj [(''status'', JStr ''success''), (''sr_number'', JStr ''SR-REG-001''),
         (''message'', JStr ''Registration submitted successfully'')]),
      (''existing'', JObj [(''status'', JStr ''success''), (''portal_id'', JStr ALICE_PORTAL_ID),
         (''profile_id'', JStr ALICE_PROFILE_ID), (''message'', JStr ''Profile linked successfully'')])]"

definition LINK_OPTIONS :: kvs where
  "LINK_OPTIONS =
     [(ALICE_BCEID, JObj [(''options'', JArr [JStr ''portal_link''])]),
      (BOB_BCEID, JObj [(''options'', JArr [JStr ''portal_link''])]),
      (CAROL_BCEID, JObj [(''options'', JArr [])])]"

definition ADMIN_SEARCH_RESULTS :: json where
  "ADMIN_SEARCH_RESULTS =
     JObj [(''results'', JArr [JObj [(''portal_id'', JStr ALICE_PORTAL_ID), (''bceid_guid'', JStr ALICE_BCEID),
           (''case_number'', JStr ALICE_CASE), (''case_status'', JStr ''Active''),
           (''full_name'', JStr ''Alice Thompson'')],
          JObj [(''portal_id'', JStr BOB_PORTAL_ID), (''bceid_guid'', JStr BOB_BCEID),
           (''case_number'', JStr BOB_CASE), (''case_status'', JStr ''Active''),
           (''full_name'', JStr ''Bob Chen'')],
          JObj [(''portal_id'', JStr CAROL_PORTAL_ID), (''bceid_guid'', JStr CAROL_BCEID),
           (''case_number'', JStr CAROL_CASE), (''case_status'', JStr ''Closed''),
           (''full_name'', JStr ''Carol Williams'')]]), (''total'', JInt 3), (''page'', JInt 1),
      (''page_size'', JInt 10)]"

definition ADMIN_CLIENT_PROFILES :: kvs where
  "ADMIN_CLIENT_PROFILES =
     [(ALICE_BCEID, JObj [(''portal_id'', JStr ALICE_PORTAL_ID), (''bceid_guid'', JStr ALICE_BCEID),
         (''case_number'', JStr ALICE_CASE), (''case_status'', JStr ''Active''),
         (''full_name'', JStr ''Alice Thompson''), (''contact_id'', JStr ''CON-A001''),
         (''link_code'', JStr ''LINKED''), (''last_login'', JStr ''2026-03-20T10:00:00Z''),
         (''active_srs'', JArr [JObj [(''sr_number'', JStr ''SR-100101''), (''sr_type'', JStr ''ASSIST''), (''status'', JStr ''Open'')]])]),
      (BOB_BCEID, JObj [(''portal_id'', JStr BOB_PORTAL_ID), (''bceid_guid'', JStr BOB_BCEID),
         (''case_number'', JStr BOB_CASE), (''case_status'', JStr ''Active''),
         (''full_name'', JStr ''Bob Chen''), (''contact_id'', JStr ''CON-B001''),
         (''link_code'', JStr ''LINKED''), (''last_login'', JStr ''2026-03-19T14:30:00Z''),
         (''active_srs'', JArr [])]),
      (CAROL_BCEID, JObj [(''portal_id'', JStr CAROL_PORTAL_ID), (''bceid_guid'', JStr CAROL_BCEID),
         (''case_number'', JStr CAROL_CASE), (''case_status'', JStr ''Closed''),
         (''full_name'', JStr ''Carol Williams''), (''contact_id'', JStr ''CON-C001''),
         (''link_code'', JStr ''UNLINKED''), (''last_login'', JStr ''2026-01-15T08:00:00Z''),
         (''active_srs'', JArr [])])]"

definition WORKER_PERMISSIONS :: kvs where
  "WORKER_PERMISSIONS =
     [(WORKER_IDIR, JObj [(''idir_username'', JStr WORKER_IDIR),
         (''permissions'', JArr [JStr ''view_clients'',
             JStr ''search_clients'',
             JStr ''view_srs'',
             JStr ''manage_ao_registration''])])]"

definition ATTACHMENT_METADATA :: kvs where
  "ATTACHMENT_METADATA =
     [(''ATT-001'', JObj [(''attachment_id'', JStr ''ATT-001''), (''filename'', JStr ''T4_2025_Pacific_Coast_Catering.pdf''),
         (''mime_type'', JStr ''application/pdf''), (''size_bytes'', JInt 45000),
         (''uploaded_at'', JStr ''2026-03-10T14:35:00Z'')]),
      (''ATT-002'', JObj [(''attachment_id'', JStr ''ATT-002''), (''filename'', JStr ''TD_bank_statement_Feb_2026.pdf''),
         (''mime_type'', JStr ''application/pdf''), (''size_bytes'', JInt 128000),
         (''uploaded_at'', JStr ''2026-01-20T11:05:00Z'')])]"

end
