(* ===== verification/Mock_Icm.thy ===== *)
theory Mock_Icm
  imports Mock_Data Notifications Employment_Plans Service_Requests Monthly_Reports Support_View
begin

text \<open>
  The mock ICM clients, \<open>app/services/icm/mock\<close>, one definition per method: the answer it gives for
  its arguments. \<open>served\<close> says that an ICM answers a request as the mock does; the section at the end
  puts the mocks under the services. Warnings in the log are left out.
\<close>

section \<open>Dicts\<close>

text \<open>\<open>d[k] = v\<close>, and \<open>{**d, **e}\<close>.\<close>

fun dict_set :: "kvs \<Rightarrow> string \<Rightarrow> json \<Rightarrow> kvs" where
  "dict_set [] k v = [(k, v)]"
| "dict_set ((k', w) # d) k v = (if k' = k then (k, v) # d else (k', w) # dict_set d k v)"

definition dict_merge :: "kvs \<Rightarrow> kvs \<Rightarrow> kvs" where
  "dict_merge d e = foldl (\<lambda>d (k, v). dict_set d k v) d e"

lemma map_of_dict_set [simp]: "map_of (dict_set d k v) = (map_of d)(k \<mapsto> v)"
  by (induction d) auto

text \<open>\<open>d.get(k, default)\<close>.\<close>

definition get_or :: "kvs \<Rightarrow> string \<Rightarrow> json \<Rightarrow> json" where
  "get_or d k v = (case map_of d k of None \<Rightarrow> v | Some x \<Rightarrow> x)"

definition status_ok :: "kvs \<Rightarrow> json" where
  "status_ok others = JObj ((''status'', JStr ''ok'') # others)"

fun items_of :: "json \<Rightarrow> kvs" where
  "items_of (JObj ob) = ob"
| "items_of _ = []"

section \<open>MockAccountClient\<close>

definition mock_get_profile :: "string \<Rightarrow> json" where
  "mock_get_profile user =
     (case map_of ACCOUNT_PROFILES user of
        Some p \<Rightarrow> p
      | None \<Rightarrow> JObj (dict_set (items_of (get_or ACCOUNT_PROFILES ALICE_USER_ID JNull)) ''user_id'' (JStr user)))"

definition mock_update_contact :: "string \<Rightarrow> kvs \<Rightarrow> json" where
  "mock_update_contact user data =
     JObj (dict_merge [(''status'', JStr ''ok''), (''user_id'', JStr user)] data)"

definition mock_get_case_members :: "string \<Rightarrow> json" where
  "mock_get_case_members user = get_or CASE_MEMBERS user (get_or CASE_MEMBERS ALICE_USER_ID JNull)"

definition mock_sync_profile :: "string \<Rightarrow> json" where
  "mock_sync_profile user = status_ok [(''user_id'', JStr user)]"

definition mock_validate_pin :: "string \<Rightarrow> string \<Rightarrow> json" where
  "mock_validate_pin user pin = status_ok [(''valid'', JBool True)]"

definition mock_change_pin :: "string \<Rightarrow> string \<Rightarrow> json" where
  "mock_change_pin user new_pin = status_ok []"

definition mock_request_pin_reset :: "string \<Rightarrow> string \<Rightarrow> json" where
  "mock_request_pin_reset user mail = status_ok [(''message'', JStr ''PIN reset email sent'')]"

definition mock_confirm_pin_reset :: "string \<Rightarrow> string \<Rightarrow> json" where
  "mock_confirm_pin_reset token new_pin = status_ok [(''message'', JStr ''PIN has been reset'')]"

section \<open>MockPaymentClient\<close>

definition mock_get_payment_info :: "mock_env \<Rightarrow> string \<Rightarrow> json" where
  "mock_get_payment_info m case_no =
     (let info = items_of (get_or PAYMENT_INFO (resolve_case_number case_no) (get_or PAYMENT_INFO ALICE_CASE JNull)) in
      JObj (dict_set info ''upcoming_benefit_date'' (JStr (isoformat (replace_day (today m) 20)))))"

definition mock_get_cheque_schedule :: "mock_env \<Rightarrow> string \<Rightarrow> json" where
  "mock_get_cheque_schedule m case_no = cheque_schedule m case_no"

definition mock_get_t5007_slips :: "string \<Rightarrow> json" where
  "mock_get_t5007_slips profile_id = get_or T5007_SLIPS (resolve_profile_id profile_id) (JObj [(''slips'', JArr [])])"

definition mock_get_t5_history_years :: "string \<Rightarrow> json" where
  "mock_get_t5_history_years profile_id = get_or T5_HISTORY_YEARS (resolve_profile_id profile_id) (JObj [(''years'', JArr [])])"

definition mock_get_mis_data :: "string \<Rightarrow> json" where
  "mock_get_mis_data profile_id = get_or MIS_DATA (resolve_profile_id profile_id) (get_or MIS_DATA ALICE_PROFILE_ID JNull)"

definition mock_get_t5007_pdf :: "string \<Rightarrow> int \<Rightarrow> json" where
  "mock_get_t5007_pdf profile_id yr =
     JObj [(''pdf_data'', JStr MOCK_PDF_BASE64), (''filename'', JStr (''T5007_'' @ show_int yr @ ''.pdf''))]"

section \<open>MockSRClient\<close>

definition mock_create_sr :: "mock_env \<Rightarrow> string \<Rightarrow> string \<Rightarrow> json" where
  "mock_create_sr m t profile_id =
     (let new_id = ''SR-NEW-'' @ hex6 m in
      JObj [(''sr_id'', JStr new_id), (''sr_type'', JStr t), (''sr_number'', JStr new_id), (''status'', JStr ''Open''),
        (''created_at'', JStr (now_text m))])"

definition mock_get_sr_list :: "string \<Rightarrow> json" where
  "mock_get_sr_list profile_id = get_or SR_LISTS (resolve_profile_id profile_id)
     (JObj [(''items'', JArr []), (''total'', JInt 0), (''page'', JInt 1), (''page_size'', JInt 10)])"

definition mock_get_sr_detail :: "mock_env \<Rightarrow> string \<Rightarrow> json" where
  "mock_get_sr_detail m sr_id =
     (case map_of SR_DETAILS sr_id of
        Some d \<Rightarrow> d
      | None \<Rightarrow> JObj [(''sr_id'', JStr sr_id), (''sr_type'', JStr ''ASSIST''), (''sr_number'', JStr sr_id), (''status'', JStr ''Open''),
          (''client_name'', JStr ''Unknown''), (''created_at'', JStr (now_text m)), (''answers'', JObj []), (''attachments'', JArr [])])"

definition mock_cancel_sr :: "string \<Rightarrow> string \<Rightarrow> json" where
  "mock_cancel_sr sr_id why = status_ok [(''sr_id'', JStr sr_id), (''new_status'', JStr ''Cancelled'')]"

definition mock_get_return_action :: "string \<Rightarrow> json" where
  "mock_get_return_action t = get_or SR_RETURN_ACTIONS t
     (JObj [(''sr_type'', JStr t), (''action'', JStr ''submit''), (''requires_pin'', JBool True)])"

definition mock_get_eligible_types :: "string \<Rightarrow> string \<Rightarrow> json" where
  "mock_get_eligible_types profile_id case_st = get_or ELIGIBLE_SR_TYPES case_st (JObj [(''types'', JArr [])])"

definition mock_finalize_sr_form :: "string \<Rightarrow> json \<Rightarrow> json" where
  "mock_finalize_sr_form sr_id answers = status_ok [(''sr_id'', JStr sr_id)]"

section \<open>MockAttachmentClient\<close>

definition mock_upload_attachment :: "mock_env \<Rightarrow> string \<Rightarrow> kvs \<Rightarrow> json" where
  "mock_upload_attachment m sr_id file_data =
     JObj [(''attachment_id'', JStr (''ATT-NEW-'' @ hex6 m)), (''sr_id'', JStr sr_id),
       (''filename'', get_or file_data ''filename'' (JStr ''uploaded.pdf'')), (''uploaded_at'', JStr (now_text m))]"

definition mock_get_attachment :: "mock_env \<Rightarrow> string \<Rightarrow> json" where
  "mock_get_attachment m att = get_or ATTACHMENT_METADATA att
     (JObj [(''attachment_id'', JStr att), (''filename'', JStr ''unknown.pdf''), (''mime_type'', JStr ''application/pdf''),
       (''size_bytes'', JInt 0), (''uploaded_at'', JStr (now_text m))])"

definition mock_delete_sr_attachment :: "string \<Rightarrow> string \<Rightarrow> json" where
  "mock_delete_sr_attachment sr_id att = status_ok [(''sr_id'', JStr sr_id), (''attachment_id'', JStr att)]"

definition mock_get_message_attachment :: "string \<Rightarrow> string \<Rightarrow> string \<Rightarrow> json" where
  "mock_get_message_attachment profile_id msg att = get_or ATTACHMENT_METADATA att
     (JObj [(''attachment_id'', JStr att), (''filename'', JStr ''message_attachment.pdf''),
       (''mime_type'', JStr ''application/pdf''), (''size_bytes'', JInt 0)])"

definition mock_get_sr_attachment :: "string \<Rightarrow> string \<Rightarrow> json" where
  "mock_get_sr_attachment profile_id sr_id =
     JObj [(''sr_id'', JStr sr_id), (''profile_id'', JStr profile_id), (''attachments'', JArr [])]"

section \<open>MockMonthlyReportClient\<close>

definition mock_get_report_period :: "mock_env \<Rightarrow> string \<Rightarrow> json" where
  "mock_get_report_period m case_no = report_period m (resolve_case_number case_no)"

definition mock_submit_monthly_report :: "mock_env \<Rightarrow> string \<Rightarrow> json" where
  "mock_submit_monthly_report m i =
     status_ok [(''sd81_id'', JStr i), (''new_status'', JStr ''SUB''), (''submitted_at'', JStr (now_text m))]"

definition mock_get_ia_questionnaire :: "string \<Rightarrow> json" where
  "mock_get_ia_questionnaire i = QUESTIONNAIRE"

definition mock_list_reports :: "string \<Rightarrow> int \<Rightarrow> json" where
  "mock_list_reports profile_id days_ago = get_or MONTHLY_REPORTS (resolve_profile_id profile_id)
     (JObj [(''reports'', JArr []), (''total'', JInt 0)])"

definition mock_start_report :: "mock_env \<Rightarrow> string \<Rightarrow> json" where
  "mock_start_report m profile_id =
     JObj [(''sd81_id'', JStr (''SD81-NEW-'' @ hex6 m)), (''benefit_month'', JStr (isoformat (replace_day (today m) 1))),
       (''status'', JStr ''PRT'')]"

definition mock_finalize_report :: "string \<Rightarrow> json" where
  "mock_finalize_report i = status_ok [(''sd81_id'', JStr i)]"

definition mock_restart_report :: "string \<Rightarrow> json" where
  "mock_restart_report i = status_ok [(''sd81_id'', JStr i), (''new_status'', JStr ''RST'')]"

definition mock_get_summary :: "mock_env \<Rightarrow> string \<Rightarrow> json" where
  "mock_get_summary m i = get_or REPORT_SUMMARY i
     (JObj [(''sd81_id'', JStr i), (''benefit_month'', JStr (isoformat (replace_day (today m) 1))), (''status'', JStr ''PRT''),
       (''answers'', JObj [])])"

definition mock_get_report_pdf :: "string \<Rightarrow> string" where
  "mock_get_report_pdf i = MOCK_PDF_BYTES"

section \<open>MockNotificationClient\<close>

definition mock_get_banners :: "string \<Rightarrow> json" where
  "mock_get_banners case_no = get_or BANNERS (resolve_case_number case_no) (JObj [(''banners'', JArr [])])"

definition mock_get_messages :: "string \<Rightarrow> int \<Rightarrow> json" where
  "mock_get_messages profile_id pg = get_or MESSAGES (resolve_profile_id profile_id)
     (JObj [(''messages'', JArr []), (''total'', JInt 0)])"

definition mock_get_message_detail :: "mock_env \<Rightarrow> string \<Rightarrow> json" where
  "mock_get_message_detail m msg =
     (case map_of MESSAGE_DETAILS msg of
        Some d \<Rightarrow> d
      | None \<Rightarrow> JObj [(''message_id'', JStr msg), (''subject'', JStr ''Unknown''), (''body'', JStr ''Mock message not found''),
          (''sent_date'', JStr (now_text m)), (''is_read'', JBool True), (''can_reply'', JBool False),
          (''message_type'', JStr ''GENERAL''), (''attachments'', JArr [])])"

definition mock_mark_read :: "string \<Rightarrow> json" where
  "mock_mark_read msg = status_ok [(''message_id'', JStr msg)]"

definition mock_send_message :: "mock_env \<Rightarrow> json \<Rightarrow> json" where
  "mock_send_message m data = status_ok [(''message_id'', JStr (''MSG-NEW-'' @ hex6 m))]"

definition mock_delete_message :: "string \<Rightarrow> json" where
  "mock_delete_message msg = status_ok [(''message_id'', JStr msg)]"

definition mock_sign_message :: "mock_env \<Rightarrow> string \<Rightarrow> string \<Rightarrow> json" where
  "mock_sign_message m msg pin = status_ok [(''message_id'', JStr msg), (''signed_at'', JStr (now_text m))]"

section \<open>MockEPClient\<close>

definition mock_get_ep_list :: "string \<Rightarrow> json" where
  "mock_get_ep_list profile_id = get_or EP_LISTS (resolve_profile_id profile_id) (JObj [(''plans'', JArr [])])"

definition mock_get_ep_detail :: "mock_env \<Rightarrow> string \<Rightarrow> json" where
  "mock_get_ep_detail m ep =
     (case map_of EP_DETAILS ep of
        Some d \<Rightarrow> d
      | None \<Rightarrow> JObj [(''ep_id'', JStr ep), (''status'', JStr ''SUBMITTED''), (''plan_date'', JStr (isoformat (today m))),
          (''message_deleted'', JBool False)])"

definition mock_sign_ep :: "mock_env \<Rightarrow> string \<Rightarrow> json \<Rightarrow> json" where
  "mock_sign_ep m ep signature = status_ok [(''ep_id'', JStr ep), (''signed_at'', JStr (now_text m))]"

definition mock_send_to_icm :: "mock_env \<Rightarrow> string \<Rightarrow> string \<Rightarrow> json" where
  "mock_send_to_icm m ep pin = status_ok [(''ep_id'', JStr ep), (''sent_at'', JStr (now_text m))]"

definition mock_mark_form_submitted :: "string \<Rightarrow> int \<Rightarrow> json" where
  "mock_mark_form_submitted ep msg = status_ok [(''ep_id'', JStr ep), (''msg_id'', JInt msg)]"

section \<open>MockAdminClient\<close>

text \<open>\<open>needle in hay\<close>.\<close>

definition occurs_in :: "string \<Rightarrow> string \<Rightarrow> bool" where
  "occurs_in needle hay \<longleftrightarrow> list_ex (\<lambda>n. take (length needle) (drop n hay) = needle) [0..<Suc (length hay)]"

definition name_matches :: "mock_env \<Rightarrow> string option \<Rightarrow> json \<Rightarrow> bool" where
  "name_matches m name r =
     (case name of None \<Rightarrow> True
      | Some n \<Rightarrow> n = [] \<or> occurs_in (lower m n) (lower m (case str_of (subscript r ''full_name'') of Some t \<Rightarrow> t | None \<Rightarrow> [])))"

definition mock_search_profiles :: "mock_env \<Rightarrow> string option \<Rightarrow> string option \<Rightarrow> string option \<Rightarrow> int \<Rightarrow> json" where
  "mock_search_profiles m first_nm last_nm applicant_sin pg =
     (let all_results = (case subscript ADMIN_SEARCH_RESULTS ''results'' of JArr rs \<Rightarrow> rs | _ \<Rightarrow> []);
          found = filter (name_matches m last_nm) (filter (name_matches m first_nm) all_results) in
      JObj [(''results'', JArr found), (''total'', JInt (int (length found))), (''page'', JInt pg), (''page_size'', JInt 10)])"

definition mock_get_client_profile :: "string \<Rightarrow> json" where
  "mock_get_client_profile guid = get_or ADMIN_CLIENT_PROFILES guid (get_or ADMIN_CLIENT_PROFILES ALICE_BCEID JNull)"

definition mock_get_worker_permissions :: "string \<Rightarrow> json" where
  "mock_get_worker_permissions idir = get_or WORKER_PERMISSIONS idir
     (JObj [(''idir_username'', JStr idir), (''permissions'', JArr [])])"

definition mock_validate_ao_login :: "string \<Rightarrow> string \<Rightarrow> json" where
  "mock_validate_ao_login sr_number applicant_sin =
     JObj [(''sr_number'', JStr sr_number), (''applicant_name'', JStr ''Alice Thompson''), (''case_status'', JStr ''Active'')]"

section \<open>MockProfileClient and MockRegistrationClient\<close>

definition mock_get_tombstone :: "string \<Rightarrow> json" where
  "mock_get_tombstone guid = get_or TOMBSTONES guid (get_or TOMBSTONES ALICE_BCEID JNull)"

definition mock_profile_validate_pin :: "string \<Rightarrow> string \<Rightarrow> json" where
  "mock_profile_validate_pin guid pin = status_ok [(''valid'', JBool True)]"

definition mock_update_tombstone :: "string \<Rightarrow> kvs \<Rightarrow> json" where
  "mock_update_tombstone guid data = JObj (dict_merge [(''status'', JStr ''ok''), (''bceid_guid'', JStr guid)] data)"

definition mock_contact_profile :: "string \<Rightarrow> json" where
  "mock_contact_profile guid = get_or PROFILE_DATA guid (get_or PROFILE_DATA ALICE_BCEID JNull)"

definition mock_link_profile :: "string \<Rightarrow> json \<Rightarrow> json" where
  "mock_link_profile guid link_data = status_ok [(''bceid_guid'', JStr guid), (''linked'', JBool True)]"

definition mock_has_newer_profile :: "string \<Rightarrow> json" where
  "mock_has_newer_profile guid = JObj [(''has_newer'', JBool False)]"

definition mock_profile_get_banners :: "string \<Rightarrow> json" where
  "mock_profile_get_banners case_no = get_or BANNERS (resolve_case_number case_no) (JObj [(''banners'', JArr [])])"

definition mock_register_new_applicant :: "json \<Rightarrow> json" where
  "mock_register_new_applicant registrant = get_or REGISTRATION_RESPONSES ''new'' JNull"

definition mock_register_existing_client :: "json \<Rightarrow> json" where
  "mock_register_existing_client link_data = get_or REGISTRATION_RESPONSES ''existing'' JNull"

definition mock_get_link_options :: "string \<Rightarrow> json" where
  "mock_get_link_options guid = get_or LINK_OPTIONS guid (JObj [(''options'', JArr [])])"

section \<open>The services on the mock\<close>

text \<open>An ICM that answers a request with \<open>j\<close> in every state, and stays as it is.\<close>

definition served :: "'i icm_fun \<Rightarrow> icm_req \<Rightarrow> json \<Rightarrow> bool" where
  "served icm rq j \<longleftrightarrow> (\<forall>n. icm rq n = (Inr j, n))"

lemma served_call: "served icm rq j \<Longrightarrow> bind (icm_call icm rq) f s = f j (s\<lparr>icm_log := icm_log s @ [rq]\<rparr>)"
  by (simp add: served_def bind_def icm_call_def)

text \<open>Which canned answers the models of the services accept, whatever pydantic's coercions accept.\<close>

lemmas persona_defs =
  ALICE_USER_ID_def BOB_USER_ID_def CAROL_USER_ID_def ALICE_BCEID_def BOB_BCEID_def CAROL_BCEID_def
  ALICE_PROFILE_ID_def BOB_PROFILE_ID_def CAROL_PROFILE_ID_def ALICE_CASE_def BOB_CASE_def CAROL_CASE_def

lemma field_None: "map_of ob k = None \<Longrightarrow> field p k ob = None"
  by (simp add: field_def)

lemma mock_schedule_rejected: "construct (window_of co) (mock_get_cheque_schedule m c) = Inl ValidationExn"
  by (simp add: mock_get_cheque_schedule_def cheque_schedule_def window_of_def build_defs field_def)

lemma plan_of_rejected: "field (enum_of ep_status_values) ''status'' ob = None \<or> field str_of ''icm_attachment_id'' ob = None \<Longrightarrow>
    plan_of co ob = None"
  by (auto simp: plan_of_def build_defs split: bind_split)

lemma mock_plan_rejected: "construct (plan_of co) (mock_get_ep_detail m ep) = Inl ValidationExn"
proof (cases "map_of EP_DETAILS ep")
  case None
  then show ?thesis
    by (simp add: mock_get_ep_detail_def plan_of_rejected field_def)
next
  case (Some d)
  then have "(ep, d) \<in> set EP_DETAILS" by (rule map_of_SomeD)
  then have "construct (plan_of co) d = Inl ValidationExn"
    by (auto simp: EP_DETAILS_def plan_of_rejected field_def enum_of_def ep_status_values_def)
  then show ?thesis using Some by (simp add: mock_get_ep_detail_def)
qed

lemma mock_bob_plans_rejected: "construct_all (plan_of co) (mock_get_ep_list BOB_USER_ID) ''plans'' = Inl ValidationExn"
  by (simp add: mock_get_ep_list_def resolve_profile_id_def USER_TO_PROFILE_def get_or_def EP_LISTS_def persona_defs
      construct_all_def plan_of_rejected field_def enum_of_def ep_status_values_def)

definition readable_messages :: "string list" where
  "readable_messages = [''MSG-A001'', ''MSG-A003'', ''MSG-B001'']"

lemma detail_of_rejected: "field (list_of str_of) ''attachments'' ob = None \<or> field (enum_of message_types) ''message_type'' ob = None \<Longrightarrow>
    detail_of co ob = None"
  by (auto simp: detail_of_def summary_of_def build_defs split: bind_split)

lemma mock_message_rejected:
  assumes "msg \<notin> set readable_messages"
  shows "construct (detail_of co) (mock_get_message_detail m msg) = Inl ValidationExn"
proof (cases "map_of MESSAGE_DETAILS msg")
  case None
  then show ?thesis
    by (simp add: mock_get_message_detail_def detail_of_rejected field_def enum_of_def message_types_def)
next
  case (Some d)
  then have "(msg, d) \<in> set MESSAGE_DETAILS" by (rule map_of_SomeD)
  then have "construct (detail_of co) d = Inl ValidationExn"
    using assms by (auto simp: MESSAGE_DETAILS_def readable_messages_def detail_of_rejected field_def)
  then show ?thesis using Some by (simp add: mock_get_message_detail_def)
qed

lemma mock_sr_rejected: "construct (sr_detail_of co) (mock_get_sr_detail m ''SR-A001'') = Inl ValidationExn"
  by (simp add: mock_get_sr_detail_def SR_DETAILS_def sr_detail_of_def build_defs field_or_def split: bind_split)

lemma mock_reset_refused: "obj_get_default (mock_confirm_pin_reset tok pin) ''success'' (JBool False) = Inr (JBool False)"
  by (simp add: mock_confirm_pin_reset_def status_ok_def)

lemma mock_banners_fail:
  assumes "user \<in> {ALICE_USER_ID, BOB_USER_ID}"
    and "dt_of co (JStr ''2026-03-25'') = Some d" and "dt_of co (JStr ''2026-03-30'') = Some (Naive e)"
  shows "bind_res (obj_get_default (mock_get_banners user) ''banners'' (JArr [])) (\<lambda>j. bind_res (elements j) (current_banners co now)) =
    Inl TypeExn"
  using assms
  by (auto simp: mock_get_banners_def resolve_case_number_def USER_TO_CASE_def get_or_def BANNERS_def persona_defs
      banner_of_def build_defs field_def)

text \<open>
  With the mock clients, "every API endpoint" does not work, whatever pydantic accepts: the cheque
  schedule, an employment plan, Bob's list of plans, the confirmation of a PIN reset, every message but
  three, and the first service request of Alice always fail, because the canned answers do not have the
  shape the services read; and the banners of Alice and Bob fail because their end dates are days
  without a time zone.
\<close>

theorem mock_endpoints_fail:
  assumes "served icm (get_cheque_schedule_req (user_id u)) (mock_get_cheque_schedule m (user_id u))"
    and "served icm (get_ep_detail_req (show_int ep)) (mock_get_ep_detail m (show_int ep))"
    and "served icm (get_ep_list_req BOB_USER_ID) (mock_get_ep_list BOB_USER_ID)" and "user_id bob = BOB_USER_ID"
    and "served icm (confirm_pin_reset_req tok p) (mock_confirm_pin_reset tok p)" and "pin_field new_pin = Inr p"
    and "served icm (get_message_detail_req msg) (mock_get_message_detail m msg)" and "msg \<notin> set readable_messages"
    and "served icm (get_sr_detail_req ''SR-A001'') (mock_get_sr_detail m ''SR-A001'')"
    and "served icm (get_banners_req BOB_USER_ID) (mock_get_banners BOB_USER_ID)"
    and "dt_of co (JStr ''2026-03-25'') = Some d" and "dt_of co (JStr ''2026-03-30'') = Some (Naive e)"
  shows "fst (get_cheque_schedule_route icm co (Inr u) s) = Inl ValidationExn \<and>
    fst (get_employment_plan_detail icm co (Inr u) ep s) = Inl ValidationExn \<and>
    fst (list_employment_plans icm co (Inr bob) s) = Inl ValidationExn \<and>
    fst (reset_confirm_route icm (Inr u) tok new_pin s) = Inl (HTTPExn 410 ''Token is invalid or expired'') \<and>
    fst (get_message_detail_route icm co (Inr u) msg s) = Inl ValidationExn \<and>
    fst (get_service_request_detail icm co (Inr u) ''SR-A001'' s) = Inl ValidationExn \<and>
    fst (get_banners_route icm co (Inr bob) s) = Inl TypeExn"
proof (intro conjI)
  show "fst (get_cheque_schedule_route icm co (Inr u) s) = Inl ValidationExn"
    by (simp add: get_cheque_schedule_route_def as_user_def get_cheque_schedule_def served_call[OF assms(1)] mock_schedule_rejected)
  show "fst (get_employment_plan_detail icm co (Inr u) ep s) = Inl ValidationExn"
    by (simp add: get_employment_plan_detail_def as_user_def ep_get_detail_def served_call[OF assms(2)] mock_plan_rejected)
  show "fst (list_employment_plans icm co (Inr bob) s) = Inl ValidationExn"
    by (simp add: list_employment_plans_def as_user_def list_plans_def assms(4) served_call[OF assms(3)] mock_bob_plans_rejected)
  show "fst (reset_confirm_route icm (Inr u) tok new_pin s) = Inl (HTTPExn 410 ''Token is invalid or expired'')"
    by (simp add: reset_confirm_route_def as_user_def assms(6) reraise_def catch_def confirm_reset_def served_call[OF assms(5)]
        mock_reset_refused)
  show "fst (get_message_detail_route icm co (Inr u) msg s) = Inl ValidationExn"
    by (simp add: get_message_detail_route_def as_user_def get_message_detail_def bind_assoc served_call[OF assms(7)]
        mock_message_rejected[OF assms(8)])
  have "truthy (mock_get_sr_detail m ''SR-A001'')" by (simp add: mock_get_sr_detail_def SR_DETAILS_def)
  then show "fst (get_service_request_detail icm co (Inr u) ''SR-A001'' s) = Inl ValidationExn"
    by (simp add: get_service_request_detail_def as_user_def or_404_def get_sr_detail_def bind_assoc served_call[OF assms(9)]
        mock_sr_rejected)
  show "fst (get_banners_route icm co (Inr bob) s) = Inl TypeExn"
    using mock_banners_fail[of BOB_USER_ID co d e] assms(11,12)
    by (cases "obj_get_default (mock_get_banners BOB_USER_ID) ''banners'' (JArr [])")
      (auto simp: get_banners_route_def as_user_def get_banners_def assms(4) served_call[OF assms(10)])
qed

definition demo_mock_env :: mock_env where
  "demo_mock_env = \<lparr>today = Date 2026 3 20, now_text = ''2026-03-20T00:00:00+00:00'', hex6 = ''abcdef'', lower = id\<rparr>"

definition demo_mocks :: "(icm_req \<times> json) list" where
  "demo_mocks =
     [(get_cheque_schedule_req ''a'', mock_get_cheque_schedule demo_mock_env ''a''),
      (get_ep_detail_req ''7'', mock_get_ep_detail demo_mock_env ''7''),
      (get_ep_list_req BOB_USER_ID, mock_get_ep_list BOB_USER_ID),
      (confirm_pin_reset_req ''t'' ''1234'', mock_confirm_pin_reset ''t'' ''1234''),
      (get_message_detail_req ''9'', mock_get_message_detail demo_mock_env ''9''),
      (get_sr_detail_req ''SR-A001'', mock_get_sr_detail demo_mock_env ''SR-A001''),
      (get_banners_req BOB_USER_ID, mock_get_banners BOB_USER_ID)]"

definition demo_mock_icm :: "nat icm_fun" where
  "demo_mock_icm rq n = (Inr (case map_of demo_mocks rq of Some j \<Rightarrow> j | None \<Rightarrow> JNull), n)"

text \<open>Coercions that read a day as a time without zone, as pydantic does.\<close>

definition day_coercions :: coercions where
  "day_coercions = plain\<lparr>dt_of := (\<lambda>j. case j of JStr t \<Rightarrow> Some (Naive 0) | _ \<Rightarrow> None)\<rparr>"

lemma demo_mock_served: "(rq, j) \<in> set demo_mocks \<Longrightarrow> served demo_mock_icm rq j"
proof -
  have "distinct (map fst demo_mocks)"
    by (simp add: demo_mocks_def get_cheque_schedule_req_def get_ep_detail_req_def get_ep_list_req_def confirm_pin_reset_req_def
        get_message_detail_req_def get_sr_detail_req_def get_banners_req_def req_defs persona_defs)
  then show "(rq, j) \<in> set demo_mocks \<Longrightarrow> ?thesis" by (simp add: served_def demo_mock_icm_def)
qed

theorem mock_endpoints_fail_witness:
  "fst (get_cheque_schedule_route demo_mock_icm day_coercions (Inr (demo_user ''a'')) demo_base) = Inl ValidationExn \<and>
   fst (get_banners_route demo_mock_icm day_coercions (Inr (demo_user BOB_USER_ID)) demo_base) = Inl TypeExn"
proof -
  have pin: "pin_field (ascii ''1234'') = Inr ''1234''"
  proof -
    have "digit_val 49 = Some 1" "digit_val 50 = Some 2" "digit_val 51 = Some 3" "digit_val 52 = Some 4"
      using digit_val_ascii[of 1] digit_val_ascii[of 2] digit_val_ascii[of 3] digit_val_ascii[of 4] by simp_all
    moreover have "char_of (49 :: nat) = CHR ''1''" "char_of (50 :: nat) = CHR ''2''" "char_of (51 :: nat) = CHR ''3''"
      "char_of (52 :: nat) = CHR ''4''" by (simp_all add: char_of_def bit_iff_odd)
    ultimately show ?thesis by (simp add: pin_field_def ascii_def is_digit_def utf8_def utf8_char_def)
  qed
  have "char_of (55 :: nat) = CHR ''7''" by (simp add: char_of_def bit_iff_odd)
  then have seven: "show_int 7 = ''7''" by (simp add: show_int_def show_nat.simps)
  have here: "served demo_mock_icm (get_cheque_schedule_req (user_id (demo_user ''a''))) (mock_get_cheque_schedule demo_mock_env (user_id (demo_user ''a'')))"
    "served demo_mock_icm (get_ep_detail_req (show_int 7)) (mock_get_ep_detail demo_mock_env (show_int 7))"
    "served demo_mock_icm (get_ep_list_req BOB_USER_ID) (mock_get_ep_list BOB_USER_ID)"
    "served demo_mock_icm (confirm_pin_reset_req ''t'' ''1234'') (mock_confirm_pin_reset ''t'' ''1234'')"
    "served demo_mock_icm (get_message_detail_req ''9'') (mock_get_message_detail demo_mock_env ''9'')"
    "served demo_mock_icm (get_sr_detail_req ''SR-A001'') (mock_get_sr_detail demo_mock_env ''SR-A001'')"
    "served demo_mock_icm (get_banners_req BOB_USER_ID) (mock_get_banners BOB_USER_ID)"
    by (rule demo_mock_served, simp add: demo_mocks_def seven)+
  have "dt_of day_coercions (JStr d) = Some (Naive 0)" for d by (simp add: day_coercions_def)
  moreover have "''9'' \<notin> set readable_messages" by (simp add: readable_messages_def)
  moreover have "user_id (demo_user BOB_USER_ID) = BOB_USER_ID" by simp
  ultimately show ?thesis
    using mock_endpoints_fail[OF here(1-3) _ here(4) pin here(5) _ here(6,7), where bob = "demo_user BOB_USER_ID"
        and co = day_coercions and d = "Naive 0" and e = 0 and s = demo_base] by blast
qed

text \<open>What works for everybody: a profile with the caller's id, and any PIN.\<close>

lemma mock_profile_read: "\<exists>info. construct account_info_of (mock_get_profile i) = Inr info \<and> info_user info = i"
proof (cases "map_of ACCOUNT_PROFILES i")
  case None
  then show ?thesis
    by (simp add: mock_get_profile_def get_or_def ACCOUNT_PROFILES_def persona_defs account_info_of_def build_defs field_def
        field_or_def make_account_info_def)
next
  case (Some d)
  then have "(i, d) \<in> set ACCOUNT_PROFILES" by (rule map_of_SomeD)
  then have "\<exists>info. construct account_info_of d = Inr info \<and> info_user info = i"
    by (auto simp: ACCOUNT_PROFILES_def account_info_of_def build_defs field_def field_or_def make_account_info_def)
  then show ?thesis using Some by (simp add: mock_get_profile_def)
qed

lemma mock_profile_works:
  assumes "served icm (acct_profile_req (user_id u)) (mock_get_profile (user_id u))"
  shows "\<exists>info. fst (get_profile_route icm (Inr u) s) = Inr info \<and> info_user info = user_id u"
  using mock_profile_read[of "user_id u"]
  by (auto simp: get_profile_route_def as_user_def get_profile_def served_call[OF assms])

lemma mock_any_pin: "served icm (validate_pin_req user pin) (mock_validate_pin user pin) \<Longrightarrow> pin_ok icm user pin s"
  by (simp add: served_def pin_ok_def says_valid_def mock_validate_pin_def status_ok_def)

end
