(* ===== verification/Schema.thy ===== *)
theory Schema
  imports Prelude
begin

text \<open>
  The database schema: the catalog of a database, the DDL operations of Alembic and what each needs,
  the four migrations of \<open>alembic/versions\<close>, and the tables of the SQLModel classes of \<open>app/models\<close>,
  that \<open>SQLModel.metadata.create_all\<close> creates. The rows a migration inserts are in Eligibility.
\<close>

section \<open>Catalogs\<close>

datatype col_type =
    Uuid
  | AutoString
  | Varchar nat
  | Text
  | Integer
  | Numeric
  | Decimal_ty nat nat
  | Boolean
  | Date_ty
  | Timestamp bool
  | Json

text \<open>\<open>has_default\<close>: an INSERT may leave the column out (a server default, or autoincrement).\<close>

datatype column = Column (cname: string) (ctype: col_type) (nullable_col: bool) (has_default: bool)

definition required :: "string \<Rightarrow> col_type \<Rightarrow> column" where
  "required n t = Column n t False False"

definition optional :: "string \<Rightarrow> col_type \<Rightarrow> column" where
  "optional n t = Column n t True False"

definition defaulted :: "string \<Rightarrow> col_type \<Rightarrow> column" where
  "defaulted n t = Column n t False True"

datatype foreign_key = foreign (fk_col: string) (fk_table: string) (fk_ref: string) (on_delete: "string option")

datatype table = Table (tname: string) (columns: "column list") (pkey: "string list") (uniques: "string list list")
  (fkeys: "foreign_key list")

datatype index = Index (ix_name: string) (ix_table: string) (ix_cols: "string list") (ix_unique: bool)

record catalog =
  tables :: "table list"
  indexes :: "index list"

definition no_catalog :: catalog where
  "no_catalog = \<lparr>tables = [], indexes = []\<rparr>"

definition lookup_table :: "catalog \<Rightarrow> string \<Rightarrow> table option" where
  "lookup_table c n = find (\<lambda>t. tname t = n) (tables c)"

definition has_columns :: "table \<Rightarrow> string list \<Rightarrow> bool" where
  "has_columns t ns \<longleftrightarrow> list_all (\<lambda>n. list_ex (\<lambda>k. cname k = n) (columns t)) ns"

text \<open>Whether a statement that names these columns of a table resolves.\<close>

definition resolves :: "catalog \<Rightarrow> string \<Rightarrow> string list \<Rightarrow> bool" where
  "resolves c n ns = (case lookup_table c n of None \<Rightarrow> False | Some t \<Rightarrow> has_columns t ns)"

text \<open>An INSERT names columns that exist, and every column that must have a value.\<close>

definition insert_resolves :: "catalog \<Rightarrow> string \<Rightarrow> string list \<Rightarrow> bool" where
  "insert_resolves c n ns =
     (case lookup_table c n of None \<Rightarrow> False
      | Some t \<Rightarrow> has_columns t ns \<and>
          list_all (\<lambda>k. nullable_col k \<or> has_default k \<or> list_ex (\<lambda>x. x = cname k) ns) (columns t))"

section \<open>DDL\<close>

datatype ddl =
    CreateTable table
  | DropTable string
  | CreateIndex string string "string list" bool
  | DropIndex string string
  | BulkInsert string "string list"

text \<open>Whether the table a foreign key refers to is there, the table itself included.\<close>

definition fk_resolves :: "catalog \<Rightarrow> table \<Rightarrow> foreign_key \<Rightarrow> bool" where
  "fk_resolves c t f \<longleftrightarrow>
     (if fk_table f = tname t then has_columns t [fk_ref f] else resolves c (fk_table f) [fk_ref f])"

text \<open>
  One operation, None when the database refuses it: a table or index that exists is not created and
  one that does not is not dropped, a foreign key needs the table it refers to, and a table that
  another one refers to is not dropped. The indexes of a table go with it.
\<close>

fun exec_ddl :: "ddl \<Rightarrow> catalog \<Rightarrow> catalog option" where
  "exec_ddl (CreateTable t) c =
     (if lookup_table c (tname t) = None \<and> list_all (fk_resolves c t) (fkeys t) then Some (c\<lparr>tables := tables c @ [t]\<rparr>)
      else None)"
| "exec_ddl (DropTable n) c =
     (if lookup_table c n \<noteq> None \<and> list_all (\<lambda>t. tname t = n \<or> list_all (\<lambda>f. fk_table f \<noteq> n) (fkeys t)) (tables c)
      then Some \<lparr>tables = filter (\<lambda>t. tname t \<noteq> n) (tables c), indexes = filter (\<lambda>i. ix_table i \<noteq> n) (indexes c)\<rparr>
      else None)"
| "exec_ddl (CreateIndex i n ns u) c =
     (if resolves c n ns \<and> list_all (\<lambda>x. ix_name x \<noteq> i) (indexes c) then Some (c\<lparr>indexes := indexes c @ [Index i n ns u]\<rparr>)
      else None)"
| "exec_ddl (DropIndex i n) c =
     (if list_ex (\<lambda>x. ix_name x = i \<and> ix_table x = n) (indexes c)
      then Some (c\<lparr>indexes := filter (\<lambda>x. ix_name x \<noteq> i) (indexes c)\<rparr>)
      else None)"
| "exec_ddl (BulkInsert n ns) c = (if insert_resolves c n ns then Some c else None)"

fun run_ddl :: "ddl list \<Rightarrow> catalog \<Rightarrow> catalog option" where
  "run_ddl [] c = Some c"
| "run_ddl (d # ds) c = Option.bind (exec_ddl d c) (run_ddl ds)"

text \<open>\<open>metadata.create_all\<close>: the tables that are not there, by name; existing ones are not looked at.\<close>

fun create_all :: "table list \<Rightarrow> catalog \<Rightarrow> catalog" where
  "create_all [] c = c"
| "create_all (t # ts) c =
     create_all ts (if lookup_table c (tname t) = None then c\<lparr>tables := tables c @ [t]\<rparr> else c)"

section \<open>The migrations\<close>

definition T_aoregistrationsession :: table where
  "T_aoregistrationsession =
     Table ''aoregistrationsession''
       [required ''id'' Uuid, required ''session_token'' AutoString, required ''worker_bceid'' AutoString,
        optional ''applicant_sr_num'' AutoString, required ''applicant_sin_hash'' AutoString,
        required ''step_reached'' Integer, required ''expires_at'' (Timestamp False),
        optional ''completed_at'' (Timestamp False)]
       [''id''] [[''session_token'']] []"

definition T_disclaimeracknowledgement :: table where
  "T_disclaimeracknowledgement =
     Table ''disclaimeracknowledgement''
       [required ''id'' Uuid, required ''session_id'' AutoString, required ''acknowledged_at'' (Timestamp False)]
       [''id''] [] []"

definition T_eligibilityratetable :: table where
  "T_eligibilityratetable =
     Table ''eligibilityratetable''
       [required ''id'' Uuid, required ''rate_key'' AutoString, required ''value'' Numeric,
        required ''effective_from'' (Timestamp False), optional ''effective_to'' (Timestamp False),
        optional ''notes'' AutoString]
       [''id''] [] []"

definition T_user :: table where
  "T_user =
     Table ''user''
       [required ''id'' Uuid, required ''bceid_guid'' AutoString, required ''created_at'' (Timestamp False),
        required ''updated_at'' (Timestamp False)]
       [''id''] [] []"

definition T_workerauditrecord :: table where
  "T_workerauditrecord =
     Table ''workerauditrecord''
       [required ''id'' Uuid, required ''worker_idir'' AutoString, required ''client_portal_id'' AutoString,
        required ''action'' AutoString, optional ''resource_type'' AutoString, optional ''resource_id'' AutoString,
        required ''timestamp'' (Timestamp False)]
       [''id''] [] []"

definition T_profile :: table where
  "T_profile =
     Table ''profile''
       [required ''id'' Uuid, required ''user_id'' Uuid, required ''portal_id'' AutoString,
        required ''link_code'' AutoString, required ''mis_person_id'' AutoString,
        required ''created_at'' (Timestamp False), required ''updated_at'' (Timestamp False)]
       [''id''] [] [foreign ''user_id'' ''user'' ''id'' None]"

definition T_registrationsession :: table where
  "T_registrationsession =
     Table ''registrationsession''
       [required ''id'' Uuid, optional ''user_id'' Uuid, required ''invite_token'' AutoString,
        required ''step'' Integer, optional ''form_state_json'' Json, required ''expires_at'' (Timestamp False),
        optional ''completed_at'' (Timestamp False)]
       [''id''] [[''invite_token'']] [foreign ''user_id'' ''user'' ''id'' None]"

definition T_pinresettoken :: table where
  "T_pinresettoken =
     Table ''pinresettoken''
       [required ''id'' Uuid, required ''profile_id'' Uuid, required ''token'' AutoString,
        required ''expires_at'' (Timestamp False), optional ''used_at'' (Timestamp False)]
       [''id''] [[''token'']] [foreign ''profile_id'' ''profile'' ''id'' None]"

definition T_plansignaturesession :: table where
  "T_plansignaturesession =
     Table ''plansignaturesession''
       [required ''id'' Uuid, required ''profile_id'' Uuid, required ''ep_id'' AutoString,
        required ''token'' AutoString, required ''expires_at'' (Timestamp False),
        optional ''signed_at'' (Timestamp False)]
       [''id''] [[''token'']] [foreign ''profile_id'' ''profile'' ''id'' None]"

definition T_srdraft :: table where
  "T_srdraft =
     Table ''srdraft''
       [required ''id'' Uuid, required ''profile_id'' Uuid, required ''sr_type'' AutoString,
        optional ''form_state_json'' Json, required ''portal_status'' AutoString,
        optional ''icm_sr_number'' AutoString, required ''created_at'' (Timestamp False),
        required ''updated_at'' (Timestamp False)]
       [''id''] [] [foreign ''profile_id'' ''profile'' ''id'' None]"

definition T_attachmentrecord :: table where
  "T_attachmentrecord =
     Table ''attachmentrecord''
       [required ''id'' Uuid, required ''profile_id'' Uuid, optional ''sr_draft_id'' Uuid,
        required ''filename'' AutoString, required ''mime_type'' AutoString, required ''size_bytes'' Integer,
        required ''storage_path'' AutoString, required ''av_status'' AutoString,
        required ''uploaded_at'' (Timestamp False)]
       [''id''] [] [foreign ''profile_id'' ''profile'' ''id'' None, foreign ''sr_draft_id'' ''srdraft'' ''id'' None]"

definition T_scanjob :: table where
  "T_scanjob =
     Table ''scanjob''
       [required ''id'' Uuid, required ''attachment_id'' Uuid, required ''status'' AutoString,
        optional ''scanned_at'' (Timestamp False)]
       [''id''] [[''attachment_id'']] [foreign ''attachment_id'' ''attachmentrecord'' ''id'' None]"

definition upgrade_2208 :: "ddl list" where
  "upgrade_2208 =
     [CreateTable T_aoregistrationsession, CreateTable T_disclaimeracknowledgement,
      CreateTable T_eligibilityratetable,
      CreateIndex ''ix_eligibilityratetable_rate_key'' ''eligibilityratetable'' [''rate_key''] False,
      CreateTable T_user, CreateIndex ''ix_user_bceid_guid'' ''user'' [''bceid_guid''] True,
      CreateTable T_workerauditrecord,
      CreateIndex ''ix_workerauditrecord_client_portal_id'' ''workerauditrecord'' [''client_portal_id''] False,
      CreateIndex ''ix_workerauditrecord_worker_idir'' ''workerauditrecord'' [''worker_idir''] False,
      CreateTable T_profile, CreateIndex ''ix_profile_portal_id'' ''profile'' [''portal_id''] True,
      CreateIndex ''ix_profile_user_id'' ''profile'' [''user_id''] False, CreateTable T_registrationsession,
      CreateIndex ''ix_registrationsession_user_id'' ''registrationsession'' [''user_id''] False,
      CreateTable T_pinresettoken,
      CreateIndex ''ix_pinresettoken_profile_id'' ''pinresettoken'' [''profile_id''] False,
      CreateTable T_plansignaturesession,
      CreateIndex ''ix_plansignaturesession_profile_id'' ''plansignaturesession'' [''profile_id''] False,
      CreateTable T_srdraft, CreateIndex ''ix_srdraft_profile_id'' ''srdraft'' [''profile_id''] False,
      CreateTable T_attachmentrecord,
      CreateIndex ''ix_attachmentrecord_profile_id'' ''attachmentrecord'' [''profile_id''] False,
      CreateTable T_scanjob]"

definition downgrade_2208 :: "ddl list" where
  "downgrade_2208 =
     [DropTable ''scanjob'', DropIndex ''ix_attachmentrecord_profile_id'' ''attachmentrecord'',
      DropTable ''attachmentrecord'', DropIndex ''ix_srdraft_profile_id'' ''srdraft'', DropTable ''srdraft'',
      DropIndex ''ix_plansignaturesession_profile_id'' ''plansignaturesession'', DropTable ''plansignaturesession'',
      DropIndex ''ix_pinresettoken_profile_id'' ''pinresettoken'', DropTable ''pinresettoken'',
      DropIndex ''ix_registrationsession_user_id'' ''registrationsession'', DropTable ''registrationsession'',
      DropIndex ''ix_profile_user_id'' ''profile'', DropIndex ''ix_profile_portal_id'' ''profile'',
      DropTable ''profile'', DropIndex ''ix_workerauditrecord_worker_idir'' ''workerauditrecord'',
      DropIndex ''ix_workerauditrecord_client_portal_id'' ''workerauditrecord'', DropTable ''workerauditrecord'',
      DropIndex ''ix_user_bceid_guid'' ''user'', DropTable ''user'',
      DropIndex ''ix_eligibilityratetable_rate_key'' ''eligibilityratetable'', DropTable ''eligibilityratetable'',
      DropTable ''disclaimeracknowledgement'', DropTable ''aoregistrationsession'']"

definition T_eligibility_rate_table :: table where
  "T_eligibility_rate_table =
     Table ''eligibility_rate_table''
       [defaulted ''id'' Integer, required ''family_size'' Integer, required ''type_a'' (Decimal_ty 10 2),
        required ''type_b'' (Decimal_ty 10 2), required ''type_c'' (Decimal_ty 10 2),
        required ''type_d'' (Decimal_ty 10 2), required ''type_e'' (Decimal_ty 10 2),
        required ''effective_from'' Date_ty, optional ''notes'' Text]
       [''id''] [[''family_size'', ''effective_from'']] []"

definition T_eligibility_asset_limit :: table where
  "T_eligibility_asset_limit =
     Table ''eligibility_asset_limit''
       [defaulted ''id'' Integer, required ''limit_type'' (Varchar 1), required ''limit'' (Decimal_ty 12 2),
        required ''effective_from'' Date_ty, optional ''notes'' Text]
       [''id''] [[''limit_type'', ''effective_from'']] []"

definition upgrade_0003 :: "ddl list" where
  "upgrade_0003 =
     [CreateTable T_eligibility_rate_table, CreateTable T_eligibility_asset_limit,
      BulkInsert ''eligibility_rate_table''
        [''family_size'', ''type_a'', ''type_b'', ''type_c'', ''type_d'', ''type_e'', ''effective_from'', ''notes''],
      BulkInsert ''eligibility_asset_limit''
        [''limit_type'', ''limit'', ''effective_from'', ''notes'']]"

definition downgrade_0003 :: "ddl list" where
  "downgrade_0003 =
     [DropTable ''eligibility_asset_limit'', DropTable ''eligibility_rate_table'']"

definition T_users :: table where
  "T_users =
     Table ''users''
       [defaulted ''id'' Integer, required ''bceid_guid'' (Varchar 36), required ''bceid_username'' (Varchar 100),
        defaulted ''created_at'' (Timestamp True), defaulted ''updated_at'' (Timestamp True)]
       [''id''] [[''bceid_guid'']] []"

definition T_profiles :: table where
  "T_profiles =
     Table ''profiles''
       [defaulted ''id'' Integer, required ''user_id'' Integer, required ''first_name'' (Varchar 50),
        optional ''middle_name'' (Varchar 50), required ''last_name'' (Varchar 50), required ''sin'' (Varchar 9),
        optional ''phn'' (Varchar 10), required ''date_of_birth'' Date_ty, required ''gender'' (Varchar 10),
        required ''email'' (Varchar 250), optional ''phone_number'' (Varchar 20),
        optional ''phone_type'' (Varchar 20), defaulted ''link_status'' (Varchar 20), optional ''portal_id'' Integer,
        defaulted ''is_active'' Boolean, defaulted ''created_at'' (Timestamp True),
        defaulted ''updated_at'' (Timestamp True)]
       [''id''] [] [foreign ''user_id'' ''users'' ''id'' (Some ''RESTRICT'')]"

definition T_registration_sessions :: table where
  "T_registration_sessions =
     Table ''registration_sessions''
       [defaulted ''id'' Integer, required ''token'' (Varchar 36), required ''account_creation_type'' (Varchar 20),
        defaulted ''step_reached'' Integer, optional ''poa_data'' Json, optional ''registrant_data'' Json,
        optional ''spouse_data'' Json, optional ''invite_token'' (Varchar 36),
        defaulted ''invite_token_used'' Boolean, optional ''pin_hash'' (Varchar 200),
        optional ''pin_salt'' (Varchar 100), optional ''user_id'' Integer, required ''expires_at'' (Timestamp True),
        defaulted ''created_at'' (Timestamp True)]
       [''id''] [[''invite_token'']] [foreign ''user_id'' ''users'' ''id'' (Some ''SET NULL'')]"

definition T_power_of_attorney :: table where
  "T_power_of_attorney =
     Table ''power_of_attorney''
       [defaulted ''id'' Integer, required ''registration_session_id'' Integer,
        required ''representative_first_name'' (Varchar 50), required ''representative_last_name'' (Varchar 50),
        required ''representative_phone'' (Varchar 20), defaulted ''created_at'' (Timestamp True)]
       [''id''] [] [foreign ''registration_session_id'' ''registration_sessions'' ''id'' (Some ''CASCADE'')]"

definition T_portal_requests :: table where
  "T_portal_requests =
     Table ''portal_requests''
       [defaulted ''id'' Integer, required ''profile_id'' Integer, optional ''icm_sr_number'' (Varchar 50),
        defaulted ''status'' (Varchar 30), defaulted ''created_at'' (Timestamp True),
        defaulted ''updated_at'' (Timestamp True)]
       [''id''] [] [foreign ''profile_id'' ''profiles'' ''id'' (Some ''RESTRICT'')]"

definition upgrade_0004 :: "ddl list" where
  "upgrade_0004 =
     [CreateTable T_users, CreateTable T_profiles, CreateTable T_registration_sessions,
      CreateIndex ''ix_registration_sessions_token'' ''registration_sessions'' [''token''] True,
      CreateTable T_power_of_attorney, CreateTable T_portal_requests]"

definition downgrade_0004 :: "ddl list" where
  "downgrade_0004 =
     [DropTable ''portal_requests'', DropTable ''power_of_attorney'', DropTable ''registration_sessions'',
      DropTable ''profiles'', DropTable ''users'']"

definition T_sr_drafts :: table where
  "T_sr_drafts =
     Table ''sr_drafts''
       [required ''sr_id'' (Varchar 64), required ''user_id'' (Varchar 36), required ''sr_type'' (Varchar 50),
        optional ''draft_json'' Json, defaulted ''updated_at'' (Timestamp True)]
       [''sr_id''] [] []"

definition upgrade_0005 :: "ddl list" where
  "upgrade_0005 =
     [CreateTable T_sr_drafts, CreateIndex ''ix_sr_drafts_user_id'' ''sr_drafts'' [''user_id''] False]"

definition downgrade_0005 :: "ddl list" where
  "downgrade_0005 =
     [DropTable ''sr_drafts'']"

text \<open>The revisions, each with its \<open>down_revision\<close>.\<close>

definition revisions :: "(string \<times> string option \<times> ddl list \<times> ddl list) list" where
  "revisions =
     [(''2208d981358e'', None, upgrade_2208, downgrade_2208),
      (''0003'', Some ''2208d981358e'', upgrade_0003, downgrade_0003),
      (''0004'', Some ''0003'', upgrade_0004, downgrade_0004),
      (''0005'', Some ''0004'', upgrade_0005, downgrade_0005)]"

text \<open>\<open>alembic upgrade head\<close> and \<open>alembic downgrade base\<close>, along the chain of revisions.\<close>

definition upgrade_head :: "catalog \<Rightarrow> catalog option" where
  "upgrade_head = run_ddl (concat (map (\<lambda>(_, _, up, _). up) revisions))"

definition downgrade_base :: "catalog \<Rightarrow> catalog option" where
  "downgrade_base = run_ddl (concat (map (\<lambda>(_, _, _, down). down) (rev revisions)))"

section \<open>The tables of the models\<close>

text \<open>A unique index is listed among the unique keys.\<close>

definition User_table :: table where
  "User_table =
     Table ''user''
       [required ''id'' Uuid, required ''bceid_guid'' AutoString, required ''created_at'' (Timestamp False),
        required ''updated_at'' (Timestamp False)]
       [''id''] [[''bceid_guid'']] []"

definition Profile_table :: table where
  "Profile_table =
     Table ''profile''
       [required ''id'' Uuid, required ''user_id'' Uuid, required ''portal_id'' AutoString,
        required ''link_code'' AutoString, required ''mis_person_id'' AutoString,
        required ''created_at'' (Timestamp False), required ''updated_at'' (Timestamp False)]
       [''id''] [[''portal_id'']] [foreign ''user_id'' ''user'' ''id'' None]"

definition RegistrationSession_table :: table where
  "RegistrationSession_table =
     Table ''registrationsession''
       [required ''id'' Uuid, optional ''user_id'' Uuid, required ''invite_token'' AutoString,
        required ''step'' Integer, optional ''form_state_json'' Json, required ''expires_at'' (Timestamp False),
        optional ''completed_at'' (Timestamp False)]
       [''id''] [[''invite_token'']] [foreign ''user_id'' ''user'' ''id'' None]"

definition AORegistrationSession_table :: table where
  "AORegistrationSession_table =
     Table ''aoregistrationsession''
       [required ''id'' Uuid, required ''session_token'' Uuid, required ''worker_idir'' AutoString,
        required ''applicant_sr_num'' AutoString, required ''applicant_sin_hash'' AutoString,
        required ''step_reached'' Integer, required ''expires_at'' (Timestamp False),
        optional ''completed_at'' (Timestamp False)]
       [''id''] [[''session_token'']] []"

definition PINResetToken_table :: table where
  "PINResetToken_table =
     Table ''pinresettoken''
       [required ''id'' Uuid, required ''profile_id'' Uuid, required ''token'' AutoString,
        required ''expires_at'' (Timestamp False), optional ''used_at'' (Timestamp False)]
       [''id''] [[''token'']] [foreign ''profile_id'' ''profile'' ''id'' None]"

definition SRDraft_table :: table where
  "SRDraft_table =
     Table ''sr_drafts''
       [required ''sr_id'' (Varchar 64), required ''user_id'' (Varchar 36), required ''sr_type'' (Varchar 50),
        optional ''draft_json'' Json, required ''updated_at'' (Timestamp False)]
       [''sr_id''] [] []"

definition AttachmentRecord_table :: table where
  "AttachmentRecord_table =
     Table ''attachmentrecord''
       [required ''id'' Uuid, required ''profile_id'' Uuid, optional ''sr_draft_id'' AutoString,
        required ''filename'' AutoString, required ''mime_type'' AutoString, required ''size_bytes'' Integer,
        required ''storage_path'' AutoString, required ''av_status'' AutoString,
        required ''uploaded_at'' (Timestamp False)]
       [''id''] [] [foreign ''profile_id'' ''profile'' ''id'' None, foreign ''sr_draft_id'' ''sr_drafts'' ''sr_id'' None]"

definition ScanJob_table :: table where
  "ScanJob_table =
     Table ''scanjob''
       [required ''id'' Uuid, required ''attachment_id'' Uuid, required ''status'' AutoString,
        optional ''scanned_at'' (Timestamp False)]
       [''id''] [[''attachment_id'']] [foreign ''attachment_id'' ''attachmentrecord'' ''id'' None]"

definition PlanSignatureSession_table :: table where
  "PlanSignatureSession_table =
     Table ''plansignaturesession''
       [required ''id'' Uuid, required ''profile_id'' Uuid, required ''ep_id'' AutoString,
        required ''token'' AutoString, required ''expires_at'' (Timestamp False),
        optional ''signed_at'' (Timestamp False)]
       [''id''] [[''token'']] [foreign ''profile_id'' ''profile'' ''id'' None]"

definition DisclaimerAcknowledgement_table :: table where
  "DisclaimerAcknowledgement_table =
     Table ''disclaimeracknowledgement''
       [required ''id'' Uuid, required ''session_id'' AutoString, required ''acknowledged_at'' (Timestamp False)]
       [''id''] [] []"

definition WorkerAuditRecord_table :: table where
  "WorkerAuditRecord_table =
     Table ''workerauditrecord''
       [required ''id'' Uuid, required ''worker_idir'' AutoString, required ''worker_role'' AutoString,
        required ''action'' AutoString, required ''resource_type'' AutoString, optional ''resource_id'' AutoString,
        optional ''client_bceid_guid'' AutoString, required ''timestamp'' (Timestamp False),
        required ''request_ip'' AutoString]
       [''id''] [] []"

text \<open>\<open>SQLModel.metadata\<close>, referred tables first.\<close>

definition model_tables :: "table list" where
  "model_tables =
     [User_table, Profile_table, RegistrationSession_table, AORegistrationSession_table, SRDraft_table,
      AttachmentRecord_table, ScanJob_table, PlanSignatureSession_table, PINResetToken_table,
      WorkerAuditRecord_table, DisclaimerAcknowledgement_table]"

section \<open>Facts\<close>

text \<open>Names and foreign keys of the tables, so that catalogs are computed without their columns.\<close>

lemmas table_defs = T_aoregistrationsession_def T_disclaimeracknowledgement_def T_eligibilityratetable_def T_user_def
  T_workerauditrecord_def T_profile_def T_registrationsession_def T_pinresettoken_def
  T_plansignaturesession_def T_srdraft_def T_attachmentrecord_def T_scanjob_def
  T_eligibility_rate_table_def T_eligibility_asset_limit_def T_users_def T_profiles_def
  T_registration_sessions_def T_power_of_attorney_def T_portal_requests_def T_sr_drafts_def required_def optional_def defaulted_def

lemma tname_T [simp]:
  "tname T_aoregistrationsession = ''aoregistrationsession''"
  "tname T_disclaimeracknowledgement = ''disclaimeracknowledgement''"
  "tname T_eligibilityratetable = ''eligibilityratetable''"
  "tname T_user = ''user''"
  "tname T_workerauditrecord = ''workerauditrecord''"
  "tname T_profile = ''profile''"
  "tname T_registrationsession = ''registrationsession''"
  "tname T_pinresettoken = ''pinresettoken''"
  "tname T_plansignaturesession = ''plansignaturesession''"
  "tname T_srdraft = ''srdraft''"
  "tname T_attachmentrecord = ''attachmentrecord''"
  "tname T_scanjob = ''scanjob''"
  "tname T_eligibility_rate_table = ''eligibility_rate_table''"
  "tname T_eligibility_asset_limit = ''eligibility_asset_limit''"
  "tname T_users = ''users''"
  "tname T_profiles = ''profiles''"
  "tname T_registration_sessions = ''registration_sessions''"
  "tname T_power_of_attorney = ''power_of_attorney''"
  "tname T_portal_requests = ''portal_requests''"
  "tname T_sr_drafts = ''sr_drafts''"
  by (simp_all add: table_defs)

lemma fkeys_T [simp]:
  "fkeys T_aoregistrationsession = []"
  "fkeys T_disclaimeracknowledgement = []"
  "fkeys T_eligibilityratetable = []"
  "fkeys T_user = []"
  "fkeys T_workerauditrecord = []"
  "fkeys T_profile = [foreign ''user_id'' ''user'' ''id'' None]"
  "fkeys T_registrationsession = [foreign ''user_id'' ''user'' ''id'' None]"
  "fkeys T_pinresettoken = [foreign ''profile_id'' ''profile'' ''id'' None]"
  "fkeys T_plansignaturesession = [foreign ''profile_id'' ''profile'' ''id'' None]"
  "fkeys T_srdraft = [foreign ''profile_id'' ''profile'' ''id'' None]"
  "fkeys T_attachmentrecord = [foreign ''profile_id'' ''profile'' ''id'' None, foreign ''sr_draft_id'' ''srdraft'' ''id'' None]"
  "fkeys T_scanjob = [foreign ''attachment_id'' ''attachmentrecord'' ''id'' None]"
  "fkeys T_eligibility_rate_table = []"
  "fkeys T_eligibility_asset_limit = []"
  "fkeys T_users = []"
  "fkeys T_profiles = [foreign ''user_id'' ''users'' ''id'' (Some ''RESTRICT'')]"
  "fkeys T_registration_sessions = [foreign ''user_id'' ''users'' ''id'' (Some ''SET NULL'')]"
  "fkeys T_power_of_attorney = [foreign ''registration_session_id'' ''registration_sessions'' ''id'' (Some ''CASCADE'')]"
  "fkeys T_portal_requests = [foreign ''profile_id'' ''profiles'' ''id'' (Some ''RESTRICT'')]"
  "fkeys T_sr_drafts = []"
  by (simp_all add: table_defs)


text \<open>The catalog after each revision.\<close>

definition at_2208 :: catalog where
  "at_2208 =
     \<lparr>tables = [T_aoregistrationsession, T_disclaimeracknowledgement, T_eligibilityratetable, T_user, T_workerauditrecord,
        T_profile, T_registrationsession, T_pinresettoken, T_plansignaturesession, T_srdraft, T_attachmentrecord,
        T_scanjob],
      indexes = [Index ''ix_eligibilityratetable_rate_key'' ''eligibilityratetable'' [''rate_key''] False,
        Index ''ix_user_bceid_guid'' ''user'' [''bceid_guid''] True,
        Index ''ix_workerauditrecord_client_portal_id'' ''workerauditrecord'' [''client_portal_id''] False,
        Index ''ix_workerauditrecord_worker_idir'' ''workerauditrecord'' [''worker_idir''] False,
        Index ''ix_profile_portal_id'' ''profile'' [''portal_id''] True,
        Index ''ix_profile_user_id'' ''profile'' [''user_id''] False,
        Index ''ix_registrationsession_user_id'' ''registrationsession'' [''user_id''] False,
        Index ''ix_pinresettoken_profile_id'' ''pinresettoken'' [''profile_id''] False,
        Index ''ix_plansignaturesession_profile_id'' ''plansignaturesession'' [''profile_id''] False,
        Index ''ix_srdraft_profile_id'' ''srdraft'' [''profile_id''] False,
        Index ''ix_attachmentrecord_profile_id'' ''attachmentrecord'' [''profile_id''] False]\<rparr>"

definition at_0003 :: catalog where
  "at_0003 =
     \<lparr>tables = [T_aoregistrationsession, T_disclaimeracknowledgement, T_eligibilityratetable, T_user, T_workerauditrecord,
        T_profile, T_registrationsession, T_pinresettoken, T_plansignaturesession, T_srdraft, T_attachmentrecord,
        T_scanjob, T_eligibility_rate_table, T_eligibility_asset_limit],
      indexes = [Index ''ix_eligibilityratetable_rate_key'' ''eligibilityratetable'' [''rate_key''] False,
        Index ''ix_user_bceid_guid'' ''user'' [''bceid_guid''] True,
        Index ''ix_workerauditrecord_client_portal_id'' ''workerauditrecord'' [''client_portal_id''] False,
        Index ''ix_workerauditrecord_worker_idir'' ''workerauditrecord'' [''worker_idir''] False,
        Index ''ix_profile_portal_id'' ''profile'' [''portal_id''] True,
        Index ''ix_profile_user_id'' ''profile'' [''user_id''] False,
        Index ''ix_registrationsession_user_id'' ''registrationsession'' [''user_id''] False,
        Index ''ix_pinresettoken_profile_id'' ''pinresettoken'' [''profile_id''] False,
        Index ''ix_plansignaturesession_profile_id'' ''plansignaturesession'' [''profile_id''] False,
        Index ''ix_srdraft_profile_id'' ''srdraft'' [''profile_id''] False,
        Index ''ix_attachmentrecord_profile_id'' ''attachmentrecord'' [''profile_id''] False]\<rparr>"

definition at_0004 :: catalog where
  "at_0004 =
     \<lparr>tables = [T_aoregistrationsession, T_disclaimeracknowledgement, T_eligibilityratetable, T_user, T_workerauditrecord,
        T_profile, T_registrationsession, T_pinresettoken, T_plansignaturesession, T_srdraft, T_attachmentrecord,
        T_scanjob, T_eligibility_rate_table, T_eligibility_asset_limit, T_users, T_profiles, T_registration_sessions,
        T_power_of_attorney, T_portal_requests],
      indexes = [Index ''ix_eligibilityratetable_rate_key'' ''eligibilityratetable'' [''rate_key''] False,
        Index ''ix_user_bceid_guid'' ''user'' [''bceid_guid''] True,
        Index ''ix_workerauditrecord_client_portal_id'' ''workerauditrecord'' [''client_portal_id''] False,
        Index ''ix_workerauditrecord_worker_idir'' ''workerauditrecord'' [''worker_idir''] False,
        Index ''ix_profile_portal_id'' ''profile'' [''portal_id''] True,
        Index ''ix_profile_user_id'' ''profile'' [''user_id''] False,
        Index ''ix_registrationsession_user_id'' ''registrationsession'' [''user_id''] False,
        Index ''ix_pinresettoken_profile_id'' ''pinresettoken'' [''profile_id''] False,
        Index ''ix_plansignaturesession_profile_id'' ''plansignaturesession'' [''profile_id''] False,
        Index ''ix_srdraft_profile_id'' ''srdraft'' [''profile_id''] False,
        Index ''ix_attachmentrecord_profile_id'' ''attachmentrecord'' [''profile_id''] False,
        Index ''ix_registration_sessions_token'' ''registration_sessions'' [''token''] True]\<rparr>"

definition at_0005 :: catalog where
  "at_0005 =
     \<lparr>tables = [T_aoregistrationsession, T_disclaimeracknowledgement, T_eligibilityratetable, T_user, T_workerauditrecord,
        T_profile, T_registrationsession, T_pinresettoken, T_plansignaturesession, T_srdraft, T_attachmentrecord,
        T_scanjob, T_eligibility_rate_table, T_eligibility_asset_limit, T_users, T_profiles, T_registration_sessions,
        T_power_of_attorney, T_portal_requests, T_sr_drafts],
      indexes = [Index ''ix_eligibilityratetable_rate_key'' ''eligibilityratetable'' [''rate_key''] False,
        Index ''ix_user_bceid_guid'' ''user'' [''bceid_guid''] True,
        Index ''ix_workerauditrecord_client_portal_id'' ''workerauditrecord'' [''client_portal_id''] False,
        Index ''ix_workerauditrecord_worker_idir'' ''workerauditrecord'' [''worker_idir''] False,
        Index ''ix_profile_portal_id'' ''profile'' [''portal_id''] True,
        Index ''ix_profile_user_id'' ''profile'' [''user_id''] False,
        Index ''ix_registrationsession_user_id'' ''registrationsession'' [''user_id''] False,
        Index ''ix_pinresettoken_profile_id'' ''pinresettoken'' [''profile_id''] False,
        Index ''ix_plansignaturesession_profile_id'' ''plansignaturesession'' [''profile_id''] False,
        Index ''ix_srdraft_profile_id'' ''srdraft'' [''profile_id''] False,
        Index ''ix_attachmentrecord_profile_id'' ''attachmentrecord'' [''profile_id''] False,
        Index ''ix_registration_sessions_token'' ''registration_sessions'' [''token''] True,
        Index ''ix_sr_drafts_user_id'' ''sr_drafts'' [''user_id''] False]\<rparr>"

lemma has_columns_T [simp]:
  "has_columns T_eligibilityratetable [''rate_key'']"
  "has_columns T_user [''bceid_guid'']"
  "has_columns T_workerauditrecord [''client_portal_id'']"
  "has_columns T_workerauditrecord [''worker_idir'']"
  "has_columns T_profile [''portal_id'']"
  "has_columns T_profile [''user_id'']"
  "has_columns T_registrationsession [''user_id'']"
  "has_columns T_pinresettoken [''profile_id'']"
  "has_columns T_plansignaturesession [''profile_id'']"
  "has_columns T_srdraft [''profile_id'']"
  "has_columns T_attachmentrecord [''profile_id'']"
  "has_columns T_registration_sessions [''token'']"
  "has_columns T_sr_drafts [''user_id'']"
  "has_columns T_user [''id'']"
  "has_columns T_profile [''id'']"
  "has_columns T_srdraft [''id'']"
  "has_columns T_attachmentrecord [''id'']"
  "has_columns T_users [''id'']"
  "has_columns T_registration_sessions [''id'']"
  "has_columns T_profiles [''id'']"
  by (simp_all add: has_columns_def table_defs)

lemma insert_rates:
  "lookup_table c ''eligibility_rate_table'' = Some T_eligibility_rate_table \<Longrightarrow>
     insert_resolves c ''eligibility_rate_table''
       [''family_size'', ''type_a'', ''type_b'', ''type_c'', ''type_d'', ''type_e'', ''effective_from'', ''notes'']"
  "lookup_table c ''eligibility_asset_limit'' = Some T_eligibility_asset_limit \<Longrightarrow>
     insert_resolves c ''eligibility_asset_limit'' [''limit_type'', ''limit'', ''effective_from'', ''notes'']"
  by (simp_all add: insert_resolves_def has_columns_def table_defs)

lemmas catalog_simps = lookup_table_def resolves_def fk_resolves_def

lemma up_2208: "run_ddl upgrade_2208 no_catalog = Some at_2208"
  by (simp add: upgrade_2208_def no_catalog_def at_2208_def catalog_simps)

lemma up_0003: "run_ddl upgrade_0003 at_2208 = Some at_0003"
  by (simp add: upgrade_0003_def at_2208_def at_0003_def lookup_table_def insert_rates)

lemma up_0004: "run_ddl upgrade_0004 at_0003 = Some at_0004"
  by (simp add: upgrade_0004_def at_0003_def at_0004_def catalog_simps)

lemma up_0005: "run_ddl upgrade_0005 at_0004 = Some at_0005"
  by (simp add: upgrade_0005_def at_0004_def at_0005_def catalog_simps)

lemma run_ddl_append: "run_ddl (ds @ es) c = Option.bind (run_ddl ds c) (run_ddl es)"
  by (induction ds arbitrary: c) (auto split: bind_split)

lemma upgrade_head: "upgrade_head no_catalog = Some at_0005"
  by (simp add: upgrade_head_def revisions_def run_ddl_append up_2208 up_0003 up_0004 up_0005)

text \<open>A catalog of a database: its foreign keys refer to its tables, its indexes are on its tables.\<close>

definition catalog_ok :: "catalog \<Rightarrow> bool" where
  "catalog_ok c \<longleftrightarrow>
     list_all (\<lambda>t. list_all (\<lambda>f. lookup_table c (fk_table f) \<noteq> None) (fkeys t)) (tables c) \<and>
     list_all (\<lambda>i. lookup_table c (ix_table i) \<noteq> None) (indexes c)"

text \<open>
  A downgrade takes back the operations of its upgrade from the last to the first; an index may be left to the drop of
  its table, if it was created right after it. The first argument is the upgrade in reverse.
\<close>

fun takes_back :: "ddl list \<Rightarrow> ddl list \<Rightarrow> bool" where
  "takes_back [] [] = True"
| "takes_back (BulkInsert n ns # us) ds = takes_back us ds"
| "takes_back (CreateTable t # us) (DropTable m # ds) = (m = tname t \<and> takes_back us ds)"
| "takes_back (CreateIndex i n ns u # us) (DropIndex j m # ds) = (j = i \<and> m = n \<and> takes_back us ds)"
| "takes_back (CreateIndex i n ns u # CreateTable t # us) (DropTable m # ds) = (n = tname t \<and> m = n \<and> takes_back us ds)"
| "takes_back us ds = False"

definition undoes :: "ddl list \<Rightarrow> ddl list \<Rightarrow> bool" where
  "undoes us ds \<longleftrightarrow> (\<forall>c d. catalog_ok c \<longrightarrow> run_ddl us c = Some d \<longrightarrow> catalog_ok d \<and> run_ddl ds d = Some c)"

lemma lookup_with_table:
  "lookup_table (c\<lparr>tables := tables c @ [t]\<rparr>) n =
     (case lookup_table c n of None \<Rightarrow> if tname t = n then Some t else None | Some x \<Rightarrow> Some x)"
proof -
  have "find P (xs @ [t]) = (case find P xs of None \<Rightarrow> if P t then Some t else None | Some x \<Rightarrow> Some x)" for P and xs :: "table list"
    by (induction xs) simp_all
  then show ?thesis by (simp add: lookup_table_def)
qed

lemma run_ddl_single: "run_ddl [x] c = exec_ddl x c"
  by (cases "exec_ddl x c") simp_all

lemma lookup_indexed [simp]: "lookup_table (c\<lparr>indexes := is\<rparr>) n = lookup_table c n"
  by (simp add: lookup_table_def)

lemma not_lookup: "lookup_table c n = None \<Longrightarrow> t \<in> set (tables c) \<Longrightarrow> tname t \<noteq> n"
  by (auto simp: lookup_table_def find_None_iff)

lemma created_ok:
  assumes "catalog_ok c" and "exec_ddl (CreateTable t) c = Some d"
  shows "catalog_ok d \<and> exec_ddl (DropTable (tname t)) d = Some c"
proof -
  from assms(2) have new: "lookup_table c (tname t) = None" and fks: "list_all (fk_resolves c t) (fkeys t)"
    and d: "d = c\<lparr>tables := tables c @ [t]\<rparr>" by (auto split: if_splits)
  have there: "lookup_table d n \<noteq> None" if "lookup_table c n \<noteq> None \<or> n = tname t" for n
    using that by (auto simp: d lookup_with_table split: option.split)
  have own: "lookup_table d (fk_table f) \<noteq> None" if "f \<in> set (fkeys t)" for f
    using that fks by (intro there) (auto simp: list_all_iff fk_resolves_def resolves_def split: if_splits option.splits)
  have ok: "catalog_ok d"
    using assms(1) own there by (auto simp: catalog_ok_def list_all_iff d)
  have others: "fk_table f \<noteq> tname t" if "x \<in> set (tables c)" "f \<in> set (fkeys x)" for x f
  proof -
    have "lookup_table c (fk_table f) \<noteq> None" using that assms(1) unfolding catalog_ok_def list_all_iff by blast
    with new show ?thesis by auto
  qed
  have ixs: "ix_table i \<noteq> tname t" if "i \<in> set (indexes c)" for i
  proof -
    have "lookup_table c (ix_table i) \<noteq> None" using that assms(1) unfolding catalog_ok_def list_all_iff by blast
    with new show ?thesis by auto
  qed
  have "filter (\<lambda>x. tname x \<noteq> tname t) (tables d) = tables c" "filter (\<lambda>i. ix_table i \<noteq> tname t) (indexes d) = indexes c"
    using not_lookup[OF new] ixs by (simp_all add: d filter_id_conv)
  moreover have "list_all (\<lambda>x. tname x = tname t \<or> list_all (\<lambda>f. fk_table f \<noteq> tname t) (fkeys x)) (tables d)"
    using others by (auto simp: d list_all_iff)
  ultimately show ?thesis using ok there[of "tname t"] by simp
qed

lemma indexed_ok:
  assumes "catalog_ok c" and "exec_ddl (CreateIndex i n ns u) c = Some d"
  shows "catalog_ok d \<and> exec_ddl (DropIndex i n) d = Some c"
proof -
  from assms(2) have "resolves c n ns" and new: "\<forall>x \<in> set (indexes c). ix_name x \<noteq> i"
    and d: "d = c\<lparr>indexes := indexes c @ [Index i n ns u]\<rparr>" by (auto simp: list_all_iff split: if_splits)
  then have "lookup_table c n \<noteq> None" by (auto simp: resolves_def split: option.splits)
  with assms(1) have "catalog_ok d" by (auto simp: catalog_ok_def d)
  moreover have "filter (\<lambda>x. ix_name x \<noteq> i) (indexes d) = indexes c" using new by (simp add: d filter_id_conv)
  ultimately show ?thesis by (simp add: d)
qed

text \<open>The drop of a table takes an index on it along.\<close>

lemma drop_indexed:
  assumes "exec_ddl (CreateIndex i n ns u) c = Some d"
  shows "exec_ddl (DropTable n) d = exec_ddl (DropTable n) c"
  using assms by (auto split: if_splits)

lemma undoes_block:
  assumes "undoes us ds" and "\<And>c d. catalog_ok c \<Longrightarrow> run_ddl bs c = Some d \<Longrightarrow> catalog_ok d \<and> run_ddl es d = Some c"
  shows "undoes (us @ bs) (es @ ds)"
  unfolding undoes_def
proof (intro allI impI)
  fix c d assume ok: "catalog_ok c" and "run_ddl (us @ bs) c = Some d"
  then obtain b where "run_ddl us c = Some b" and b: "run_ddl bs b = Some d" by (auto simp: run_ddl_append bind_eq_Some_conv)
  with assms(1) ok have "catalog_ok b" "run_ddl ds b = Some c" unfolding undoes_def by blast+
  with assms(2)[OF _ b] show "catalog_ok d \<and> run_ddl (es @ ds) d = Some c" by (simp add: run_ddl_append)
qed

lemma takes_back_undoes: "takes_back us ds \<Longrightarrow> undoes (rev us) ds"
proof (induction us ds rule: takes_back.induct)
  case 1
  show ?case by (simp add: undoes_def)
next
  case (2 n ns us ds)
  have "undoes (rev us @ [BulkInsert n ns]) ([] @ ds)"
    by (rule undoes_block) (use 2 in \<open>auto split: if_splits\<close>)
  then show ?case by simp
next
  case (3 t us m ds)
  have "undoes (rev us @ [CreateTable t]) ([DropTable (tname t)] @ ds)"
    by (rule undoes_block) (use 3 created_ok in \<open>simp_all add: run_ddl_single del: exec_ddl.simps run_ddl.simps\<close>)
  with 3 show ?case by simp
next
  case (4 i n ns u us j m ds)
  have "undoes (rev us @ [CreateIndex i n ns u]) ([DropIndex i n] @ ds)"
    by (rule undoes_block) (use 4 indexed_ok in \<open>simp_all add: run_ddl_single del: exec_ddl.simps run_ddl.simps\<close>)
  with 4 show ?case by simp
next
  case (5 i n ns u t us m ds)
  have "undoes (rev us @ [CreateTable t, CreateIndex i (tname t) ns u]) ([DropTable (tname t)] @ ds)"
  proof (rule undoes_block)
    show "undoes (rev us) ds" using 5 by simp
    fix c d assume ok: "catalog_ok c" and "run_ddl [CreateTable t, CreateIndex i (tname t) ns u] c = Some d"
    then obtain b where b: "exec_ddl (CreateTable t) c = Some b" "exec_ddl (CreateIndex i (tname t) ns u) b = Some d"
      unfolding run_ddl.simps(2)[of "CreateTable t"] run_ddl_single by (auto simp: bind_eq_Some_conv simp del: exec_ddl.simps)
    from created_ok[OF ok b(1)] indexed_ok[OF _ b(2)] drop_indexed[OF b(2)]
    show "catalog_ok d \<and> run_ddl [DropTable (tname t)] d = Some c"
      unfolding run_ddl_single by (simp del: exec_ddl.simps)
  qed
  with 5 show ?case by simp
qed simp_all

lemma revisions_undone:
  "undoes upgrade_2208 downgrade_2208" "undoes upgrade_0003 downgrade_0003" "undoes upgrade_0004 downgrade_0004"
  "undoes upgrade_0005 downgrade_0005"
  using takes_back_undoes[of "rev upgrade_2208" downgrade_2208] takes_back_undoes[of "rev upgrade_0003" downgrade_0003]
    takes_back_undoes[of "rev upgrade_0004" downgrade_0004] takes_back_undoes[of "rev upgrade_0005" downgrade_0005]
  by (simp_all add: upgrade_2208_def downgrade_2208_def upgrade_0003_def downgrade_0003_def upgrade_0004_def downgrade_0004_def
      upgrade_0005_def downgrade_0005_def)

lemma undoes_append:
  assumes "undoes us ds" and "undoes vs es"
  shows "undoes (us @ vs) (es @ ds)"
  by (rule undoes_block[OF assms(1)]) (use assms(2) in \<open>auto simp: undoes_def\<close>)

text \<open>C39.
  Every downgrade undoes its upgrade, on every database: whatever tables, foreign keys and indexes a catalog has, if a
  revision applies to it, then its downgrade applies to the result and gives exactly that catalog back; the same for
  \<open>upgrade head\<close> and \<open>downgrade base\<close>. So no table is dropped while another one refers to it, no table or index is left
  behind, and nothing that was there before is touched. From the empty database \<open>upgrade head\<close> does succeed: no foreign
  key or index is created before its table.
\<close>

theorem migrations_roundtrip:
  assumes "catalog_ok c"
  shows "(\<forall>(v, w, up, down) \<in> set revisions. \<forall>d. run_ddl up c = Some d \<longrightarrow> catalog_ok d \<and> run_ddl down d = Some c) \<and>
    (\<forall>d. upgrade_head c = Some d \<longrightarrow> catalog_ok d \<and> downgrade_base d = Some c) \<and> upgrade_head no_catalog \<noteq> None"
proof -
  have each: "undoes up down" if "(v, w, up, down) \<in> set revisions" for v w up down
    using that revisions_undone by (auto simp: revisions_def)
  have "undoes (upgrade_2208 @ upgrade_0003 @ upgrade_0004 @ upgrade_0005)
      (((downgrade_0005 @ downgrade_0004) @ downgrade_0003) @ downgrade_2208)"
    by (intro undoes_append revisions_undone)
  then have "undoes (concat (map (\<lambda>(_, _, up, _). up) revisions)) (concat (map (\<lambda>(_, _, _, down). down) (rev revisions)))"
    by (simp add: revisions_def)
  with assms have "\<forall>d. upgrade_head c = Some d \<longrightarrow> catalog_ok d \<and> downgrade_base d = Some c"
    unfolding undoes_def upgrade_head_def downgrade_base_def by blast
  moreover have "\<forall>d. run_ddl up c = Some d \<longrightarrow> catalog_ok d \<and> run_ddl down d = Some c"
    if "(v, w, up, down) \<in> set revisions" for v w up down
    using each[OF that] assms unfolding undoes_def by blast
  ultimately show ?thesis using upgrade_head by auto
qed

text \<open>A database that has a table of its own, with an index, is upgraded and comes back.\<close>

definition demo_catalog :: catalog where
  "demo_catalog =
     \<lparr>tables = [Table ''t'' [required ''id'' Integer, required ''up'' Integer] [''id''] [] [foreign ''up'' ''t'' ''id'' None]],
      indexes = [Index ''ix_t'' ''t'' [''up''] False]\<rparr>"

theorem migrations_roundtrip_witness:
  "\<exists>d. run_ddl upgrade_0005 demo_catalog = Some d \<and> tables d \<noteq> tables demo_catalog \<and> run_ddl downgrade_0005 d = Some demo_catalog"
proof -
  have ok: "catalog_ok demo_catalog" by (simp add: catalog_ok_def demo_catalog_def lookup_table_def)
  obtain d where d: "run_ddl upgrade_0005 demo_catalog = Some d" "tables d = tables demo_catalog @ [T_sr_drafts]"
    by (simp add: upgrade_0005_def demo_catalog_def catalog_simps)
  have "(''0005'', Some ''0004'', upgrade_0005, downgrade_0005) \<in> set revisions" by (simp add: revisions_def)
  with conjunct1[OF migrations_roundtrip[OF ok]] d(1) have "run_ddl downgrade_0005 d = Some demo_catalog" by fastforce
  with d show ?thesis by (intro exI[of _ d]) simp
qed

section \<open>The models against the migrated database\<close>

text \<open>The columns of a model that the table of its name lacks.\<close>

definition missing_columns :: "catalog \<Rightarrow> table \<Rightarrow> string list" where
  "missing_columns c t = filter (\<lambda>n. \<not> resolves c (tname t) [n]) (map cname (columns t))"

text \<open>What the SQL texts of the registration service name: the INSERT, and the SELECT by token.\<close>

definition start_registration_columns :: "string list" where
  "start_registration_columns = [''token'', ''account_creation_type'', ''step_reached'', ''expires_at'']"

definition session_by_token_columns :: "string list" where
  "session_by_token_columns =
     [''token'', ''account_creation_type'', ''step_reached'', ''poa_data'', ''registrant_data'', ''spouse_data'',
      ''invite_token'', ''invite_token_used'', ''pin_hash'', ''pin_salt'', ''user_id'', ''expires_at'']"

lemmas model_table_defs =
  User_table_def Profile_table_def RegistrationSession_table_def AORegistrationSession_table_def SRDraft_table_def
  AttachmentRecord_table_def ScanJob_table_def PlanSignatureSession_table_def PINResetToken_table_def
  WorkerAuditRecord_table_def DisclaimerAcknowledgement_table_def required_def optional_def defaulted_def

lemma lookup_head [simp]:
  "lookup_table at_0005 ''user'' = Some T_user"
  "lookup_table at_0005 ''profile'' = Some T_profile"
  "lookup_table at_0005 ''registrationsession'' = Some T_registrationsession"
  "lookup_table at_0005 ''aoregistrationsession'' = Some T_aoregistrationsession"
  "lookup_table at_0005 ''sr_drafts'' = Some T_sr_drafts"
  "lookup_table at_0005 ''attachmentrecord'' = Some T_attachmentrecord"
  "lookup_table at_0005 ''scanjob'' = Some T_scanjob"
  "lookup_table at_0005 ''plansignaturesession'' = Some T_plansignaturesession"
  "lookup_table at_0005 ''pinresettoken'' = Some T_pinresettoken"
  "lookup_table at_0005 ''workerauditrecord'' = Some T_workerauditrecord"
  "lookup_table at_0005 ''disclaimeracknowledgement'' = Some T_disclaimeracknowledgement"
  "lookup_table at_0005 ''registration_sessions'' = Some T_registration_sessions"
  by (simp_all add: at_0005_def lookup_table_def)

lemma create_all_present: "\<forall>t \<in> set ts. lookup_table c (tname t) \<noteq> None \<Longrightarrow> create_all ts c = c"
  by (induction ts) auto

text \<open>
  The migrations and the models disagree. After \<open>upgrade head\<close> every table of the models exists, so
  that \<open>create_all\<close> changes nothing, but the table of AO registration sessions has no \<open>worker_idir\<close> (it still has
  \<open>worker_bceid\<close>) and the audit table no \<open>worker_role\<close>, \<open>client_bceid_guid\<close> and \<open>request_ip\<close>: for these
  two models, and for no other, the database refuses every INSERT of the ORM. The reference of an
  attachment to its draft is a UUID into the table \<open>srdraft\<close>, where the model has the text key of
  \<open>sr_drafts\<close>. The SQL of the registration service does agree with its table.
\<close>

theorem models_drift:
  "\<exists>c. upgrade_head no_catalog = Some c \<and> create_all model_tables c = c \<and>
     map (\<lambda>t. (tname t, missing_columns c t)) (filter (\<lambda>t. \<not> insert_resolves c (tname t) (map cname (columns t))) model_tables) =
       [(''aoregistrationsession'', [''worker_idir'']),
        (''workerauditrecord'', [''worker_role'', ''client_bceid_guid'', ''request_ip''])] \<and>
     map_option fkeys (lookup_table c ''attachmentrecord'') \<noteq> Some (fkeys AttachmentRecord_table) \<and>
     insert_resolves c ''registration_sessions'' start_registration_columns \<and>
     resolves c ''registration_sessions'' session_by_token_columns"
proof (intro exI conjI)
  show "upgrade_head no_catalog = Some at_0005" by (rule upgrade_head)
  show "create_all model_tables at_0005 = at_0005"
    by (rule create_all_present) (simp add: model_tables_def model_table_defs)
  show "map (\<lambda>t. (tname t, missing_columns at_0005 t))
      (filter (\<lambda>t. \<not> insert_resolves at_0005 (tname t) (map cname (columns t))) model_tables) =
       [(''aoregistrationsession'', [''worker_idir'']),
        (''workerauditrecord'', [''worker_role'', ''client_bceid_guid'', ''request_ip''])]"
    by (simp add: model_tables_def model_table_defs missing_columns_def resolves_def insert_resolves_def has_columns_def table_defs)
  show "map_option fkeys (lookup_table at_0005 ''attachmentrecord'') \<noteq> Some (fkeys AttachmentRecord_table)"
    by (simp add: AttachmentRecord_table_def)
  show "insert_resolves at_0005 ''registration_sessions'' start_registration_columns"
    by (simp add: insert_resolves_def start_registration_columns_def has_columns_def table_defs)
  show "resolves at_0005 ''registration_sessions'' session_by_token_columns"
    by (simp add: resolves_def session_by_token_columns_def has_columns_def table_defs)
qed

end
