(* ===== verification/Seed_Db.thy ===== *)
theory Seed_Db
  imports Schema Mock_Icm
begin

text \<open>
  The development seed script \<open>scripts/seed_db.py\<close>: the guarded seed functions over the tables of a
  database, \<open>--reset\<close>, and \<open>main\<close> with its transactions and the tokens it prints. The catalog (Schema)
  decides which statements resolve and which rows are accepted.
\<close>

section \<open>The database\<close>

datatype sql = SNull | SText string | SInt int | STime instant | SUuid string | SJson json

type_synonym row = "(string \<times> sql) list"

definition cell :: "row \<Rightarrow> string \<Rightarrow> sql" where
  "cell r c = (case map_of r c of None \<Rightarrow> SNull | Some v \<Rightarrow> v)"

text \<open>
  What depends on the database and on SQLAlchemy: which table names parse without quotes, whether foreign keys
  are enforced (PostgreSQL does, SQLite does not by default), whether a text is \<open>LIKE\<close> a prefix and \<open>%\<close>, and
  the order in which the unit of work flushes what was added.
\<close>

record dialect =
  parses :: "string \<Rightarrow> bool"
  enforces :: bool
  like_prefix :: "string \<Rightarrow> string \<Rightarrow> bool"
  flush_order :: "(string \<times> row) list \<Rightarrow> (string \<times> row) list"

text \<open>The rows committed, the rows as the transaction sees them, and the session's new objects.\<close>

record seed_state =
  cat :: catalog
  stored :: "string \<Rightarrow> row list"
  rows :: "string \<Rightarrow> row list"
  pending :: "(string \<times> row) list"
  made :: nat

record seed_env =
  now :: instant
  fresh :: "nat \<Rightarrow> string"
  bcrypt_hash :: "string \<Rightarrow> string"
  token_now :: instant
  ttl_days :: int
  encode :: "kvs \<Rightarrow> string"

text \<open>The keys that must be unique: primary key, constraints and unique indexes.\<close>

definition keys_of :: "catalog \<Rightarrow> table \<Rightarrow> string list list" where
  "keys_of c t = pkey t # uniques t @ map ix_cols (filter (\<lambda>i. ix_unique i \<and> ix_table i = tname t) (indexes c))"

definition same_key :: "row \<Rightarrow> row \<Rightarrow> string list \<Rightarrow> bool" where
  "same_key r p ks \<longleftrightarrow> list_all (\<lambda>c. cell r c = cell p c \<and> cell r c \<noteq> SNull) ks"

definition row_ok :: "dialect \<Rightarrow> seed_state \<Rightarrow> string \<Rightarrow> row \<Rightarrow> bool" where
  "row_ok d s t r =
     (case lookup_table (cat s) t of None \<Rightarrow> False
      | Some tb \<Rightarrow>
          insert_resolves (cat s) t (map fst r) \<and>
          list_all (\<lambda>k. nullable_col k \<or> has_default k \<or> cell r (cname k) \<noteq> SNull) (columns tb) \<and>
          list_all (\<lambda>ks. \<not> list_ex (\<lambda>p. same_key r p ks) (rows s t)) (keys_of (cat s) tb) \<and>
          (\<not> enforces d \<or>
            list_all (\<lambda>f. cell r (fk_col f) = SNull \<or>
                list_ex (\<lambda>p. cell p (fk_ref f) = cell r (fk_col f)) (rows s (fk_table f))) (fkeys tb)))"

fun insert_all :: "dialect \<Rightarrow> (string \<times> row) list \<Rightarrow> (seed_state, unit) io" where
  "insert_all d [] s = (Inr (), s)"
| "insert_all d ((t, r) # xs) s =
     (if row_ok d s t r then insert_all d xs (s\<lparr>rows := (rows s)(t := rows s t @ [r])\<rparr>) else (Inl SQLAlchemyExn, s))"

text \<open>The session: \<open>add_all\<close>, \<open>flush\<close>, \<open>commit\<close>, and the default of an \<open>id\<close>.\<close>

definition add_all :: "(string \<times> row) list \<Rightarrow> (seed_state, unit) io" where
  "add_all xs = modify (\<lambda>s. s\<lparr>pending := pending s @ xs\<rparr>)"

definition flush :: "dialect \<Rightarrow> (seed_state, unit) io" where
  "flush d s = insert_all d (flush_order d (pending s)) (s\<lparr>pending := []\<rparr>)"

definition commit :: "dialect \<Rightarrow> (seed_state, unit) io" where
  "commit d = bind (flush d) (\<lambda>_. modify (\<lambda>s. s\<lparr>stored := rows s\<rparr>))"

definition new_id :: "seed_env \<Rightarrow> (seed_state, sql) io" where
  "new_id e s = (Inr (SUuid (fresh e (made s))), s\<lparr>made := Suc (made s)\<rparr>)"

text \<open>
  The checks: \<open>session.get\<close> by primary key, which flushes and selects every column of the model, and
  \<open>SELECT count(*)\<close> with a pattern or a value.
\<close>

datatype check = ById table sql | CountLike string string string | CountEq string string sql

fun check_table :: "check \<Rightarrow> string" where
  "check_table (ById tb v) = tname tb"
| "check_table (CountLike t c p) = t"
| "check_table (CountEq t c v) = t"

fun check_columns :: "check \<Rightarrow> string list" where
  "check_columns (ById tb v) = map cname (columns tb)"
| "check_columns (CountLike t c p) = [c]"
| "check_columns (CountEq t c v) = [c]"

fun check_row :: "dialect \<Rightarrow> check \<Rightarrow> row \<Rightarrow> bool" where
  "check_row d (ById tb v) r \<longleftrightarrow> cell r (hd (pkey tb)) = v"
| "check_row d (CountLike t c p) r \<longleftrightarrow> (case cell r c of SText x \<Rightarrow> like_prefix d x p | _ \<Rightarrow> False)"
| "check_row d (CountEq t c v) r \<longleftrightarrow> cell r c = v \<and> v \<noteq> SNull"

definition exists_row :: "dialect \<Rightarrow> check \<Rightarrow> (seed_state, bool) io" where
  "exists_row d g =
     bind (case g of ById tb v \<Rightarrow> flush d | _ \<Rightarrow> ret ()) (\<lambda>_ s.
       if resolves (cat s) (check_table g) (check_columns g)
       then (Inr (list_ex (check_row d g) (rows s (check_table g))), s)
       else (Inl SQLAlchemyExn, s))"

section \<open>Personas\<close>

definition SEED_ALICE_USER_ID :: string where
  "SEED_ALICE_USER_ID = ''a0000000-0000-0000-0000-000000000001''"

definition SEED_BOB_USER_ID :: string where
  "SEED_BOB_USER_ID = ''b0000000-0000-0000-0000-000000000002''"

definition SEED_CAROL_USER_ID :: string where
  "SEED_CAROL_USER_ID = ''c0000000-0000-0000-0000-000000000003''"

definition SEED_ALICE_BCEID :: string where
  "SEED_ALICE_BCEID = ''alice-bceid-1001''"

definition SEED_BOB_BCEID :: string where
  "SEED_BOB_BCEID = ''bob-bceid-1002''"

definition SEED_CAROL_BCEID :: string where
  "SEED_CAROL_BCEID = ''carol-bceid-1003''"

definition SEED_ALICE_PROFILE_ID :: string where
  "SEED_ALICE_PROFILE_ID = ''a1000000-0000-0000-0000-000000000001''"

definition SEED_BOB_PROFILE_ID :: string where
  "SEED_BOB_PROFILE_ID = ''b1000000-0000-0000-0000-000000000002''"

definition SEED_CAROL_PROFILE_ID :: string where
  "SEED_CAROL_PROFILE_ID = ''c1000000-0000-0000-0000-000000000003''"

definition SEED_WORKER_IDIR :: string where
  "SEED_WORKER_IDIR = ''jsmith''"

definition hours :: "int \<Rightarrow> int" where
  "hours n = seconds (3600 * n)"

definition minutes :: "int \<Rightarrow> int" where
  "minutes n = seconds (60 * n)"

section \<open>Seed functions\<close>

text \<open>\<open>if existing: return\<close>, else the inserts.\<close>

definition unless_seeded :: "dialect \<Rightarrow> check \<Rightarrow> 'a \<Rightarrow> (seed_state, 'a) io \<Rightarrow> (seed_state, 'a) io" where
  "unless_seeded d g skipped body = bind (exists_row d g) (\<lambda>existing. if existing then ret skipped else body)"

definition user_row :: "seed_env \<Rightarrow> string \<Rightarrow> string \<Rightarrow> string \<times> row" where
  "user_row e i guid =
     (''user'', [(''id'', SUuid i), (''bceid_guid'', SText guid), (''created_at'', STime (now e)), (''updated_at'', STime (now e))])"

definition users_check :: check where
  "users_check = ById User_table (SUuid SEED_ALICE_USER_ID)"

definition user_rows :: "seed_env \<Rightarrow> (string \<times> row) list" where
  "user_rows e =
     [user_row e SEED_ALICE_USER_ID SEED_ALICE_BCEID, user_row e SEED_BOB_USER_ID SEED_BOB_BCEID,
      user_row e SEED_CAROL_USER_ID SEED_CAROL_BCEID]"

definition seed_users :: "dialect \<Rightarrow> seed_env \<Rightarrow> (seed_state, bool) io" where
  "seed_users d e = unless_seeded d users_check False
     (bind (add_all (user_rows e)) (\<lambda>_. ret True))"

definition profile_row :: "seed_env \<Rightarrow> string \<Rightarrow> string \<Rightarrow> string \<Rightarrow> string \<Rightarrow> string \<Rightarrow> string \<times> row" where
  "profile_row e i u portal link mis =
     (''profile'', [(''id'', SUuid i), (''user_id'', SUuid u), (''portal_id'', SText portal), (''link_code'', SText link),
        (''mis_person_id'', SText mis), (''created_at'', STime (now e)), (''updated_at'', STime (now e))])"

definition profiles_check :: check where
  "profiles_check = ById Profile_table (SUuid SEED_ALICE_PROFILE_ID)"

definition profile_rows :: "seed_env \<Rightarrow> (string \<times> row) list" where
  "profile_rows e =
     [profile_row e SEED_ALICE_PROFILE_ID SEED_ALICE_USER_ID ''PTL-ALICE-001'' ''LINKED'' ''MIS-001'',
      profile_row e SEED_BOB_PROFILE_ID SEED_BOB_USER_ID ''PTL-BOB-002'' ''LINKED'' ''MIS-002'',
      profile_row e SEED_CAROL_PROFILE_ID SEED_CAROL_USER_ID ''PTL-CAROL-003'' ''UNLINKED'' ''MIS-003'']"

definition seed_profiles :: "dialect \<Rightarrow> seed_env \<Rightarrow> (seed_state, unit) io" where
  "seed_profiles d e = unless_seeded d profiles_check ()
     (add_all (profile_rows e))"

definition registration_check :: check where
  "registration_check = CountLike ''registrationsession'' ''invite_token'' ''seed-''"

definition dana_form :: json where
  "dana_form =
     JObj [(''account_creation_type'', JStr ''SELF''), (''first_name'', JStr ''Dana''), (''last_name'', JStr ''Kowalski''),
       (''date_of_birth'', JStr ''1992-06-18''), (''email'', JStr ''dana.kowalski@example.com''),
       (''phone_number'', JStr ''604-555-0404''),
       (''address'', JObj [(''street'', JStr ''321 Birch Lane''), (''city'', JStr ''Burnaby''), (''province'', JStr ''BC''),
          (''postal_code'', JStr ''V5H 3R7'')])]"

definition registration_rows :: "seed_env \<Rightarrow> sql \<Rightarrow> sql \<Rightarrow> (string \<times> row) list" where
  "registration_rows e i j =
     [(''registrationsession'', [(''id'', i), (''user_id'', SUuid SEED_ALICE_USER_ID),
         (''invite_token'', SText ''seed-invite-alice-completed''), (''step'', SInt 6),
         (''form_state_json'', SJson (JObj [(''account_creation_type'', JStr ''SELF''), (''completed'', JBool True)])),
         (''expires_at'', STime (now e - hours 1)), (''completed_at'', STime (now e - hours 2))]),
      (''registrationsession'', [(''id'', j), (''user_id'', SNull),
         (''invite_token'', SText ''seed-invite-in-progress''), (''step'', SInt 3), (''form_state_json'', SJson dana_form),
         (''expires_at'', STime (now e + hours 24)), (''completed_at'', SNull)])]"

definition seed_registration_sessions :: "dialect \<Rightarrow> seed_env \<Rightarrow> (seed_state, unit) io" where
  "seed_registration_sessions d e = unless_seeded d registration_check ()
     (bind (new_id e) (\<lambda>i. bind (new_id e) (\<lambda>j.
      add_all (registration_rows e i j))))"

definition pin_reset_check :: check where
  "pin_reset_check = CountLike ''pinresettoken'' ''token'' ''seed-''"

definition pin_reset_rows :: "seed_env \<Rightarrow> sql \<Rightarrow> sql \<Rightarrow> (string \<times> row) list" where
  "pin_reset_rows e i j =
     [(''pinresettoken'', [(''id'', i), (''profile_id'', SUuid SEED_ALICE_PROFILE_ID), (''token'', SText ''seed-pin-reset-active''),
         (''expires_at'', STime (now e + hours 1)), (''used_at'', SNull)]),
      (''pinresettoken'', [(''id'', j), (''profile_id'', SUuid SEED_BOB_PROFILE_ID), (''token'', SText ''seed-pin-reset-expired''),
         (''expires_at'', STime (now e - hours 24)), (''used_at'', STime (now e - hours 25))])]"

definition seed_pin_reset_tokens :: "dialect \<Rightarrow> seed_env \<Rightarrow> (seed_state, unit) io" where
  "seed_pin_reset_tokens d e = unless_seeded d pin_reset_check ()
     (bind (new_id e) (\<lambda>i. bind (new_id e) (\<lambda>j.
      add_all (pin_reset_rows e i j))))"

definition ao_check :: check where
  "ao_check = CountEq ''aoregistrationsession'' ''worker_idir'' (SText SEED_WORKER_IDIR)"

definition ao_rows :: "seed_env \<Rightarrow> sql \<Rightarrow> sql \<Rightarrow> (string \<times> row) list" where
  "ao_rows e i tok =
     [(''aoregistrationsession'', [(''id'', i), (''session_token'', tok), (''worker_idir'', SText SEED_WORKER_IDIR),
         (''applicant_sr_num'', SText ''SR-AO-001''), (''applicant_sin_hash'', SText (bcrypt_hash e ''000000000'')),
         (''step_reached'', SInt 1), (''expires_at'', STime (now e + hours 4)), (''completed_at'', SNull)])]"

definition seed_ao_registration :: "dialect \<Rightarrow> seed_env \<Rightarrow> (seed_state, unit) io" where
  "seed_ao_registration d e = unless_seeded d ao_check ()
     (bind (new_id e) (\<lambda>i. bind (new_id e) (\<lambda>tok.
      add_all (ao_rows e i tok))))"

definition draft_row :: "seed_env \<Rightarrow> string \<Rightarrow> string \<Rightarrow> string \<Rightarrow> kvs \<Rightarrow> string \<times> row" where
  "draft_row e i u t form =
     (''sr_drafts'', [(''sr_id'', SText i), (''user_id'', SText u), (''sr_type'', SText t), (''draft_json'', SJson (JObj form)),
        (''updated_at'', STime (now e))])"

definition drafts_check :: check where
  "drafts_check = ById SRDraft_table (SText ''SR-A001'')"

definition draft_rows :: "seed_env \<Rightarrow> (string \<times> row) list" where
  "draft_rows e =
     [draft_row e ''SR-A001'' SEED_ALICE_USER_ID ''ASSIST''
        [(''employment_status'', JStr ''unemployed''), (''seeking_employment'', JBool True),
         (''last_employer'', JStr ''Pacific Coast Catering''), (''last_employment_date'', JStr ''2025-11-15''),
         (''reason_for_leaving'', JStr ''Contract ended''), (''monthly_expenses'', JStr ''1450.00'')],
      draft_row e ''SR-A002'' SEED_ALICE_USER_ID ''CRISIS_FOOD''
        [(''crisis_type'', JStr ''food''), (''amount_requested'', JStr ''200.00''), (''household_size'', JInt 2),
         (''last_grocery_date'', JStr ''2026-02-10''),
         (''description'', JStr ''Unexpected expense depleted food budget for the month'')],
      draft_row e ''SR-B001'' SEED_BOB_USER_ID ''DIRECT_DEPOSIT''
        [(''bank_name'', JStr ''TD Canada Trust''), (''transit_number'', JStr ''00123''), (''institution_number'', JStr ''004''),
         (''account_number'', JStr ''1234567''), (''account_holder_name'', JStr ''Bob Chen'')]]"

definition seed_sr_drafts :: "dialect \<Rightarrow> seed_env \<Rightarrow> (seed_state, unit) io" where
  "seed_sr_drafts d e = unless_seeded d drafts_check ()
     (add_all (draft_rows e))"

definition attachment_row :: "seed_env \<Rightarrow> sql \<Rightarrow> string \<Rightarrow> sql \<Rightarrow> string \<Rightarrow> string \<Rightarrow> int \<Rightarrow> string \<Rightarrow> string \<Rightarrow> string \<times> row" where
  "attachment_row e i profile draft name mime sz path av =
     (''attachmentrecord'', [(''id'', i), (''profile_id'', SUuid profile), (''sr_draft_id'', draft), (''filename'', SText name),
        (''mime_type'', SText mime), (''size_bytes'', SInt sz), (''storage_path'', SText path), (''av_status'', SText av),
        (''uploaded_at'', STime (now e))])"

definition scan_row :: "sql \<Rightarrow> sql \<Rightarrow> string \<Rightarrow> sql \<Rightarrow> string \<times> row" where
  "scan_row i att st at = (''scanjob'', [(''id'', i), (''attachment_id'', att), (''status'', SText st), (''scanned_at'', at)])"

definition attachments_check :: check where
  "attachments_check = CountLike ''attachmentrecord'' ''storage_path'' ''seed/''"

definition attachment_rows :: "seed_env \<Rightarrow> sql \<Rightarrow> sql \<Rightarrow> sql \<Rightarrow> (string \<times> row) list" where
  "attachment_rows e alice bob carol =
     [attachment_row e alice SEED_ALICE_PROFILE_ID (SText ''SR-A001'') ''T4_2025_Pacific_Coast_Catering.pdf'' ''application/pdf''
        45000 ''seed/alice/T4_2025_Pacific_Coast_Catering.pdf'' ''CLEAN'',
      attachment_row e bob SEED_BOB_PROFILE_ID (SText ''SR-B001'') ''TD_bank_statement_Feb_2026.pdf'' ''application/pdf''
        128000 ''seed/bob/TD_bank_statement_Feb_2026.pdf'' ''PENDING'',
      attachment_row e carol SEED_CAROL_PROFILE_ID SNull ''suspicious_file.exe'' ''application/octet-stream''
        666 ''seed/carol/suspicious_file.exe'' ''INFECTED'']"

definition scan_rows :: "seed_env \<Rightarrow> sql \<Rightarrow> sql \<Rightarrow> sql \<Rightarrow> sql \<Rightarrow> sql \<Rightarrow> sql \<Rightarrow> (string \<times> row) list" where
  "scan_rows e alice bob carol i j k =
     [scan_row i alice ''CLEAN'' (STime (now e)), scan_row j bob ''QUEUED'' SNull,
     scan_row k carol ''INFECTED'' (STime (now e))]"

definition seed_attachments :: "dialect \<Rightarrow> seed_env \<Rightarrow> (seed_state, unit) io" where
  "seed_attachments d e = unless_seeded d attachments_check ()
     (bind (new_id e) (\<lambda>alice. bind (new_id e) (\<lambda>bob. bind (new_id e) (\<lambda>carol.
      bind (add_all (attachment_rows e alice bob carol)) (\<lambda>_.
      bind (flush d) (\<lambda>_.
      bind (new_id e) (\<lambda>i. bind (new_id e) (\<lambda>j. bind (new_id e) (\<lambda>k.
      add_all (scan_rows e alice bob carol i j k))))))))))"

definition signatures_check :: check where
  "signatures_check = CountLike ''plansignaturesession'' ''token'' ''seed-''"

definition signature_rows :: "seed_env \<Rightarrow> sql \<Rightarrow> sql \<Rightarrow> (string \<times> row) list" where
  "signature_rows e i j =
     [(''plansignaturesession'', [(''id'', i), (''profile_id'', SUuid SEED_BOB_PROFILE_ID), (''ep_id'', SText ''EP-B001''),
         (''token'', SText ''seed-ep-unsigned''), (''expires_at'', STime (now e + hours 2)), (''signed_at'', SNull)]),
      (''plansignaturesession'', [(''id'', j), (''profile_id'', SUuid SEED_BOB_PROFILE_ID), (''ep_id'', SText ''EP-B002''),
         (''token'', SText ''seed-ep-signed''), (''expires_at'', STime (now e + hours 24)),
         (''signed_at'', STime (now e - hours 12))])]"

definition seed_plan_signatures :: "dialect \<Rightarrow> seed_env \<Rightarrow> (seed_state, unit) io" where
  "seed_plan_signatures d e = unless_seeded d signatures_check ()
     (bind (new_id e) (\<lambda>i. bind (new_id e) (\<lambda>j.
      add_all (signature_rows e i j))))"

definition disclaimer_check :: check where
  "disclaimer_check = CountEq ''disclaimeracknowledgement'' ''session_id'' (SText ''seed-session'')"

definition disclaimer_rows :: "seed_env \<Rightarrow> sql \<Rightarrow> (string \<times> row) list" where
  "disclaimer_rows e i =
     [(''disclaimeracknowledgement'', [(''id'', i), (''session_id'', SText ''seed-session''),
     (''acknowledged_at'', STime (now e))])]"

definition seed_disclaimer :: "dialect \<Rightarrow> seed_env \<Rightarrow> (seed_state, unit) io" where
  "seed_disclaimer d e = unless_seeded d disclaimer_check ()
     (bind (new_id e) (\<lambda>i.
      add_all (disclaimer_rows e i)))"

definition audit_row ::
  "sql \<Rightarrow> string \<Rightarrow> string \<Rightarrow> string \<Rightarrow> sql \<Rightarrow> sql \<Rightarrow> instant \<Rightarrow> string \<Rightarrow> string \<times> row" where
  "audit_row i rl act ty res client at ip =
     (''workerauditrecord'', [(''id'', i), (''worker_idir'', SText SEED_WORKER_IDIR), (''worker_role'', SText rl), (''action'', SText act),
        (''resource_type'', SText ty), (''resource_id'', res), (''client_bceid_guid'', client), (''timestamp'', STime at),
        (''request_ip'', SText ip)])"

definition audit_check :: check where
  "audit_check = CountEq ''workerauditrecord'' ''worker_idir'' (SText SEED_WORKER_IDIR)"

definition audit_rows :: "seed_env \<Rightarrow> sql \<Rightarrow> sql \<Rightarrow> sql \<Rightarrow> sql \<Rightarrow> sql \<Rightarrow> sql \<Rightarrow> sql \<Rightarrow> sql \<Rightarrow> (string \<times> row) list" where
  "audit_rows e i1 i2 i3 i4 i5 i6 i7 i8 =
    (let alice = SText SEED_ALICE_BCEID; bob = SText SEED_BOB_BCEID; worker = ''SSBC_WORKER'' in
     [audit_row i1 worker ''GET /api/admin/clients'' ''client_search'' SNull SNull (now e - (hours 7 + minutes 30)) ''10.0.0.1'',
      audit_row i2 worker ''GET /api/admin/clients/alice-bceid-1001'' ''client_profile'' alice alice (now e - hours 7) ''10.0.0.1'',
      audit_row i3 worker ''POST /api/admin/support-view/tombstone'' ''tombstone_session'' alice alice
        (now e - (hours 6 + minutes 30)) ''10.0.0.1'',
      audit_row i4 worker ''POST /api/account/validate-pin'' ''pin_validation'' (SText SEED_ALICE_USER_ID) alice
        (now e - hours 5) ''10.0.0.1'',
      audit_row i5 worker ''GET /api/admin/clients'' ''client_search'' SNull SNull (now e - hours 4) ''10.0.0.1'',
      audit_row i6 worker ''GET /api/admin/clients/bob-bceid-1002'' ''client_profile'' bob bob
        (now e - (hours 3 + minutes 30)) ''10.0.0.1'',
      audit_row i7 worker ''GET /api/service-requests'' ''sr_list'' (SText SEED_BOB_USER_ID) bob (now e - hours 2) ''10.0.0.1'',
      audit_row i8 ''SUPER_ADMIN'' ''POST /api/admin/ao/validate'' ''ao_registration'' SNull SNull
        (now e - minutes 30) ''10.0.0.2''])"

definition seed_audit_records :: "dialect \<Rightarrow> seed_env \<Rightarrow> (seed_state, unit) io" where
  "seed_audit_records d e = unless_seeded d audit_check ()
     (bind (new_id e) (\<lambda>i1. bind (new_id e) (\<lambda>i2. bind (new_id e) (\<lambda>i3. bind (new_id e) (\<lambda>i4.
      bind (new_id e) (\<lambda>i5. bind (new_id e) (\<lambda>i6. bind (new_id e) (\<lambda>i7. bind (new_id e) (\<lambda>i8.
      add_all (audit_rows e i1 i2 i3 i4 i5 i6 i7 i8))))))))))"

section \<open>Reset and main\<close>

definition TRUNCATE_ORDER :: "string list" where
  "TRUNCATE_ORDER =
     [''scanjob'', ''attachmentrecord'', ''plansignaturesession'', ''pinresettoken'', ''sr_drafts'', ''workerauditrecord'',
      ''disclaimeracknowledgement'', ''aoregistrationsession'', ''registrationsession'', ''profile'', ''user'']"

text \<open>
  \<open>DELETE FROM t\<close>: where foreign keys are enforced, no row of another table may refer to \<open>t\<close> (no
  foreign key to a table of \<open>TRUNCATE_ORDER\<close> has an \<open>ON DELETE\<close> action).
\<close>

definition unreferenced :: "seed_state \<Rightarrow> string \<Rightarrow> bool" where
  "unreferenced s t \<longleftrightarrow>
     list_all (\<lambda>tb. tname tb = t \<or>
       list_all (\<lambda>f. fk_table f \<noteq> t \<or> list_all (\<lambda>r. cell r (fk_col f) = SNull) (rows s (tname tb))) (fkeys tb)) (tables (cat s))"

definition delete_from :: "dialect \<Rightarrow> string \<Rightarrow> (seed_state, unit) io" where
  "delete_from d t s =
     (if parses d t \<and> lookup_table (cat s) t \<noteq> None \<and> (\<not> enforces d \<or> unreferenced s t)
      then (Inr (), s\<lparr>rows := (rows s)(t := [])\<rparr>)
      else (Inl SQLAlchemyExn, s))"

definition in_turn :: "(seed_state, unit) io list \<Rightarrow> (seed_state, unit) io" where
  "in_turn ms = foldr (\<lambda>m rest. bind m (\<lambda>_. rest)) ms (ret ())"

definition reset_seed_data :: "dialect \<Rightarrow> (seed_state, unit) io" where
  "reset_seed_data d = bind (in_turn (map (delete_from d) TRUNCATE_ORDER)) (\<lambda>_. commit d)"

definition seed_functions :: "dialect \<Rightarrow> seed_env \<Rightarrow> (seed_state, unit) io list" where
  "seed_functions d e =
     [bind (seed_users d e) (\<lambda>_. ret ()), seed_profiles d e, seed_registration_sessions d e, seed_pin_reset_tokens d e,
      seed_ao_registration d e, seed_sr_drafts d e, seed_attachments d e, seed_plan_signatures d e, seed_disclaimer d e,
      seed_audit_records d e]"

definition make_jwt :: "seed_env \<Rightarrow> string \<Rightarrow> string \<Rightarrow> string option \<Rightarrow> string option \<Rightarrow> kvs" where
  "make_jwt e sub rl guid idir =
     [(''sub'', JStr sub), (''role'', JStr rl), (''exp'', JInt ((token_now e + hours (24 * ttl_days e)) div 1000000))] @
     (case guid of None \<Rightarrow> [] | Some g \<Rightarrow> if g = [] then [] else [(''bceid_guid'', JStr g)]) @
     (case idir of None \<Rightarrow> [] | Some i \<Rightarrow> if i = [] then [] else [(''idir_username'', JStr i)])"

definition seed_claims :: "seed_env \<Rightarrow> kvs list" where
  "seed_claims e =
     [make_jwt e SEED_ALICE_USER_ID ''CLIENT'' (Some SEED_ALICE_BCEID) None,
      make_jwt e SEED_BOB_USER_ID ''CLIENT'' (Some SEED_BOB_BCEID) None,
      make_jwt e SEED_CAROL_USER_ID ''CLIENT'' (Some SEED_CAROL_BCEID) None,
      make_jwt e SEED_WORKER_IDIR ''WORKER'' None (Some SEED_WORKER_IDIR)]"

text \<open>\<open>async with async_session() as session\<close>: what was not committed is rolled back at the end.\<close>

definition with_session :: "(seed_state, 'a) io \<Rightarrow> (seed_state, 'a) io" where
  "with_session m s =
     (let (r, t) = m (s\<lparr>rows := stored s, pending := []\<rparr>) in (r, t\<lparr>rows := stored t, pending := []\<rparr>))"

text \<open>\<open>main\<close>, with the printed tokens as its result.\<close>

definition seed_main :: "dialect \<Rightarrow> seed_env \<Rightarrow> bool \<Rightarrow> (seed_state, string list) io" where
  "seed_main d e reset =
     bind (modify (\<lambda>s. s\<lparr>cat := create_all model_tables (cat s)\<rparr>)) (\<lambda>_.
     bind (with_session
       (bind (if reset then reset_seed_data d else ret ()) (\<lambda>_.
        bind (in_turn (seed_functions d e)) (\<lambda>_. commit d)))) (\<lambda>_.
     ret (map (encode e) (seed_claims e))))"

section \<open>Seeding twice\<close>

text \<open>What is relied on: the flush takes exactly the pending rows, and \<open>LIKE 'p%'\<close> matches a text that starts with \<open>p\<close>.\<close>

definition sane :: "dialect \<Rightarrow> bool" where
  "sane d \<longleftrightarrow> (\<forall>xs. set (flush_order d xs) = set xs) \<and> (\<forall>p x. like_prefix d (p @ x) p)"

definition seen :: "dialect \<Rightarrow> check \<Rightarrow> seed_state \<Rightarrow> bool" where
  "seen d g s \<longleftrightarrow>
     (\<exists>r. (r \<in> set (rows s (check_table g)) \<or> (check_table g, r) \<in> set (pending s)) \<and> check_row d g r)"

definition grows :: "dialect \<Rightarrow> seed_state \<Rightarrow> seed_state \<Rightarrow> bool" where
  "grows d s t \<longleftrightarrow> cat t = cat s \<and> stored t = stored s \<and> (\<forall>g. seen d g s \<longrightarrow> seen d g t)"

lemma grows_refl [simp]: "grows d s s" by (simp add: grows_def)
lemma grows_trans: "grows d s t \<Longrightarrow> grows d t u \<Longrightarrow> grows d s u" by (simp add: grows_def)

lemma insert_all_ok:
  "insert_all d xs s = (Inr u, t) \<Longrightarrow>
     cat t = cat s \<and> stored t = stored s \<and> pending t = pending s \<and>
     (\<forall>n. set (rows t n) = set (rows s n) \<union> {r. (n, r) \<in> set xs})"
  by (induction d xs s rule: insert_all.induct) (auto split: if_splits)

lemma flush_ok: "sane d \<Longrightarrow> flush d s = (Inr u, t) \<Longrightarrow> grows d s t \<and> pending t = []"
  unfolding flush_def by (drule insert_all_ok) (auto simp: grows_def seen_def sane_def)

lemma flush_nothing:
  assumes "sane d" and "pending s = []"
  shows "flush d s = (Inr (), s)"
proof -
  have "set (flush_order d []) = {}" using assms(1) by (simp add: sane_def)
  then have "flush_order d [] = []" by simp
  moreover have "s\<lparr>pending := pending s\<rparr> = s" by simp
  ultimately show ?thesis using assms(2) by (simp add: flush_def)
qed

lemma new_id_ok: "new_id e s = (Inr i, t) \<Longrightarrow> grows d s t"
  by (auto simp: new_id_def grows_def seen_def)

lemma add_all_ok:
  assumes "add_all xs s = (Inr u, t)"
  shows "grows d s t" and "(check_table g, r) \<in> set xs \<Longrightarrow> check_row d g r \<Longrightarrow> seen d g t"
  using assms by (auto simp: add_all_def grows_def seen_def)

lemma exists_row_ok:
  assumes "sane d" and "exists_row d g s = (Inr b, t)"
  shows "grows d s t \<and> (b \<longrightarrow> seen d g t) \<and> resolves (cat s) (check_table g) (check_columns g)"
proof -
  obtain v where "(case g of ById tb v \<Rightarrow> flush d | _ \<Rightarrow> ret ()) s = (Inr v, t)"
    and r: "resolves (cat t) (check_table g) (check_columns g)" "b = list_ex (check_row d g) (rows t (check_table g))"
    using assms(2) by (auto simp: exists_row_def elim!: bind_InrE split: if_splits)
  then have "grows d s t" using flush_ok[OF assms(1)] by (cases g) auto
  then show ?thesis using r by (auto simp: grows_def seen_def list_ex_iff)
qed

text \<open>A computation that, when it succeeds, leaves a row its check finds.\<close>

definition seeds :: "dialect \<Rightarrow> check \<Rightarrow> (seed_state, 'a) io \<Rightarrow> bool" where
  "seeds d g m \<longleftrightarrow> (\<forall>s x t. m s = (Inr x, t) \<longrightarrow> grows d s t \<and> seen d g t)"

lemma seeds_new_id: "(\<And>i. seeds d g (f i)) \<Longrightarrow> seeds d g (bind (new_id e) f)"
  unfolding seeds_def by (auto elim!: bind_InrE intro: grows_trans new_id_ok)

lemma seeds_add_all: "(check_table g, r) \<in> set xs \<Longrightarrow> check_row d g r \<Longrightarrow> seeds d g (add_all xs)"
  unfolding seeds_def by (blast intro: add_all_ok)

lemma seeds_then: "seeds d g m \<Longrightarrow> (\<And>x s y t. f x s = (Inr y, t) \<Longrightarrow> grows d s t) \<Longrightarrow> seeds d g (bind m f)"
  unfolding seeds_def by (fastforce elim!: bind_InrE simp: grows_def)

lemma seeds_add_first: "n = check_table g \<Longrightarrow> check_row d g r \<Longrightarrow> seeds d g (add_all ((n, r) # xs))"
  by (rule seeds_add_all) simp_all

definition guarded :: "dialect \<Rightarrow> check \<Rightarrow> (seed_state, unit) io \<Rightarrow> bool" where
  "guarded d g m \<longleftrightarrow>
     seeds d g m \<and>
     (\<forall>s x t. m s = (Inr x, t) \<longrightarrow> resolves (cat s) (check_table g) (check_columns g)) \<and>
     (\<forall>s. pending s = [] \<longrightarrow> seen d g s \<longrightarrow> resolves (cat s) (check_table g) (check_columns g) \<longrightarrow> m s = (Inr (), s))"

lemma unless_seeded_seeds:
  assumes "sane d" and "seeds d g body"
  shows "seeds d g (unless_seeded d g v body)"
  unfolding seeds_def
proof (intro allI impI)
  fix s x t assume "unless_seeded d g v body s = (Inr x, t)"
  then obtain b u where b: "exists_row d g s = (Inr b, u)" and rest: "(if b then ret v else body) u = (Inr x, t)"
    unfolding unless_seeded_def by (rule bind_InrE)
  then show "grows d s t \<and> seen d g t"
    using exists_row_ok[OF assms(1) b] assms(2) by (cases b) (auto simp: seeds_def intro: grows_trans)
qed

lemma unless_seeded_resolves:
  "sane d \<Longrightarrow> unless_seeded d g v body s = (Inr x, t) \<Longrightarrow> resolves (cat s) (check_table g) (check_columns g)"
  unfolding unless_seeded_def by (erule bind_InrE) (blast dest: exists_row_ok)

lemma unless_seeded_skips:
  assumes "sane d" and "pending s = []" and "seen d g s" and "resolves (cat s) (check_table g) (check_columns g)"
  shows "unless_seeded d g v body s = (Inr v, s)"
proof -
  have "(case g of ById tb v \<Rightarrow> flush d | _ \<Rightarrow> ret ()) s = (Inr (), s)"
    using flush_nothing[OF assms(1,2)] by (cases g) simp_all
  then have "exists_row d g s = (Inr True, s)"
    using assms(2-4) by (auto simp: exists_row_def bind_Inr seen_def list_ex_iff)
  then show ?thesis by (simp add: unless_seeded_def bind_Inr)
qed

lemma unless_seeded_guarded: "sane d \<Longrightarrow> seeds d g body \<Longrightarrow> guarded d g (unless_seeded d g () body)"
  unfolding guarded_def by (blast intro: unless_seeded_seeds unless_seeded_skips dest: unless_seeded_resolves)

lemmas check_defs = users_check_def profiles_check_def registration_check_def pin_reset_check_def ao_check_def drafts_check_def
  attachments_check_def signatures_check_def disclaimer_check_def audit_check_def

definition checks :: "check list" where
  "checks = [users_check, profiles_check, registration_check, pin_reset_check, ao_check, drafts_check, attachments_check,
     signatures_check, disclaimer_check, audit_check]"

lemma like_seed: "sane d \<Longrightarrow> like_prefix d (CHR ''s'' # CHR ''e'' # CHR ''e'' # CHR ''d'' # c # x) [CHR ''s'', CHR ''e'', CHR ''e'', CHR ''d'', c]"
  unfolding sane_def by (metis append_Cons append_Nil)

lemma seed_users_guarded: "sane d \<Longrightarrow> guarded d users_check (bind (seed_users d e) (\<lambda>_. ret ()))"
  unfolding guarded_def
proof (intro conjI allI impI)
  assume d: "sane d"
  have "seeds d users_check (bind (add_all (user_rows e)) (\<lambda>_. ret True))"
    unfolding user_rows_def user_row_def
    by (rule seeds_then, rule seeds_add_first) (simp_all add: users_check_def User_table_def cell_def)
  then have *: "seeds d users_check (seed_users d e)"
    unfolding seed_users_def by (rule unless_seeded_seeds[OF d])
  then show "seeds d users_check (bind (seed_users d e) (\<lambda>_. ret ()))"
    by (rule seeds_then) auto
  show "resolves (cat s) (check_table users_check) (check_columns users_check)"
    if "bind (seed_users d e) (\<lambda>_. ret ()) s = (Inr x, t)" for s x t
    using that unfolding seed_users_def by (auto elim!: bind_InrE dest: unless_seeded_resolves[OF d])
  show "bind (seed_users d e) (\<lambda>_. ret ()) s = (Inr (), s)"
    if "pending s = []" "seen d users_check s" "resolves (cat s) (check_table users_check) (check_columns users_check)" for s
    unfolding seed_users_def by (rule bind_Inr[THEN trans], rule unless_seeded_skips[OF d that]) simp
qed

lemma seed_functions_guarded: "sane d \<Longrightarrow> list_all2 (guarded d) checks (seed_functions d e)"
proof -
  assume d: "sane d"
  note g = unless_seeded_guarded[OF d]
  have "guarded d profiles_check (seed_profiles d e)" unfolding seed_profiles_def profile_rows_def profile_row_def
    by (rule g, rule seeds_add_first) (simp_all add: profiles_check_def Profile_table_def cell_def)
  moreover have "guarded d registration_check (seed_registration_sessions d e)" unfolding seed_registration_sessions_def registration_rows_def
    by (rule g, (rule seeds_new_id)+, rule seeds_add_first)
      (simp_all add: registration_check_def cell_def like_seed[OF d])
  moreover have "guarded d pin_reset_check (seed_pin_reset_tokens d e)" unfolding seed_pin_reset_tokens_def pin_reset_rows_def
    by (rule g, (rule seeds_new_id)+, rule seeds_add_first)
      (simp_all add: pin_reset_check_def cell_def like_seed[OF d])
  moreover have "guarded d ao_check (seed_ao_registration d e)" unfolding seed_ao_registration_def ao_rows_def
    by (rule g, (rule seeds_new_id)+, rule seeds_add_first) (simp_all add: ao_check_def cell_def)
  moreover have "guarded d drafts_check (seed_sr_drafts d e)" unfolding seed_sr_drafts_def draft_rows_def draft_row_def
    by (rule g, rule seeds_add_first) (simp_all add: drafts_check_def SRDraft_table_def cell_def)
  moreover have "guarded d attachments_check (seed_attachments d e)" unfolding seed_attachments_def
  proof (rule g, (rule seeds_new_id)+, rule seeds_then)
    fix alice bob carol
    show "seeds d attachments_check (add_all (attachment_rows e alice bob carol))"
      unfolding attachment_rows_def attachment_row_def
      by (rule seeds_add_first) (simp_all add: attachments_check_def cell_def like_seed[OF d])
  qed (auto elim!: bind_InrE dest!: flush_ok[OF d] new_id_ok[where d = d] add_all_ok(1)[where d = d] simp: grows_def)
  moreover have "guarded d signatures_check (seed_plan_signatures d e)" unfolding seed_plan_signatures_def signature_rows_def
    by (rule g, (rule seeds_new_id)+, rule seeds_add_first)
      (simp_all add: signatures_check_def cell_def like_seed[OF d])
  moreover have "guarded d disclaimer_check (seed_disclaimer d e)" unfolding seed_disclaimer_def disclaimer_rows_def
    by (rule g, (rule seeds_new_id)+, rule seeds_add_first) (simp_all add: disclaimer_check_def cell_def)
  moreover have "guarded d audit_check (seed_audit_records d e)" unfolding seed_audit_records_def audit_rows_def audit_row_def Let_def
    by (rule g, (rule seeds_new_id)+, rule seeds_add_first) (simp_all add: audit_check_def cell_def)
  ultimately show ?thesis
    using seed_users_guarded[OF d] by (simp add: checks_def seed_functions_def)
qed

lemma in_turn_seeds:
  "list_all2 (guarded d) gs ms \<Longrightarrow> in_turn ms s = (Inr u, t) \<Longrightarrow>
     grows d s t \<and> (\<forall>g \<in> set gs. seen d g t \<and> resolves (cat s) (check_table g) (check_columns g))"
proof (induction gs ms arbitrary: s rule: list_all2_induct)
  case Nil
  then show ?case by (simp add: in_turn_def)
next
  case (Cons g gs m ms)
  from Cons.prems obtain x v where m: "m s = (Inr x, v)" and r: "in_turn ms v = (Inr u, t)"
    by (auto simp: in_turn_def elim: bind_InrE)
  have "grows d s v" "seen d g v" "resolves (cat s) (check_table g) (check_columns g)"
    using Cons.hyps(1) m by (auto simp: guarded_def seeds_def)
  then show ?case using Cons.IH[OF r] by (auto simp: grows_def)
qed

lemma in_turn_skips:
  assumes "list_all2 (guarded d) gs ms" and "pending s = []"
    and "\<forall>g \<in> set gs. seen d g s \<and> resolves (cat s) (check_table g) (check_columns g)"
  shows "in_turn ms s = (Inr (), s)"
  using assms
proof (induction gs ms rule: list_all2_induct)
  case Nil
  then show ?case by (simp add: in_turn_def)
next
  case (Cons g gs m ms)
  then have "m s = (Inr (), s)" by (simp add: guarded_def)
  then show ?case using Cons by (simp add: in_turn_def bind_Inr)
qed

lemma lookup_table_iff: "lookup_table c n = None \<longleftrightarrow> n \<notin> tname ` set (tables c)"
  by (auto simp: lookup_table_def find_None_iff)

lemma create_all_grows: "lookup_table c n \<noteq> None \<Longrightarrow> lookup_table (create_all ts c) n \<noteq> None"
  by (induction ts arbitrary: c) (auto simp: lookup_table_iff)

lemma create_all_twice: "create_all ts (create_all ts c) = create_all ts c"
proof (rule create_all_present, rule ballI)
  fix t assume "t \<in> set ts"
  then show "lookup_table (create_all ts c) (tname t) \<noteq> None"
  proof (induction ts arbitrary: c)
    case (Cons a ts)
    have new: "lookup_table (c\<lparr>tables := tables c @ [a]\<rparr>) (tname a) \<noteq> None"
      by (simp add: lookup_table_iff)
    show ?case
    proof (cases "t = a")
      case True
      have "lookup_table (create_all ts (if lookup_table c (tname a) = None then c\<lparr>tables := tables c @ [a]\<rparr> else c)) (tname a) \<noteq> None"
        using new by (intro create_all_grows) simp
      then show ?thesis using True by simp
    next
      case False
      then show ?thesis using Cons by auto
    qed
  qed simp
qed

lemma with_session_Inr:
  assumes "with_session m s = (Inr x, t)"
  obtains u where "m (s\<lparr>rows := stored s, pending := []\<rparr>) = (Inr x, u)" and "t = u\<lparr>rows := stored u, pending := []\<rparr>"
  using assms by (cases "m (s\<lparr>rows := stored s, pending := []\<rparr>)") (simp add: with_session_def)

lemma reset_pending: "sane d \<Longrightarrow> reset_seed_data d s = (Inr u, t) \<Longrightarrow> pending t = [] \<and> cat t = cat s"
proof -
  assume d: "sane d" and m: "reset_seed_data d s = (Inr u, t)"
  have turn: "cat v = cat w" if "in_turn (map (delete_from d) ns) w = (x, v)" for ns w v x
    using that by (induction ns arbitrary: w) (auto simp: in_turn_def bind_def delete_from_def split: if_splits)
  obtain v where "in_turn (map (delete_from d) TRUNCATE_ORDER) s = (Inr (), v)" and "commit d v = (Inr u, t)"
    using m by (auto simp: reset_seed_data_def elim: bind_InrE)
  then show ?thesis using turn flush_ok[OF d] by (auto simp: commit_def grows_def elim!: bind_InrE)
qed

text \<open>C38.
  Seeding is idempotent: after a run of \<open>main\<close> that succeeded, with or without \<open>--reset\<close> and whatever rows were in
  the database before, a further run succeeds, whatever its clock and its random ids, and leaves every
  table and the schema exactly as they are: each seed function finds the row it looks for.
\<close>

theorem seed_idempotent:
  assumes d: "sane d" and run: "seed_main d e reset s = (Inr toks, t)"
  shows "seed_main d e' False t = (Inr (map (encode e') (seed_claims e')), t)"
proof -
  let ?c = "create_all model_tables (cat s)"
  define body where "body = bind (if reset then reset_seed_data d else ret ()) (\<lambda>_. bind (in_turn (seed_functions d e)) (\<lambda>_. commit d))"
  have "with_session body (s\<lparr>cat := ?c\<rparr>) = (Inr (), t)"
    using run by (auto simp: seed_main_def body_def elim!: bind_InrE)
  then obtain w where w: "body (s\<lparr>cat := ?c, rows := stored s, pending := []\<rparr>) = (Inr (), w)" and t: "t = w\<lparr>rows := stored w, pending := []\<rparr>"
    by (auto elim!: with_session_Inr)
  obtain u v where r: "(if reset then reset_seed_data d else ret ()) (s\<lparr>cat := ?c, rows := stored s, pending := []\<rparr>) = (Inr (), u)"
    and v: "in_turn (seed_functions d e) u = (Inr (), v)" and w': "commit d v = (Inr (), w)"
    using w unfolding body_def by (auto elim!: bind_InrE)
  have u: "cat u = ?c" using r reset_pending[OF d] by (cases reset) force+
  obtain v' where v': "flush d v = (Inr (), v')" and wv: "w = v'\<lparr>stored := rows v'\<rparr>"
    using w' by (auto simp: commit_def elim!: bind_InrE)
  note g = seed_functions_guarded[OF d]
  have "grows d u v'" and "\<forall>g \<in> set checks. seen d g v' \<and> resolves (cat u) (check_table g) (check_columns g)" and "pending v' = []"
    using in_turn_seeds[OF g v] flush_ok[OF d v'] by (auto simp: grows_def)
  then have c: "cat t = ?c" and ok: "\<forall>g \<in> set checks. seen d g t \<and> resolves (cat t) (check_table g) (check_columns g)"
    and st: "pending t = []" "rows t = stored t"
    using u by (auto simp: t wv grows_def seen_def)
  have same: "t\<lparr>cat := create_all model_tables (cat t)\<rparr> = t" "t\<lparr>rows := stored t, pending := []\<rparr> = t" "t\<lparr>stored := rows t\<rparr> = t"
    using st c by (auto simp: create_all_twice)
  have "commit d t = (Inr (), t)"
    using flush_nothing[OF d st(1)] same(3) by (simp add: commit_def bind_Inr)
  then have "bind (in_turn (seed_functions d e')) (\<lambda>_. commit d) t = (Inr (), t)"
    using in_turn_skips[OF g st(1) ok] by (simp add: bind_Inr)
  then show ?thesis using same by (simp add: seed_main_def with_session_def bind_Inr)
qed

section \<open>Seeding a migrated database\<close>

lemma insert_all_frame: "cat (snd (insert_all d xs s)) = cat s \<and> stored (snd (insert_all d xs s)) = stored s"
  by (induction d xs s rule: insert_all.induct) auto

definition frame :: "catalog \<Rightarrow> (string \<Rightarrow> row list) \<Rightarrow> seed_state \<Rightarrow> bool" where
  "frame c st s \<longleftrightarrow> cat s = c \<and> stored s = st"

lemma preserves_flush [intro]: "preserves (flush d) (frame c st)"
  by (rule preservesI) (simp add: flush_def frame_def insert_all_frame)

lemma preserves_new_id [intro]: "preserves (new_id e) (frame c st)"
  by (rule preservesI) (simp add: new_id_def frame_def)

lemma preserves_add_all [intro]: "preserves (add_all xs) (frame c st)"
  by (rule preservesI) (simp add: add_all_def frame_def)

lemma preserves_exists_row [intro]: "preserves (exists_row d g) (frame c st)"
  unfolding exists_row_def
  by (rule preserves_bind) (auto split: check.split intro: preservesI)

lemma preserves_unless_seeded [intro]: "preserves body (frame c st) \<Longrightarrow> preserves (unless_seeded d g v body) (frame c st)"
  unfolding unless_seeded_def by (rule preserves_bind) auto

lemma preserves_seed_functions: "m \<in> set (seed_functions d e) \<Longrightarrow> preserves m (frame c st)"
  unfolding seed_functions_def
  by (auto simp: seed_users_def seed_profiles_def seed_registration_sessions_def seed_pin_reset_tokens_def seed_ao_registration_def
      seed_sr_drafts_def seed_attachments_def seed_plan_signatures_def seed_disclaimer_def seed_audit_records_def
      intro!: preserves_unless_seeded preserves_bind preserves_new_id preserves_add_all preserves_flush)

lemma in_turn_fails:
  assumes "\<forall>m \<in> set ms. preserves m I" and "m0 \<in> set ms" and "\<And>s. I s \<Longrightarrow> \<exists>x. fst (m0 s) = Inl x" and "I s"
  shows "\<exists>x t. in_turn ms s = (Inl x, t) \<and> I t"
  using assms
proof (induction ms arbitrary: s)
  case (Cons m ms)
  obtain r t where m: "m s = (r, t)" by (cases "m s")
  then have t: "I t" using Cons.prems(1,4) preservesD[of m I s] by simp
  show ?case
  proof (cases r)
    case (Inl x)
    then show ?thesis using m t by (simp add: in_turn_def bind_Inl)
  next
    case (Inr x)
    then have "m \<noteq> m0" using m Cons.prems(3)[OF Cons.prems(4)] by auto
    then have "\<exists>x u. in_turn ms t = (Inl x, u) \<and> I u" using Cons.IH Cons.prems t by auto
    then show ?thesis using m Inr by (simp add: in_turn_def bind_Inr)
  qed
qed simp

lemma ao_check_fails: "cat s = at_0005 \<Longrightarrow> fst (seed_ao_registration d e s) = Inl SQLAlchemyExn"
proof -
  assume c: "cat s = at_0005"
  have "\<not> resolves at_0005 ''aoregistrationsession'' [''worker_idir'']"
    by (simp add: resolves_def has_columns_def table_defs)
  then have "exists_row d ao_check s = (Inl SQLAlchemyExn, s)" using c by (simp add: exists_row_def ao_check_def)
  then show ?thesis by (simp add: seed_ao_registration_def unless_seeded_def bind_Inl)
qed

lemma seed_functions_fail:
  assumes "cat s = at_0005"
  shows "\<exists>x t. in_turn (seed_functions d e) s = (Inl x, t) \<and> cat t = at_0005 \<and> stored t = stored s"
proof -
  have "\<exists>x t. in_turn (seed_functions d e) s = (Inl x, t) \<and> frame at_0005 (stored s) t"
  proof (rule in_turn_fails)
    show "\<forall>m \<in> set (seed_functions d e). preserves m (frame at_0005 (stored s))" using preserves_seed_functions by blast
    show "seed_ao_registration d e \<in> set (seed_functions d e)" by (simp add: seed_functions_def)
    show "\<exists>x. fst (seed_ao_registration d e t) = Inl x" if "frame at_0005 (stored s) t" for t
      using that ao_check_fails by (auto simp: frame_def)
    show "frame at_0005 (stored s) s" using assms by (simp add: frame_def)
  qed
  then show ?thesis by (simp add: frame_def)
qed

lemma create_all_migrated: "create_all model_tables at_0005 = at_0005"
  by (rule create_all_present) (simp add: model_tables_def model_table_defs)

lemma deletes_frame:
  "in_turn (map (delete_from d) ns) s = (r, t) \<Longrightarrow>
     cat t = cat s \<and> stored t = stored s \<and> pending t = pending s \<and> (r = Inr () \<longrightarrow> (\<forall>n \<in> set ns. rows t n = [])) \<and>
     (\<forall>n. rows s n = [] \<longrightarrow> rows t n = [])"
proof (induction ns arbitrary: s)
  case (Cons n ns)
  show ?case
  proof (cases "delete_from d n s")
    case (Pair x v)
    then have v: "cat v = cat s \<and> stored v = stored s \<and> pending v = pending s \<and> (\<forall>k. rows s k = [] \<longrightarrow> rows v k = [])"
      and x: "x = Inr () \<Longrightarrow> rows v n = []"
      by (auto simp: delete_from_def split: if_splits)
    show ?thesis
    proof (cases x)
      case (Inl a)
      then show ?thesis using Cons.prems Pair v by (auto simp: in_turn_def bind_Inl)
    next
      case (Inr a)
      then have "in_turn (map (delete_from d) ns) v = (r, t)" using Cons.prems Pair by (simp add: in_turn_def bind_Inr)
      from Cons.IH[OF this] show ?thesis using v x Inr by auto
    qed
  qed
qed (simp add: in_turn_def)

text \<open>
  On a database made by the migrations, as the set-up guide has it and the seed job of the test
  deployment runs it, seeding always fails: the check for the AO session names a column that the table does
  not have. Without \<open>--reset\<close> the database is then left as it was; with it, either so, or every
  seeded table has been emptied for good. In no case is a row of seed data stored.
\<close>

theorem seed_fails_after_migrations:
  assumes "sane d" and "upgrade_head no_catalog = Some (cat s)"
  shows "\<exists>x t. seed_main d e reset s = (Inl x, t) \<and> rows t = stored t \<and>
    (stored t = stored s \<or> (reset \<and> (\<forall>n \<in> set TRUNCATE_ORDER. stored t n = [])))"
proof -
  let ?s = "s\<lparr>rows := stored s, pending := []\<rparr>"
  have c: "cat s = at_0005" "create_all model_tables (cat s) = cat s" using assms(2) by (auto simp: upgrade_head create_all_migrated)
  have same: "s\<lparr>cat := cat s\<rparr> = s" by simp
  let ?body = "bind (if reset then reset_seed_data d else ret ()) (\<lambda>_. bind (in_turn (seed_functions d e)) (\<lambda>_. commit d))"
  have "\<exists>x t. ?body ?s = (Inl x, t) \<and> (stored t = stored s \<or> (reset \<and> (\<forall>n \<in> set TRUNCATE_ORDER. stored t n = [])))"
  proof (cases reset)
    case False
    then show ?thesis using seed_functions_fail[of ?s d e] c(1) by (auto simp: bind_Inl)
  next
    case True
    obtain r u where u: "in_turn (map (delete_from d) TRUNCATE_ORDER) ?s = (r, u)" by (cases "in_turn (map (delete_from d) TRUNCATE_ORDER) ?s")
    note f = deletes_frame[OF u]
    show ?thesis
    proof (cases r)
      case (Inl x)
      then have "reset_seed_data d ?s = (Inl x, u)" using u by (simp add: reset_seed_data_def bind_Inl)
      then show ?thesis using True f by (auto simp: bind_Inl)
    next
      case (Inr y)
      have "flush d u = (Inr (), u)" using f by (intro flush_nothing[OF assms(1)]) simp
      then have "reset_seed_data d ?s = (Inr (), u\<lparr>stored := rows u\<rparr>)"
        using u Inr by (simp add: reset_seed_data_def commit_def bind_Inr)
      moreover obtain x t where "in_turn (seed_functions d e) (u\<lparr>stored := rows u\<rparr>) = (Inl x, t)" and "stored t = rows u"
        using seed_functions_fail[of "u\<lparr>stored := rows u\<rparr>" d e] f c(1) by auto
      ultimately show ?thesis using True f Inr by (auto simp: bind_Inr bind_Inl)
    qed
  qed
  then obtain x t where t: "?body ?s = (Inl x, t)" "stored t = stored s \<or> (reset \<and> (\<forall>n \<in> set TRUNCATE_ORDER. stored t n = []))"
    by blast
  have "seed_main d e reset s = (Inl x, t\<lparr>rows := stored t, pending := []\<rparr>)"
    unfolding seed_main_def bind_modify c(2) same using t(1) by (simp add: with_session_def bind_Inl)
  then show ?thesis using t(2) by simp
qed

section \<open>Reset\<close>

text \<open>The order is safe for foreign keys: every table that refers to one comes before it.\<close>

fun children_first :: "catalog \<Rightarrow> string list \<Rightarrow> string list \<Rightarrow> bool" where
  "children_first c before [] \<longleftrightarrow> True"
| "children_first c before (n # ns) \<longleftrightarrow>
     lookup_table c n \<noteq> None \<and>
     list_all (\<lambda>tb. list_all (\<lambda>f. fk_table f \<noteq> n \<or> tname tb = n \<or> tname tb \<in> set before) (fkeys tb)) (tables c) \<and>
     children_first c (n # before) ns"

lemma deletes_succeed:
  assumes "children_first (cat s) before ns" and "\<forall>n \<in> set before. rows s n = []" and "\<forall>n \<in> set ns. parses d n"
  shows "in_turn (map (delete_from d) ns) s = (Inr (), s\<lparr>rows := (\<lambda>n. if n \<in> set ns then [] else rows s n)\<rparr>)"
  using assms
proof (induction ns arbitrary: s before)
  case Nil
  then show ?case by (simp add: in_turn_def)
next
  case (Cons n ns)
  let ?t = "s\<lparr>rows := (rows s)(n := [])\<rparr>"
  have "unreferenced s n"
    using Cons.prems(1,2) by (fastforce simp: unreferenced_def list_all_iff)
  then have "delete_from d n s = (Inr (), ?t)" using Cons.prems by (simp add: delete_from_def)
  moreover have "in_turn (map (delete_from d) ns) ?t = (Inr (), ?t\<lparr>rows := (\<lambda>k. if k \<in> set ns then [] else rows ?t k)\<rparr>)"
    using Cons.prems by (intro Cons.IH[of ?t "n # before"]) auto
  moreover have "(\<lambda>k. if k \<in> set ns then [] else rows ?t k) = (\<lambda>k. if k \<in> set (n # ns) then [] else rows s k)" by auto
  ultimately show ?case by (simp add: in_turn_def bind_Inr)
qed

lemma deletes_stop:
  assumes "\<not> parses d n"
  shows "fst (in_turn (map (delete_from d) (ns @ [n])) s) = Inl SQLAlchemyExn"
  using assms by (induction ns arbitrary: s) (auto simp: in_turn_def bind_def delete_from_def)

definition created :: catalog where
  "created = create_all model_tables no_catalog"

lemma model_names [simp]:
  "tname User_table = ''user''" "tname Profile_table = ''profile''" "tname RegistrationSession_table = ''registrationsession''"
  "tname AORegistrationSession_table = ''aoregistrationsession''" "tname SRDraft_table = ''sr_drafts''"
  "tname AttachmentRecord_table = ''attachmentrecord''" "tname ScanJob_table = ''scanjob''"
  "tname PlanSignatureSession_table = ''plansignaturesession''" "tname PINResetToken_table = ''pinresettoken''"
  "tname WorkerAuditRecord_table = ''workerauditrecord''" "tname DisclaimerAcknowledgement_table = ''disclaimeracknowledgement''"
  by (simp_all add: model_table_defs)

lemma model_fkeys [simp]:
  "fkeys User_table = []" "fkeys Profile_table = [foreign ''user_id'' ''user'' ''id'' None]"
  "fkeys RegistrationSession_table = [foreign ''user_id'' ''user'' ''id'' None]" "fkeys AORegistrationSession_table = []"
  "fkeys SRDraft_table = []"
  "fkeys AttachmentRecord_table = [foreign ''profile_id'' ''profile'' ''id'' None, foreign ''sr_draft_id'' ''sr_drafts'' ''sr_id'' None]"
  "fkeys ScanJob_table = [foreign ''attachment_id'' ''attachmentrecord'' ''id'' None]"
  "fkeys PlanSignatureSession_table = [foreign ''profile_id'' ''profile'' ''id'' None]"
  "fkeys PINResetToken_table = [foreign ''profile_id'' ''profile'' ''id'' None]"
  "fkeys WorkerAuditRecord_table = []" "fkeys DisclaimerAcknowledgement_table = []"
  by (simp_all add: model_table_defs)

lemma created_catalog: "created = \<lparr>tables = model_tables, indexes = []\<rparr>"
  by (simp add: created_def model_tables_def no_catalog_def lookup_table_def)

lemma truncate_order_safe: "children_first created [] TRUNCATE_ORDER"
  by (simp add: TRUNCATE_ORDER_def created_catalog model_tables_def lookup_table_def)

text \<open>
  \<open>TRUNCATE_ORDER\<close> is safe: on a database created from the models, with foreign keys enforced or not and
  whatever its rows, \<open>--reset\<close> empties exactly the seeded tables and commits, if the database takes the
  statements. Where it does not take the unquoted name \<open>user\<close>, a reserved word of PostgreSQL, the reset
  fails at its last statement and nothing is deleted.
\<close>

theorem reset_empties_tables:
  assumes "sane d" and "cat s = created" and "pending s = []" and "\<forall>n \<in> set TRUNCATE_ORDER. n \<noteq> ''user'' \<longrightarrow> parses d n"
  shows "if parses d ''user''
    then (let emptied = (\<lambda>n. if n \<in> set TRUNCATE_ORDER then [] else rows s n) in
      reset_seed_data d s = (Inr (), s\<lparr>rows := emptied, stored := emptied\<rparr>))
    else fst (reset_seed_data d s) = Inl SQLAlchemyExn \<and> stored (snd (reset_seed_data d s)) = stored s"
proof (cases "parses d ''user''")
  case True
  have p: "parses d n" if n: "n \<in> set TRUNCATE_ORDER" for n
  proof (cases "n = ''user''")
    case True
    then show ?thesis using \<open>parses d ''user''\<close> by (rule ssubst)
  next
    case False
    then show ?thesis using bspec[OF assms(4) n] by (rule rev_mp)
  qed
  let ?t = "s\<lparr>rows := (\<lambda>n. if n \<in> set TRUNCATE_ORDER then [] else rows s n)\<rparr>"
  have "in_turn (map (delete_from d) TRUNCATE_ORDER) s = (Inr (), ?t)"
    using truncate_order_safe assms(2) by (intro deletes_succeed[of s "[]"] ballI p) simp_all
  moreover have "flush d ?t = (Inr (), ?t)" using assms(1,3) by (intro flush_nothing) simp_all
  ultimately show ?thesis using True by (simp add: reset_seed_data_def commit_def bind_Inr Let_def)
next
  case False
  obtain r t where t: "in_turn (map (delete_from d) TRUNCATE_ORDER) s = (r, t)"
    by (cases "in_turn (map (delete_from d) TRUNCATE_ORDER) s")
  have eq: "TRUNCATE_ORDER = butlast TRUNCATE_ORDER @ [''user'']" by (simp add: TRUNCATE_ORDER_def)
  have "fst (in_turn (map (delete_from d) TRUNCATE_ORDER) s) = Inl SQLAlchemyExn" by (subst eq) (rule deletes_stop[OF False])
  then have "r = Inl SQLAlchemyExn" using t by simp
  then show ?thesis using deletes_frame[OF t] t False by (simp add: reset_seed_data_def bind_Inl)
qed

section \<open>A fresh database\<close>

text \<open>An empty database with foreign keys, flushed in the order of insertion.\<close>

definition strict :: dialect where
  "strict = \<lparr>parses = (\<lambda>n. True), enforces = True, like_prefix = (\<lambda>x p. take (length p) x = p), flush_order = (\<lambda>xs. xs)\<rparr>"

definition empty_db :: seed_state where
  "empty_db = \<lparr>cat = no_catalog, stored = (\<lambda>n. []), rows = (\<lambda>n. []), pending = [], made = 0\<rparr>"

lemma sane_strict: "sane strict"
  by (simp add: sane_def strict_def)

text \<open>A batch of rows into one table.\<close>

definition shape_ok :: "table \<Rightarrow> row \<Rightarrow> bool" where
  "shape_ok tb r \<longleftrightarrow>
     has_columns tb (map fst r) \<and>
     list_all (\<lambda>k. (nullable_col k \<or> has_default k \<or> list_ex (\<lambda>x. x = cname k) (map fst r)) \<and>
       (nullable_col k \<or> has_default k \<or> cell r (cname k) \<noteq> SNull)) (columns tb)"

definition refers :: "seed_state \<Rightarrow> row \<Rightarrow> foreign_key \<Rightarrow> bool" where
  "refers s r f \<longleftrightarrow> cell r (fk_col f) = SNull \<or> (\<exists>p \<in> set (rows s (fk_table f)). cell p (fk_ref f) = cell r (fk_col f))"

lemma insert_batch:
  assumes "lookup_table (cat s) n = Some tb" and "\<forall>r \<in> set rs. shape_ok tb r"
    and "\<forall>ks \<in> set (keys_of (cat s) tb). distinct (map (\<lambda>r. map (cell r) ks) (rows s n @ rs))"
    and "\<forall>r \<in> set rs. \<forall>f \<in> set (fkeys tb). fk_table f \<noteq> n \<and> refers s r f"
  shows "insert_all d (map (Pair n) rs) s = (Inr (), s\<lparr>rows := (rows s)(n := rows s n @ rs)\<rparr>)"
  using assms
proof (induction rs arbitrary: s)
  case Nil
  have "s\<lparr>rows := rows s\<rparr> = s" by simp
  then show ?case by simp
next
  case (Cons r rs)
  let ?s = "s\<lparr>rows := (rows s)(n := rows s n @ [r])\<rparr>"
  have "\<not> list_ex (\<lambda>p. same_key r p ks) (rows s n)" if "ks \<in> set (keys_of (cat s) tb)" for ks
  proof
    assume "list_ex (\<lambda>p. same_key r p ks) (rows s n)"
    then obtain p where "p \<in> set (rows s n)" and "map (cell r) ks = map (cell p) ks"
      by (auto simp: list_ex_iff same_key_def list_all_iff)
    then show False using Cons.prems(3) that by force
  qed
  then have "row_ok d s n r"
    using Cons.prems(1,2,4)
    by (auto simp: row_ok_def insert_resolves_def shape_ok_def refers_def list_all_iff list_ex_iff)
  then have "insert_all d (map (Pair n) (r # rs)) s = insert_all d (map (Pair n) rs) ?s" by simp
  also have "\<dots> = (Inr (), ?s\<lparr>rows := (rows ?s)(n := rows ?s n @ rs)\<rparr>)"
    using Cons.prems by (intro Cons.IH) (auto simp: refers_def)
  also have "?s\<lparr>rows := (rows ?s)(n := rows ?s n @ rs)\<rparr> = s\<lparr>rows := (rows s)(n := rows s n @ r # rs)\<rparr>" by simp
  finally show ?case .
qed

lemma insert_rows:
  assumes "lookup_table (cat s) n = Some tb" and "rows s n = []" and "\<forall>x \<in> set xs. fst x = n \<and> shape_ok tb (snd x)"
    and "\<forall>ks \<in> set (keys_of (cat s) tb). distinct (map (\<lambda>x. map (cell (snd x)) ks) xs)"
    and "\<forall>x \<in> set xs. \<forall>f \<in> set (fkeys tb). fk_table f \<noteq> n \<and> refers s (snd x) f"
  shows "insert_all d xs s = (Inr (), s\<lparr>rows := (rows s)(n := map snd xs)\<rparr>)"
proof -
  have "map (Pair n) (map snd xs) = xs" using assms(3) by (induction xs) (auto simp: prod_eq_iff)
  moreover have "insert_all d (map (Pair n) (map snd xs)) s = (Inr (), s\<lparr>rows := (rows s)(n := rows s n @ map snd xs)\<rparr>)"
    by (rule insert_batch[OF assms(1)]) (use assms(2-5) in \<open>auto simp: comp_def\<close>)
  ultimately show ?thesis using assms(2) by simp
qed

lemma insert_all_append: "insert_all d (xs @ ys) s = bind (insert_all d xs) (\<lambda>_. insert_all d ys) s"
  by (induction d xs s rule: insert_all.induct) (auto simp: bind_def)

lemma keys_of_created [simp]: "keys_of created tb = pkey tb # uniques tb"
  by (simp add: keys_of_def created_catalog)

lemma lookup_created [simp]:
  "lookup_table created ''user'' = Some User_table"
  "lookup_table created ''profile'' = Some Profile_table"
  "lookup_table created ''registrationsession'' = Some RegistrationSession_table"
  "lookup_table created ''aoregistrationsession'' = Some AORegistrationSession_table"
  "lookup_table created ''sr_drafts'' = Some SRDraft_table"
  "lookup_table created ''attachmentrecord'' = Some AttachmentRecord_table"
  "lookup_table created ''scanjob'' = Some ScanJob_table"
  "lookup_table created ''plansignaturesession'' = Some PlanSignatureSession_table"
  "lookup_table created ''pinresettoken'' = Some PINResetToken_table"
  "lookup_table created ''workerauditrecord'' = Some WorkerAuditRecord_table"
  "lookup_table created ''disclaimeracknowledgement'' = Some DisclaimerAcknowledgement_table"
  by (simp_all add: created_catalog model_tables_def lookup_table_def)

lemmas personas = SEED_ALICE_USER_ID_def SEED_BOB_USER_ID_def SEED_CAROL_USER_ID_def SEED_ALICE_BCEID_def SEED_BOB_BCEID_def
  SEED_CAROL_BCEID_def SEED_ALICE_PROFILE_ID_def SEED_BOB_PROFILE_ID_def SEED_CAROL_PROFILE_ID_def SEED_WORKER_IDIR_def

lemmas shape_simps = shape_ok_def has_columns_def Schema.required_def Schema.optional_def cell_def

lemma insert_users:
  "cat s = created \<Longrightarrow> rows s ''user'' = [] \<Longrightarrow>
     insert_all d (user_rows e) s = (Inr (), s\<lparr>rows := (rows s)(''user'' := map snd (user_rows e))\<rparr>)"
  by (rule insert_rows[where tb = User_table]) (simp_all add: user_rows_def user_row_def User_table_def shape_simps personas)

text \<open>The rows other tables refer to.\<close>

definition present :: "string \<Rightarrow> string \<Rightarrow> sql \<Rightarrow> seed_state \<Rightarrow> bool" where
  "present n c v s \<longleftrightarrow> (\<exists>p \<in> set (rows s n). cell p c = v)"

lemma refers_present: "refers s r f \<longleftrightarrow> cell r (fk_col f) = SNull \<or> present (fk_table f) (fk_ref f) (cell r (fk_col f)) s"
  by (simp add: refers_def present_def)

lemma insert_profiles:
  "cat s = created \<Longrightarrow> rows s ''profile'' = [] \<Longrightarrow>
     \<forall>u \<in> {SEED_ALICE_USER_ID, SEED_BOB_USER_ID, SEED_CAROL_USER_ID}. present ''user'' ''id'' (SUuid u) s \<Longrightarrow>
     insert_all d (profile_rows e) s = (Inr (), s\<lparr>rows := (rows s)(''profile'' := map snd (profile_rows e))\<rparr>)"
  by (rule insert_rows[where tb = Profile_table])
    (simp_all add: profile_rows_def profile_row_def Profile_table_def shape_simps refers_present, simp_all add: personas)

lemma insert_registrations:
  "cat s = created \<Longrightarrow> rows s ''registrationsession'' = [] \<Longrightarrow> present ''user'' ''id'' (SUuid SEED_ALICE_USER_ID) s \<Longrightarrow>
     i \<noteq> j \<Longrightarrow> i \<noteq> SNull \<Longrightarrow> j \<noteq> SNull \<Longrightarrow>
     insert_all d (registration_rows e i j) s = (Inr (), s\<lparr>rows := (rows s)(''registrationsession'' := map snd (registration_rows e i j))\<rparr>)"
  by (rule insert_rows[where tb = RegistrationSession_table])
    (simp_all add: registration_rows_def RegistrationSession_table_def shape_simps refers_present)

lemma insert_pin_resets:
  "cat s = created \<Longrightarrow> rows s ''pinresettoken'' = [] \<Longrightarrow>
     \<forall>p \<in> {SEED_ALICE_PROFILE_ID, SEED_BOB_PROFILE_ID, SEED_CAROL_PROFILE_ID}. present ''profile'' ''id'' (SUuid p) s \<Longrightarrow>
     i \<noteq> j \<Longrightarrow> i \<noteq> SNull \<Longrightarrow> j \<noteq> SNull \<Longrightarrow>
     insert_all d (pin_reset_rows e i j) s = (Inr (), s\<lparr>rows := (rows s)(''pinresettoken'' := map snd (pin_reset_rows e i j))\<rparr>)"
  by (rule insert_rows[where tb = PINResetToken_table])
    (simp_all add: pin_reset_rows_def PINResetToken_table_def shape_simps refers_present)

lemma insert_ao:
  "cat s = created \<Longrightarrow> rows s ''aoregistrationsession'' = [] \<Longrightarrow> i \<noteq> SNull \<Longrightarrow> j \<noteq> SNull \<Longrightarrow>
     insert_all d (ao_rows e i j) s = (Inr (), s\<lparr>rows := (rows s)(''aoregistrationsession'' := map snd (ao_rows e i j))\<rparr>)"
  by (rule insert_rows[where tb = AORegistrationSession_table])
    (simp_all add: ao_rows_def AORegistrationSession_table_def shape_simps)

lemma insert_drafts:
  "cat s = created \<Longrightarrow> rows s ''sr_drafts'' = [] \<Longrightarrow>
     insert_all d (draft_rows e) s = (Inr (), s\<lparr>rows := (rows s)(''sr_drafts'' := map snd (draft_rows e))\<rparr>)"
  by (rule insert_rows[where tb = SRDraft_table]) (simp_all add: draft_rows_def draft_row_def SRDraft_table_def shape_simps)

lemma insert_attachments:
  "cat s = created \<Longrightarrow> rows s ''attachmentrecord'' = [] \<Longrightarrow>
     \<forall>p \<in> {SEED_ALICE_PROFILE_ID, SEED_BOB_PROFILE_ID, SEED_CAROL_PROFILE_ID}. present ''profile'' ''id'' (SUuid p) s \<Longrightarrow>
     present ''sr_drafts'' ''sr_id'' (SText ''SR-A001'') s \<Longrightarrow> present ''sr_drafts'' ''sr_id'' (SText ''SR-B001'') s \<Longrightarrow>
     distinct [i, j, k, SNull] \<Longrightarrow>
     insert_all d (attachment_rows e i j k) s = (Inr (), s\<lparr>rows := (rows s)(''attachmentrecord'' := map snd (attachment_rows e i j k))\<rparr>)"
  by (rule insert_rows[where tb = AttachmentRecord_table])
    (simp_all add: attachment_rows_def attachment_row_def AttachmentRecord_table_def shape_simps refers_present)

lemma insert_scans:
  "cat s = created \<Longrightarrow> rows s ''scanjob'' = [] \<Longrightarrow> \<forall>x \<in> {a, b, c}. present ''attachmentrecord'' ''id'' x s \<Longrightarrow>
     distinct [a, b, c, SNull] \<Longrightarrow> distinct [i, j, k, SNull] \<Longrightarrow>
     insert_all d (scan_rows e a b c i j k) s = (Inr (), s\<lparr>rows := (rows s)(''scanjob'' := map snd (scan_rows e a b c i j k))\<rparr>)"
  by (rule insert_rows[where tb = ScanJob_table])
    (simp_all add: scan_rows_def scan_row_def ScanJob_table_def shape_simps refers_present)

lemma insert_signatures:
  "cat s = created \<Longrightarrow> rows s ''plansignaturesession'' = [] \<Longrightarrow>
     \<forall>p \<in> {SEED_ALICE_PROFILE_ID, SEED_BOB_PROFILE_ID, SEED_CAROL_PROFILE_ID}. present ''profile'' ''id'' (SUuid p) s \<Longrightarrow>
     i \<noteq> j \<Longrightarrow> i \<noteq> SNull \<Longrightarrow> j \<noteq> SNull \<Longrightarrow>
     insert_all d (signature_rows e i j) s = (Inr (), s\<lparr>rows := (rows s)(''plansignaturesession'' := map snd (signature_rows e i j))\<rparr>)"
  by (rule insert_rows[where tb = PlanSignatureSession_table])
    (simp_all add: signature_rows_def PlanSignatureSession_table_def shape_simps refers_present)

lemma insert_disclaimer:
  "cat s = created \<Longrightarrow> rows s ''disclaimeracknowledgement'' = [] \<Longrightarrow> i \<noteq> SNull \<Longrightarrow>
     insert_all d (disclaimer_rows e i) s = (Inr (), s\<lparr>rows := (rows s)(''disclaimeracknowledgement'' := map snd (disclaimer_rows e i))\<rparr>)"
  by (rule insert_rows[where tb = DisclaimerAcknowledgement_table])
    (simp_all add: disclaimer_rows_def DisclaimerAcknowledgement_table_def shape_simps)

lemma insert_audit:
  "cat s = created \<Longrightarrow> rows s ''workerauditrecord'' = [] \<Longrightarrow> distinct [i1, i2, i3, i4, i5, i6, i7, i8, SNull] \<Longrightarrow>
     insert_all d (audit_rows e i1 i2 i3 i4 i5 i6 i7 i8) s =
       (Inr (), s\<lparr>rows := (rows s)(''workerauditrecord'' := map snd (audit_rows e i1 i2 i3 i4 i5 i6 i7 i8))\<rparr>)"
  by (rule insert_rows[where tb = WorkerAuditRecord_table])
    (simp_all add: audit_rows_def audit_row_def WorkerAuditRecord_table_def shape_simps Let_def)

text \<open>The state during the run: rows \<open>R\<close> flushed, \<open>P\<close> pending, \<open>n\<close> ids used, nothing committed.\<close>

definition running :: "(string \<Rightarrow> row list) \<Rightarrow> (string \<times> row) list \<Rightarrow> nat \<Rightarrow> seed_state" where
  "running R P n = \<lparr>cat = created, stored = (\<lambda>t. []), rows = R, pending = P, made = n\<rparr>"

lemma running_simps [simp]:
  "cat (running R P n) = created" "rows (running R P n) = R" "stored (running R P n) = (\<lambda>t. [])" "pending (running R P n) = P"
  "(running R P n)\<lparr>rows := R'\<rparr> = running R' P n" "(running R P n)\<lparr>pending := P'\<rparr> = running R P' n"
  by (simp_all add: running_def)

definition rid :: "seed_env \<Rightarrow> nat \<Rightarrow> sql" where
  "rid e n = SUuid (fresh e n)"

lemma rid_simps: "inj (fresh e) \<Longrightarrow> rid e i = rid e j \<longleftrightarrow> i = j" "rid e i \<noteq> SNull"
  by (simp_all add: rid_def inj_eq)

lemma running_ops [simp]:
  "bind (new_id e) f (running R P n) = f (rid e n) (running R P (n + 1))"
  "add_all xs (running R P n) = (Inr (), running R (P @ xs) n)"
  "bind (add_all xs) g (running R P n) = g () (running R (P @ xs) n)"
  by (simp_all add: new_id_def add_all_def bind_def running_def rid_def)

lemma count_absent:
  assumes "(case g of ById tb x \<Rightarrow> False | _ \<Rightarrow> True)" and "resolves created (check_table g) (check_columns g)" and "R (check_table g) = []"
  shows "unless_seeded d g v body (running R P n) = body (running R P n)"
  using assms by (cases g) (simp_all add: unless_seeded_def exists_row_def bind_def)

lemma id_absent:
  assumes "insert_all d P (running R [] n) = (Inr (), running R' [] n)" and "flush_order d P = P"
    and "resolves created (tname tb) (map cname (columns tb))" and "R' (tname tb) = []"
  shows "unless_seeded d (ById tb x) v body (running R P n) = body (running R' [] n)"
  using assms by (simp add: unless_seeded_def exists_row_def flush_def bind_def)

lemma checks_resolve:
  "g \<in> set checks \<Longrightarrow> resolves created (check_table g) (check_columns g)"
  by (auto simp: checks_def check_defs resolves_def has_columns_def model_table_defs)

lemma present_user:
  "present ''user'' ''id'' (SUuid SEED_ALICE_USER_ID) s" "present ''user'' ''id'' (SUuid SEED_BOB_USER_ID) s"
  "present ''user'' ''id'' (SUuid SEED_CAROL_USER_ID) s"
  if "rows s ''user'' = map snd (user_rows e)"
  using that by (simp_all add: present_def user_rows_def user_row_def cell_def)

lemma present_profile:
  "present ''profile'' ''id'' (SUuid SEED_ALICE_PROFILE_ID) s" "present ''profile'' ''id'' (SUuid SEED_BOB_PROFILE_ID) s"
  "present ''profile'' ''id'' (SUuid SEED_CAROL_PROFILE_ID) s"
  if "rows s ''profile'' = map snd (profile_rows e)"
  using that by (simp_all add: present_def profile_rows_def profile_row_def cell_def)

lemma present_draft:
  "present ''sr_drafts'' ''sr_id'' (SText ''SR-A001'') s" "present ''sr_drafts'' ''sr_id'' (SText ''SR-B001'') s"
  if "rows s ''sr_drafts'' = map snd (draft_rows e)"
  using that by (simp_all add: present_def draft_rows_def draft_row_def cell_def)

lemma present_attachment:
  "present ''attachmentrecord'' ''id'' i s" "present ''attachmentrecord'' ''id'' j s" "present ''attachmentrecord'' ''id'' k s"
  if "rows s ''attachmentrecord'' = map snd (attachment_rows e i j k)"
  using that by (simp_all add: present_def attachment_rows_def attachment_row_def cell_def)

text \<open>The flushes of the run: users; then four tables; drafts and attachments; then the rest.\<close>

definition first_flush :: "seed_env \<Rightarrow> string \<Rightarrow> row list" where
  "first_flush e = (\<lambda>t. [])(''user'' := map snd (user_rows e))"

definition second_flush :: "seed_env \<Rightarrow> string \<Rightarrow> row list" where
  "second_flush e = (first_flush e)
     (''profile'' := map snd (profile_rows e), ''registrationsession'' := map snd (registration_rows e (rid e 0) (rid e 1)),
      ''pinresettoken'' := map snd (pin_reset_rows e (rid e 2) (rid e 3)), ''aoregistrationsession'' := map snd (ao_rows e (rid e 4) (rid e 5)))"

definition third_flush :: "seed_env \<Rightarrow> string \<Rightarrow> row list" where
  "third_flush e = (second_flush e)
     (''sr_drafts'' := map snd (draft_rows e), ''attachmentrecord'' := map snd (attachment_rows e (rid e 6) (rid e 7) (rid e 8)))"

definition seeded_rows :: "seed_env \<Rightarrow> string \<Rightarrow> row list" where
  "seeded_rows e = (third_flush e)
     (''scanjob'' := map snd (scan_rows e (rid e 6) (rid e 7) (rid e 8) (rid e 9) (rid e 10) (rid e 11)),
      ''plansignaturesession'' := map snd (signature_rows e (rid e 12) (rid e 13)),
      ''disclaimeracknowledgement'' := map snd (disclaimer_rows e (rid e 14)),
      ''workerauditrecord'' := map snd (audit_rows e (rid e 15) (rid e 16) (rid e 17) (rid e 18) (rid e 19) (rid e 20) (rid e 21) (rid e 22)))"

lemma flush_users: "insert_all d (user_rows e) (running (\<lambda>t. []) [] n) = (Inr (), running (first_flush e) [] n)"
  by (simp add: insert_users first_flush_def)

lemma flush_four:
  assumes "inj (fresh e)"
  shows "insert_all d (profile_rows e @ registration_rows e (rid e 0) (rid e 1) @ pin_reset_rows e (rid e 2) (rid e 3) @
      ao_rows e (rid e 4) (rid e 5)) (running (first_flush e) [] n) = (Inr (), running (second_flush e) [] n)"
  by (simp add: insert_all_append bind_def insert_profiles insert_registrations insert_pin_resets insert_ao rid_simps(1)[OF assms] rid_simps(2)
      first_flush_def second_flush_def present_user[where e = e] present_profile[where e = e])

lemma flush_documents:
  assumes "inj (fresh e)"
  shows "insert_all d (draft_rows e @ attachment_rows e (rid e 6) (rid e 7) (rid e 8)) (running (second_flush e) [] n) =
      (Inr (), running (third_flush e) [] n)"
  by (simp add: insert_all_append bind_def insert_drafts insert_attachments rid_simps(1)[OF assms] rid_simps(2)
      first_flush_def second_flush_def third_flush_def present_profile[where e = e] present_draft[where e = e])

lemma flush_rest:
  assumes "inj (fresh e)"
  shows "insert_all d (scan_rows e (rid e 6) (rid e 7) (rid e 8) (rid e 9) (rid e 10) (rid e 11) @ signature_rows e (rid e 12) (rid e 13) @
      disclaimer_rows e (rid e 14) @
      audit_rows e (rid e 15) (rid e 16) (rid e 17) (rid e 18) (rid e 19) (rid e 20) (rid e 21) (rid e 22))
      (running (third_flush e) [] n) = (Inr (), running (seeded_rows e) [] n)"
  by (simp add: insert_all_append bind_def insert_scans insert_signatures insert_disclaimer insert_audit rid_simps(1)[OF assms] rid_simps(2)
      first_flush_def second_flush_def third_flush_def seeded_rows_def present_profile[where e = e]
      present_attachment[where e = e and i = "rid e 6" and j = "rid e 7" and k = "rid e 8"])

lemma check_simps [simp]:
  "check_table users_check = ''user''" "check_table profiles_check = ''profile''" "check_table registration_check = ''registrationsession''"
  "check_table pin_reset_check = ''pinresettoken''" "check_table ao_check = ''aoregistrationsession''" "check_table drafts_check = ''sr_drafts''"
  "check_table attachments_check = ''attachmentrecord''" "check_table signatures_check = ''plansignaturesession''"
  "check_table disclaimer_check = ''disclaimeracknowledgement''" "check_table audit_check = ''workerauditrecord''"
  by (simp_all add: check_defs)

lemma count_check_absent:
  assumes "g \<in> {registration_check, pin_reset_check, ao_check, attachments_check, signatures_check, disclaimer_check, audit_check}"
    and "R (check_table g) = []"
  shows "unless_seeded d g v body (running R P n) = body (running R P n)"
proof (rule count_absent)
  show "case g of ById tb x \<Rightarrow> False | _ \<Rightarrow> True" using assms(1) by (auto simp: check_defs)
  show "resolves created (check_table g) (check_columns g)"
    using assms(1) by (intro checks_resolve) (auto simp: checks_def)
qed (rule assms(2))

lemma in_turn_Nil: "in_turn [] = ret ()"
  by (simp add: in_turn_def id_def)

lemma in_turn_Cons: "in_turn (m # ms) = bind m (\<lambda>_. in_turn ms)"
  by (simp add: in_turn_def)

lemma in_turn_append: "in_turn (ms @ ns) = bind (in_turn ms) (\<lambda>_. in_turn ns)"
  by (induction ms) (simp_all only: append_Nil append_Cons in_turn_Nil in_turn_Cons bind_ret bind_assoc)

lemma seeds_run:
  assumes "inj (fresh e)" and o: "\<And>xs. flush_order d xs = xs"
  shows "in_turn (seed_functions d e) (running (\<lambda>t. []) [] 0) =
    (Inr (), running (third_flush e) (scan_rows e (rid e 6) (rid e 7) (rid e 8) (rid e 9) (rid e 10) (rid e 11) @
      signature_rows e (rid e 12) (rid e 13) @ disclaimer_rows e (rid e 14) @
      audit_rows e (rid e 15) (rid e 16) (rid e 17) (rid e 18) (rid e 19) (rid e 20) (rid e 21) (rid e 22)) 23)"
proof -
  note absent = count_check_absent
  define sessions where "sessions = [seed_registration_sessions d e, seed_pin_reset_tokens d e, seed_ao_registration d e]"
  define others where "others = [seed_plan_signatures d e, seed_disclaimer d e, seed_audit_records d e]"
  have "seed_users d e (running (\<lambda>t. []) [] 0) = (Inr True, running (\<lambda>t. []) (user_rows e) 0)"
    unfolding seed_users_def users_check_def
    by (subst id_absent[where R' = "\<lambda>t. []"]) (use checks_resolve[of users_check] o in \<open>simp_all add: checks_def users_check_def\<close>)
  moreover have "seed_profiles d e (running (\<lambda>t. []) (user_rows e) 0) = (Inr (), running (first_flush e) (profile_rows e) 0)"
    unfolding seed_profiles_def profiles_check_def
    by (subst id_absent[OF flush_users])
      (use checks_resolve[of profiles_check] o in \<open>simp_all add: checks_def profiles_check_def first_flush_def\<close>)
  moreover have "in_turn sessions
      (running (first_flush e) (profile_rows e) 0) =
    (Inr (), running (first_flush e) (profile_rows e @ registration_rows e (rid e 0) (rid e 1) @ pin_reset_rows e (rid e 2) (rid e 3) @
      ao_rows e (rid e 4) (rid e 5)) 6)"
    by (simp add: sessions_def in_turn_def bind_Inr seed_registration_sessions_def seed_pin_reset_tokens_def seed_ao_registration_def absent
        first_flush_def del: One_nat_def)
  moreover have "seed_sr_drafts d e (running (first_flush e) (profile_rows e @ registration_rows e (rid e 0) (rid e 1) @
      pin_reset_rows e (rid e 2) (rid e 3) @ ao_rows e (rid e 4) (rid e 5)) 6) = (Inr (), running (second_flush e) (draft_rows e) 6)"
    unfolding seed_sr_drafts_def drafts_check_def
    by (subst id_absent[OF flush_four[OF assms(1)]])
      (use checks_resolve[of drafts_check] o in \<open>simp_all add: checks_def drafts_check_def first_flush_def second_flush_def\<close>)
  moreover have "seed_attachments d e (running (second_flush e) (draft_rows e) 6) =
      (Inr (), running (third_flush e) (scan_rows e (rid e 6) (rid e 7) (rid e 8) (rid e 9) (rid e 10) (rid e 11)) 12)"
  proof -
    have "second_flush e ''attachmentrecord'' = []" by (simp add: first_flush_def second_flush_def)
    moreover have "bind (flush d) f (running (second_flush e) (draft_rows e @ attachment_rows e (rid e 6) (rid e 7) (rid e 8)) 9) =
        f () (running (third_flush e) [] 9)" for f :: "unit \<Rightarrow> (seed_state, unit) io"
      by (simp add: bind_def flush_def o flush_documents[OF assms(1)])
    ultimately show ?thesis by (simp add: seed_attachments_def absent del: One_nat_def)
  qed
  moreover have "in_turn others
      (running (third_flush e) (scan_rows e (rid e 6) (rid e 7) (rid e 8) (rid e 9) (rid e 10) (rid e 11)) 12) =
    (Inr (), running (third_flush e) (scan_rows e (rid e 6) (rid e 7) (rid e 8) (rid e 9) (rid e 10) (rid e 11) @
      signature_rows e (rid e 12) (rid e 13) @ disclaimer_rows e (rid e 14) @
      audit_rows e (rid e 15) (rid e 16) (rid e 17) (rid e 18) (rid e 19) (rid e 20) (rid e 21) (rid e 22)) 23)"
    by (simp add: others_def in_turn_def bind_Inr seed_plan_signatures_def seed_disclaimer_def seed_audit_records_def absent
        first_flush_def second_flush_def third_flush_def del: One_nat_def)
  moreover have "seed_functions d e = bind (seed_users d e) (\<lambda>_. ret ()) # seed_profiles d e # sessions @ seed_sr_drafts d e # seed_attachments d e # others"
    by (simp add: seed_functions_def sessions_def others_def)
  ultimately show ?thesis
    by (simp only: in_turn_append in_turn_Cons bind_assoc bind_ret bind_Inr)
qed

lemma fresh_run:
  assumes "inj (fresh e)" and "\<And>xs. flush_order d xs = xs"
  shows "seed_main d e False empty_db = (Inr (map (encode e) (seed_claims e)), (running (seeded_rows e) [] 23)\<lparr>stored := seeded_rows e\<rparr>)"
proof -
  let ?s = "empty_db\<lparr>cat := created\<rparr>"
  have start: "?s\<lparr>rows := stored ?s, pending := []\<rparr> = running (\<lambda>t. []) [] 0" by (simp add: empty_db_def running_def)
  have cat: "empty_db\<lparr>cat := create_all model_tables (cat empty_db)\<rparr> = ?s" by (simp add: empty_db_def created_def)
  have "commit d (running (third_flush e) (scan_rows e (rid e 6) (rid e 7) (rid e 8) (rid e 9) (rid e 10) (rid e 11) @
      signature_rows e (rid e 12) (rid e 13) @ disclaimer_rows e (rid e 14) @
      audit_rows e (rid e 15) (rid e 16) (rid e 17) (rid e 18) (rid e 19) (rid e 20) (rid e 21) (rid e 22)) 23) =
    (Inr (), (running (seeded_rows e) [] 23)\<lparr>stored := seeded_rows e\<rparr>)"
    by (simp add: commit_def bind_def flush_def assms(2) flush_rest[OF assms(1)])
  then have "with_session (bind (ret ()) (\<lambda>_. bind (in_turn (seed_functions d e)) (\<lambda>_. commit d))) ?s =
      (Inr (), (running (seeded_rows e) [] 23)\<lparr>stored := seeded_rows e\<rparr>)"
    unfolding with_session_def start bind_ret bind_Inr[of "in_turn (seed_functions d e)", OF seeds_run[OF assms]]
    by (simp add: running_def)
  then show ?thesis unfolding seed_main_def bind_modify cat by (simp add: bind_Inr)
qed

text \<open>
  Seeding a fresh database works: on an empty database, foreign keys enforced or not, \<open>main\<close> creates the tables of
  the models and returns the four tokens, every INSERT having found its references, and commits
  exactly the rows of the ten seed functions. The ids must not repeat, and the rows be flushed in the order they were added.
\<close>

theorem fresh_database_seeded:
  assumes "inj (fresh e)" and "\<And>xs. flush_order d xs = xs"
  shows "\<exists>t. seed_main d e False empty_db = (Inr (map (encode e) (seed_claims e)), t) \<and> stored t = seeded_rows e \<and>
    map (\<lambda>n. length (stored t n)) TRUNCATE_ORDER = [3, 3, 2, 2, 3, 8, 1, 1, 2, 3, 3]"
proof -
  have "map (\<lambda>n. length (seeded_rows e n)) TRUNCATE_ORDER = [3, 3, 2, 2, 3, 8, 1, 1, 2, 3, 3]"
    by (simp add: TRUNCATE_ORDER_def seeded_rows_def third_flush_def second_flush_def first_flush_def user_rows_def profile_rows_def
        registration_rows_def pin_reset_rows_def ao_rows_def draft_rows_def attachment_rows_def scan_rows_def signature_rows_def
        disclaimer_rows_def audit_rows_def Let_def)
  then show ?thesis using fresh_run[OF assms] by simp
qed

definition demo_seed_env :: seed_env where
  "demo_seed_env = \<lparr>now = 0, fresh = (\<lambda>n. replicate n CHR ''x''), bcrypt_hash = id, token_now = 0, ttl_days = 1, encode = (\<lambda>c. ''jwt'')\<rparr>"

lemma demo_seed_env_inj: "inj (fresh demo_seed_env)"
  by (rule injI, drule arg_cong[where f = length]) (simp add: demo_seed_env_def)

theorem fresh_database_seeded_witness:
  "\<exists>t. seed_main strict demo_seed_env False empty_db = (Inr [''jwt'', ''jwt'', ''jwt'', ''jwt''], t) \<and> stored t = seeded_rows demo_seed_env"
proof -
  have "map (encode demo_seed_env) (seed_claims demo_seed_env) = [''jwt'', ''jwt'', ''jwt'', ''jwt'']"
    by (simp add: seed_claims_def demo_seed_env_def)
  then show ?thesis using fresh_database_seeded[OF demo_seed_env_inj, of strict] by (auto simp: strict_def)
qed

theorem seed_idempotent_witness:
  "\<exists>t. seed_main strict demo_seed_env False empty_db = (Inr (map (encode demo_seed_env) (seed_claims demo_seed_env)), t) \<and>
     seed_main strict demo_seed_env False t = (Inr (map (encode demo_seed_env) (seed_claims demo_seed_env)), t)"
proof -
  have run: "seed_main strict demo_seed_env False empty_db =
      (Inr (map (encode demo_seed_env) (seed_claims demo_seed_env)),
       (running (seeded_rows demo_seed_env) [] 23)\<lparr>stored := seeded_rows demo_seed_env\<rparr>)"
    by (rule fresh_run[OF demo_seed_env_inj]) (simp add: strict_def)
  then show ?thesis using seed_idempotent[OF sane_strict run, of demo_seed_env] by blast
qed

theorem seed_fails_after_migrations_witness:
  "\<exists>x t. seed_main strict demo_seed_env True (empty_db\<lparr>cat := at_0005\<rparr>) = (Inl x, t) \<and> rows t = stored t"
  using seed_fails_after_migrations[OF sane_strict, of "empty_db\<lparr>cat := at_0005\<rparr>" demo_seed_env True]
  by (auto simp: upgrade_head)

section \<open>The tokens\<close>

text \<open>The constants are those of the mock clients, and the tokens are accepted for the roles they are made for.\<close>

lemma personas_match:
  "[SEED_ALICE_USER_ID, SEED_BOB_USER_ID, SEED_CAROL_USER_ID] = [ALICE_USER_ID, BOB_USER_ID, CAROL_USER_ID]"
  "[SEED_ALICE_BCEID, SEED_BOB_BCEID, SEED_CAROL_BCEID] = [ALICE_BCEID, BOB_BCEID, CAROL_BCEID]"
  "[SEED_ALICE_PROFILE_ID, SEED_BOB_PROFILE_ID, SEED_CAROL_PROFILE_ID] = [ALICE_PROFILE_ID, BOB_PROFILE_ID, CAROL_PROFILE_ID]"
  "SEED_WORKER_IDIR = WORKER_IDIR"
  by (simp_all add: personas persona_defs WORKER_IDIR_def)

lemma seed_tokens_accepted:
  "map user_of_claims (seed_claims e) =
     [Inr (make_user ALICE_USER_ID CLIENT (Some ALICE_BCEID) None), Inr (make_user BOB_USER_ID CLIENT (Some BOB_BCEID) None),
      Inr (make_user CAROL_USER_ID CLIENT (Some CAROL_BCEID) None), Inr (make_user WORKER_IDIR WORKER None (Some WORKER_IDIR))]"
  by (simp add: seed_claims_def make_jwt_def user_of_claims_def role_values_def enum_of_def claim_def build_defs personas persona_defs
      WORKER_IDIR_def)

end
