(* ===== verification/App.thy ===== *)
theory App
  imports Support_View Ao_Registration Account
begin

text \<open>
  The application object of \<open>main.py\<close>: the table of routes with the token each demands, in the order of
  \<open>include_router\<close>, and how a request finds its route; the health route; start-up and shutdown; the accessors of the ICM
  clients and of the Redis pool.
\<close>

section \<open>Routes\<close>

text \<open>What the dependencies of a route ask of the \<open>Authorization\<close> header, or instead of it.\<close>

datatype route_gate = Unguarded | ClientRole | WorkerRole | SupportSession | AoSession | RegistrationToken | WebhookSecret

text \<open>A path is the list of its segments; \<open>Param\<close> is \<open>{name}\<close>.\<close>

datatype seg = Lit string | Param

datatype route = Route (r_methods: "string list") (r_path: "seg list") (r_gate: route_gate)

text \<open>What FastAPI adds first, as \<open>docs_url\<close> and \<open>openapi_url\<close> are left at their defaults.\<close>

definition docs_routes :: "route list" where
  "docs_routes =
     [Route [''GET'', ''HEAD''] [Lit ''openapi.json''] Unguarded, Route [''GET'', ''HEAD''] [Lit ''docs''] Unguarded,
      Route [''GET'', ''HEAD''] [Lit ''docs'', Lit ''oauth2-redirect''] Unguarded, Route [''GET'', ''HEAD''] [Lit ''redoc''] Unguarded]"

definition health_routes :: "route list" where
  "health_routes =
     [Route [''GET''] [Lit ''health''] Unguarded]"

definition eligibility_routes :: "route list" where
  "eligibility_routes =
     [Route [''POST''] [Lit ''eligibility-estimator'', Lit ''calculate''] Unguarded]"

definition registration_routes :: "route list" where
  "registration_routes =
     [Route [''POST''] [Lit ''registration'', Lit ''start''] Unguarded,
      Route [''GET''] [Lit ''registration'', Lit ''verify'', Param] Unguarded,
      Route [''GET''] [Lit ''registration'', Param, Lit ''step'', Param] RegistrationToken,
      Route [''POST''] [Lit ''registration'', Param, Lit ''personal-info''] RegistrationToken,
      Route [''POST''] [Lit ''registration'', Param, Lit ''pin''] RegistrationToken,
      Route [''POST''] [Lit ''registration'', Param, Lit ''link-bceid''] RegistrationToken]"

definition sr_routes :: "route list" where
  "sr_routes =
     [Route [''GET''] [Lit ''service-requests''] ClientRole,
      Route [''GET''] [Lit ''service-requests'', Lit ''eligible-types''] ClientRole,
      Route [''POST''] [Lit ''service-requests''] ClientRole,
      Route [''GET''] [Lit ''service-requests'', Param, Lit ''draft''] ClientRole,
      Route [''GET''] [Lit ''service-requests'', Param, Lit ''form''] ClientRole,
      Route [''PUT''] [Lit ''service-requests'', Param, Lit ''form''] ClientRole,
      Route [''POST''] [Lit ''service-requests'', Param, Lit ''submit''] ClientRole,
      Route [''GET''] [Lit ''service-requests'', Param] ClientRole,
      Route [''POST''] [Lit ''service-requests'', Param, Lit ''withdraw''] ClientRole]"

definition mr_routes :: "route list" where
  "mr_routes =
     [Route [''GET''] [Lit ''monthly-reports'', Lit ''current-period''] ClientRole,
      Route [''GET''] [Lit ''monthly-reports''] ClientRole,
      Route [''POST''] [Lit ''monthly-reports''] ClientRole,
      Route [''GET''] [Lit ''monthly-reports'', Param, Lit ''answers''] ClientRole,
      Route [''PUT''] [Lit ''monthly-reports'', Param, Lit ''answers''] ClientRole,
      Route [''POST''] [Lit ''monthly-reports'', Param, Lit ''submit''] ClientRole,
      Route [''POST''] [Lit ''monthly-reports'', Param, Lit ''restart''] ClientRole,
      Route [''GET''] [Lit ''monthly-reports'', Param, Lit ''pdf''] ClientRole]"

definition notifications_routes :: "route list" where
  "notifications_routes =
     [Route [''GET''] [Lit ''notifications'', Lit ''banners''] ClientRole]"

definition messages_routes :: "route list" where
  "messages_routes =
     [Route [''GET''] [Lit ''messages''] ClientRole,
      Route [''GET''] [Lit ''messages'', Param] ClientRole,
      Route [''POST''] [Lit ''messages'', Param, Lit ''reply''] ClientRole,
      Route [''DELETE''] [Lit ''messages'', Param] ClientRole,
      Route [''POST''] [Lit ''messages'', Param, Lit ''sign''] ClientRole]"

definition payment_routes :: "route list" where
  "payment_routes =
     [Route [''GET''] [Lit ''payment'', Lit ''info''] ClientRole,
      Route [''GET''] [Lit ''payment'', Lit ''schedule''] ClientRole,
      Route [''GET''] [Lit ''payment'', Lit ''mis-data''] ClientRole,
      Route [''GET''] [Lit ''payment'', Lit ''t5-slips''] ClientRole,
      Route [''GET''] [Lit ''payment'', Lit ''t5-slips'', Param] ClientRole]"

definition ep_routes :: "route list" where
  "ep_routes =
     [Route [''GET''] [Lit ''employment-plans''] ClientRole,
      Route [''GET''] [Lit ''employment-plans'', Param] ClientRole,
      Route [''POST''] [Lit ''employment-plans'', Param, Lit ''sign''] ClientRole]"

definition account_routes :: "route list" where
  "account_routes =
     [Route [''GET''] [Lit ''account'', Lit ''profile''] ClientRole,
      Route [''PATCH''] [Lit ''account'', Lit ''contact''] ClientRole,
      Route [''GET''] [Lit ''account'', Lit ''case-members''] ClientRole,
      Route [''POST''] [Lit ''account'', Lit ''post-login-sync''] ClientRole]"

definition pin_routes :: "route list" where
  "pin_routes =
     [Route [''POST''] [Lit ''auth'', Lit ''pin'', Lit ''validate''] ClientRole,
      Route [''POST''] [Lit ''auth'', Lit ''pin'', Lit ''change''] ClientRole,
      Route [''POST''] [Lit ''auth'', Lit ''pin'', Lit ''reset-request''] ClientRole,
      Route [''POST''] [Lit ''auth'', Lit ''pin'', Lit ''reset-confirm''] ClientRole]"

definition attachment_routes :: "route list" where
  "attachment_routes =
     [Route [''POST''] [Lit ''attachments'', Lit ''upload''] ClientRole,
      Route [''GET''] [Lit ''attachments'', Lit ''upload'', Param, Lit ''status''] ClientRole,
      Route [''POST''] [Lit ''internal'', Lit ''av-scan-result''] WebhookSecret,
      Route [''POST''] [Lit ''attachments'', Lit ''sr'', Param, Lit ''submit''] ClientRole,
      Route [''GET''] [Lit ''attachments'', Lit ''sr'', Param, Lit ''download''] ClientRole,
      Route [''GET''] [Lit ''attachments'', Lit ''messages'', Param, Param, Lit ''download''] ClientRole]"

definition support_view_routes :: "route list" where
  "support_view_routes =
     [Route [''POST''] [Lit ''admin'', Lit ''support-view'', Lit ''search''] WorkerRole,
      Route [''POST''] [Lit ''admin'', Lit ''support-view'', Lit ''tombstone''] WorkerRole,
      Route [''DELETE''] [Lit ''admin'', Lit ''support-view'', Lit ''tombstone''] WorkerRole,
      Route [''GET''] [Lit ''admin'', Lit ''support-view'', Lit ''client-data'', Param] SupportSession]"

definition ao_routes :: "route list" where
  "ao_routes =
     [Route [''POST''] [Lit ''admin'', Lit ''ao'', Lit ''login''] WorkerRole,
      Route [''GET''] [Lit ''admin'', Lit ''ao'', Lit ''registration'', Param, Lit ''step'', Param] AoSession,
      Route [''POST''] [Lit ''admin'', Lit ''ao'', Lit ''registration'', Param, Lit ''step'', Param] AoSession,
      Route [''POST''] [Lit ''admin'', Lit ''ao'', Lit ''form'', Param, Lit ''submit''] AoSession,
      Route [''GET''] [Lit ''admin'', Lit ''ao'', Lit ''ia-applications''] WorkerRole]"

text \<open>The \<open>include_router\<close> calls.\<close>

definition app_routes :: "route list" where
  "app_routes = docs_routes @ health_routes @ eligibility_routes @ registration_routes @ sr_routes @ mr_routes @ notifications_routes @
    messages_routes @ payment_routes @ ep_routes @ account_routes @ pin_routes @ attachment_routes @
    support_view_routes @ ao_routes"

text \<open>
  Matching as Starlette compiles it, \<open>^/lit/[^/]+$\<close>: a parameter is a segment that is not empty, and
  the dollar also matches before a newline at the end.
\<close>

fun match_seg :: "seg \<Rightarrow> string \<Rightarrow> bool" where
  "match_seg (Lit l) x \<longleftrightarrow> x = l"
| "match_seg Param x \<longleftrightarrow> x \<noteq> []"

definition match_path :: "seg list \<Rightarrow> string \<Rightarrow> bool" where
  "match_path pat p = (case p of [] \<Rightarrow> False | c # rest \<Rightarrow> c = CHR ''/'' \<and> list_all2 match_seg pat (split_at (CHR ''/'') rest))"

definition newline :: char where
  "newline = CHR 10"

definition path_matches :: "seg list \<Rightarrow> string \<Rightarrow> bool" where
  "path_matches pat p \<longleftrightarrow> match_path pat p \<or> (p \<noteq> [] \<and> last p = newline \<and> match_path pat (butlast p))"

datatype resolution = Found route | MethodNotAllowed | RedirectSlash | RouteNotFound

definition other_slash :: "string \<Rightarrow> string" where
  "other_slash p = (if p \<noteq> [] \<and> last p = CHR ''/'' then rev (dropWhile (\<lambda>c. c = CHR ''/'') (rev p)) else p @ ''/'')"

definition resolve :: "route list \<Rightarrow> string \<Rightarrow> string \<Rightarrow> resolution" where
  "resolve rs m p =
     (case find (\<lambda>r. path_matches (r_path r) p \<and> list_ex (\<lambda>x. x = m) (r_methods r)) rs of
        Some r \<Rightarrow> Found r
      | None \<Rightarrow>
          if list_ex (\<lambda>r. path_matches (r_path r) p) rs then MethodNotAllowed
          else if p \<noteq> ''/'' \<and> list_ex (\<lambda>r. path_matches (r_path r) (other_slash p)) rs then RedirectSlash
          else RouteNotFound)"

text \<open>The headers that the dependencies read; \<open>credentials\<close> is the bearer token of \<open>Authorization\<close>.\<close>

record request_headers =
  credentials :: "string option"
  ao_token :: "string option"
  support_client :: "string option"

text \<open>
  What the dependencies of a route decide about a request, in the order in which FastAPI runs them: the user they let in, where
  the route has one. The session of the routes for AO registrations is resolved before the role of the worker; the one of the
  support view needs the worker for its key. A header that is missing is reported after the other dependencies have run.
\<close>

fun admit ::
  "'r kv_ops \<Rightarrow> (datetime \<Rightarrow> expiry) \<Rightarrow> decode_fun \<Rightarrow> string \<Rightarrow> route_gate \<Rightarrow> request_headers \<Rightarrow>
   (('i, 'r, 'z) kvbase_scheme, user_context option) io" where
  "admit ops stamp decode secret ClientRole h =
     bind (lift_res (as_role decode secret CLIENT (credentials h))) (\<lambda>u. ret (Some u))"
| "admit ops stamp decode secret WorkerRole h =
     bind (lift_res (as_worker decode secret (credentials h))) (\<lambda>u. ret (Some u))"
| "admit ops stamp decode secret SupportSession h =
     bind (lift_res (as_worker decode secret (credentials h))) (\<lambda>u.
     case support_client h of
       None \<Rightarrow> raise unprocessable
     | Some c \<Rightarrow> bind (require_support_view_session ops (Inr u) c) (\<lambda>x. ret (Some u)))"
| "admit ops stamp decode secret AoSession h =
     (case ao_token h of
        None \<Rightarrow> bind (lift_res (as_worker decode secret (credentials h))) (\<lambda>u. raise unprocessable)
      | Some k \<Rightarrow>
          bind (require_ao_session ops stamp k) (\<lambda>x.
          bind (lift_res (as_worker decode secret (credentials h))) (\<lambda>u. ret (Some u))))"
| "admit ops stamp decode secret Unguarded h = ret None"
| "admit ops stamp decode secret RegistrationToken h = ret None"
| "admit ops stamp decode secret WebhookSecret h = ret None"

text \<open>The routes with a session do what their dependencies decide before anything else.\<close>

lemma session_routes_admit:
  "fst (admit ops stamp decode secret AoSession h s) = Inl e \<Longrightarrow> ao_token h = Some k \<Longrightarrow>
     fst (get_registration_step ops stamp (as_worker decode secret (credentials h)) k token n s) = Inl e"
  "fst (admit ops stamp decode secret AoSession h s) = Inl e \<Longrightarrow> ao_token h = Some k \<Longrightarrow>
     fst (submit_registration_step ops stamp (as_worker decode secret (credentials h)) k token n s) = Inl e"
  "fst (admit ops stamp decode secret SupportSession h s) = Inl e \<Longrightarrow> support_client h = Some c \<Longrightarrow>
     fst (get_client_data ops (as_worker decode secret (credentials h)) c resource s) = Inl e"
  by (auto simp: get_registration_step_def submit_registration_step_def get_client_data_def require_support_view_session_def bind_def
      split: sum.splits prod.splits)

section \<open>No request has two routes\<close>

text \<open>Segments that some text could match both of.\<close>

fun seg_overlap :: "seg \<Rightarrow> seg \<Rightarrow> bool" where
  "seg_overlap (Lit a) (Lit b) \<longleftrightarrow> a = b \<or> a @ [newline] = b \<or> a = b @ [newline]"
| "seg_overlap _ _ \<longleftrightarrow> True"

definition overlap :: "seg list \<Rightarrow> seg list \<Rightarrow> bool" where
  "overlap a b \<longleftrightarrow> list_all2 seg_overlap a b"

lemma split_at_Nil [simp]: "split_at x xs \<noteq> []"
  by (induction xs) (auto split: list.splits)

lemma split_at_snoc: "c \<noteq> x \<Longrightarrow> split_at x (xs @ [c]) = butlast (split_at x xs) @ [last (split_at x xs) @ [c]]"
proof (induction xs)
  case (Cons a xs)
  then show ?case by (cases "split_at x xs") (auto split: list.splits)
qed simp

lemma seg_overlap_refl: "match_seg s x \<Longrightarrow> match_seg t x \<Longrightarrow> seg_overlap s t"
  by (cases s; cases t) auto

lemma list_all2_overlap: "list_all2 match_seg a xs \<Longrightarrow> list_all2 match_seg b xs \<Longrightarrow> list_all2 seg_overlap a b"
  by (induction a xs arbitrary: b rule: list_all2_induct) (auto simp: list_all2_Cons2 seg_overlap_refl)

lemma seg_overlap_sym: "seg_overlap s t \<longleftrightarrow> seg_overlap t s"
  by (cases s; cases t) auto

lemma match_path_Cons: "match_path pat p \<longleftrightarrow> (\<exists>rest. p = CHR ''/'' # rest \<and> list_all2 match_seg pat (split_at (CHR ''/'') rest))"
  by (cases p) (auto simp: match_path_def)

lemma overlap_newline:
  assumes "list_all2 match_seg a (butlast xs @ [last xs @ [newline]])" and "list_all2 match_seg b xs" and "xs \<noteq> []"
  shows "list_all2 seg_overlap a b"
proof -
  obtain ys y where xs: "xs = ys @ [y]" using assms(3) by (cases xs rule: rev_cases) auto
  obtain as s where a: "a = as @ [s]" and 1: "list_all2 match_seg as ys" "match_seg s (y @ [newline])"
    using assms(1) by (auto simp: xs list_all2_append2 list_all2_Cons2)
  obtain bs t where b: "b = bs @ [t]" and 2: "list_all2 match_seg bs ys" "match_seg t y"
    using assms(2) by (auto simp: xs list_all2_append2 list_all2_Cons2)
  have "seg_overlap s t" using 1(2) 2(2) by (cases s; cases t) auto
  then show ?thesis using list_all2_overlap[OF 1(1) 2(1)] by (simp add: a b list_all2_appendI)
qed

lemma match_newline:
  assumes "match_path a (q @ [newline])" and "match_path b q"
  shows "overlap a b"
proof -
  obtain rest where q: "q = CHR ''/'' # rest" and b: "list_all2 match_seg b (split_at (CHR ''/'') rest)"
    using assms(2) by (auto simp: match_path_Cons)
  have "newline \<noteq> CHR ''/''" by (simp add: newline_def)
  then have "list_all2 match_seg a (butlast (split_at (CHR ''/'') rest) @ [last (split_at (CHR ''/'') rest) @ [newline]])"
    using assms(1) by (auto simp: match_path_Cons q split_at_snoc)
  then show ?thesis unfolding overlap_def using b by (rule overlap_newline) simp
qed

lemma path_matches_overlap:
  assumes "path_matches a p" and "path_matches b p"
  shows "overlap a b"
proof -
  have same: "overlap c d" if "match_path c q" "match_path d q" for c d q
    using that by (auto simp: match_path_Cons overlap_def intro: list_all2_overlap)
  have flip: "overlap c d \<Longrightarrow> overlap d c" for c d
    unfolding overlap_def by (induction rule: list_all2_induct) (auto simp: seg_overlap_sym)
  have strip: "p = butlast p @ [newline]" if "p \<noteq> []" "last p = newline"
    using that append_butlast_last_id by metis
  from assms show ?thesis
    unfolding path_matches_def using same flip match_newline strip by metis
qed

fun conflicts :: "route list \<Rightarrow> (route \<times> route) list" where
  "conflicts [] = []"
| "conflicts (r # rs) =
     map (Pair r) (filter (\<lambda>q. overlap (r_path r) (r_path q) \<and> list_ex (\<lambda>m. list_ex (\<lambda>k. k = m) (r_methods q)) (r_methods r)) rs) @
     conflicts rs"

lemma conflicts_complete:
  assumes "r \<in> set rs" and "q \<in> set rs" and "m \<in> set (r_methods r)" and "m \<in> set (r_methods q)"
    and "path_matches (r_path r) p" and "path_matches (r_path q) p"
  shows "r = q \<or> (r, q) \<in> set (conflicts rs) \<or> (q, r) \<in> set (conflicts rs)"
  using assms
proof (induction rs)
  case (Cons a rs)
  have "overlap (r_path r) (r_path q)" "overlap (r_path q) (r_path r)"
    using Cons.prems(5,6) by (blast intro: path_matches_overlap)+
  then show ?case using Cons by (auto simp: list_ex_iff)
qed simp

definition eligible_types_route :: route where
  "eligible_types_route = Route [''GET''] [Lit ''service-requests'', Lit ''eligible-types''] ClientRole"

definition sr_detail_route :: route where
  "sr_detail_route = Route [''GET''] [Lit ''service-requests'', Param] ClientRole"

lemmas router_defs = docs_routes_def health_routes_def eligibility_routes_def registration_routes_def sr_routes_def mr_routes_def
  notifications_routes_def messages_routes_def payment_routes_def ep_routes_def account_routes_def pin_routes_def
  attachment_routes_def support_view_routes_def ao_routes_def

lemma app_conflicts: "conflicts app_routes = [(eligible_types_route, sr_detail_route)]"
  by code_simp

lemma takeWhile_first: "x \<notin> set ys \<Longrightarrow> takeWhile (\<lambda>y. y \<noteq> x) (ys @ x # zs) = ys"
  by (induction ys) auto

lemma find_append: "find P (xs @ ys) = (case find P xs of None \<Rightarrow> find P ys | Some x \<Rightarrow> Some x)"
  by (induction xs) auto

text \<open>C7.
  No request has two routes: of all the routes of the application, those of FastAPI's own pages included,
  no two match one path with one method, whatever the path, except that the path \<open>/service-requests/eligible-types\<close> also
  has the form \<open>/service-requests/{sr_id}\<close>; there the route for the types wins, as it is registered first.
\<close>

theorem routes_unambiguous:
  assumes "r \<in> set app_routes" and "q \<in> set app_routes" and "m \<in> set (r_methods r)" and "m \<in> set (r_methods q)"
    and "path_matches (r_path r) p" and "path_matches (r_path q) p"
  shows "r = q \<or>
    ({r, q} = {eligible_types_route, sr_detail_route} \<and> resolve app_routes m p = Found eligible_types_route)"
proof (cases "r = q")
  case False
  then have rq: "{r, q} = {eligible_types_route, sr_detail_route}"
    using conflicts_complete[OF assms] by (auto simp: app_conflicts)
  let ?P = "\<lambda>x. path_matches (r_path x) p \<and> list_ex (\<lambda>k. k = m) (r_methods x)"
  define before where "before = takeWhile (\<lambda>x. x \<noteq> eligible_types_route) app_routes"
  have ne: "sr_detail_route \<notin> set before" unfolding before_def by code_simp
  have e: "eligible_types_route \<in> set app_routes" "?P eligible_types_route" using rq assms by (auto simp: list_ex_iff doubleton_eq_iff)
  obtain ys after where ys: "app_routes = ys @ eligible_types_route # after" "eligible_types_route \<notin> set ys"
    using split_list_first[OF e(1)] by blast
  have "before = ys" unfolding before_def by (subst ys(1)) (rule takeWhile_first[OF ys(2)])
  then have app: "app_routes = before @ eligible_types_route # after" using ys(1) by simp
  have "\<not> ?P x" if "x \<in> set before" for x
  proof
    assume "?P x"
    moreover have "x \<in> set app_routes" "x \<noteq> eligible_types_route" using that by (auto simp: before_def dest: set_takeWhileD)
    ultimately have "(x, eligible_types_route) \<in> set (conflicts app_routes) \<or> (eligible_types_route, x) \<in> set (conflicts app_routes)"
      using conflicts_complete[of x app_routes eligible_types_route m p] e by (auto simp: list_ex_iff)
    then show False using ne that by (auto simp: app_conflicts \<open>x \<noteq> eligible_types_route\<close>)
  qed
  then have "find ?P before = None" by (auto simp: find_None_iff)
  then have "find ?P app_routes = Some eligible_types_route" using e by (simp add: app find_append)
  then show ?thesis using rq by (simp add: resolve_def)
qed simp

definition demo_path :: string where
  "demo_path = ''/service-requests/eligible-types''"

theorem routes_unambiguous_witness:
  "path_matches (r_path eligible_types_route) demo_path \<and> path_matches (r_path sr_detail_route) demo_path \<and>
   resolve app_routes ''GET'' demo_path = Found eligible_types_route"
proof -
  have m: "path_matches (r_path eligible_types_route) demo_path" "path_matches (r_path sr_detail_route) demo_path" by code_simp+
  have "eligible_types_route \<in> set app_routes" "sr_detail_route \<in> set app_routes"
    by (simp_all add: app_routes_def sr_routes_def eligible_types_route_def sr_detail_route_def)
  then show ?thesis
    using routes_unambiguous[of eligible_types_route sr_detail_route "''GET''" demo_path] m
    by (simp add: eligible_types_route_def sr_detail_route_def)
qed

section \<open>Who may call what\<close>

text \<open>The routes that ask no token; the last one is guarded by the secret of the scanner.\<close>

definition public_routes :: "route list" where
  "public_routes = docs_routes @
     [Route [''GET''] [Lit ''health''] Unguarded,
      Route [''POST''] [Lit ''eligibility-estimator'', Lit ''calculate''] Unguarded,
      Route [''POST''] [Lit ''registration'', Lit ''start''] Unguarded,
      Route [''GET''] [Lit ''registration'', Lit ''verify'', Param] Unguarded,
      Route [''GET''] [Lit ''registration'', Param, Lit ''step'', Param] RegistrationToken,
      Route [''POST''] [Lit ''registration'', Param, Lit ''personal-info''] RegistrationToken,
      Route [''POST''] [Lit ''registration'', Param, Lit ''pin''] RegistrationToken,
      Route [''POST''] [Lit ''registration'', Param, Lit ''link-bceid''] RegistrationToken,
      Route [''POST''] [Lit ''internal'', Lit ''av-scan-result''] WebhookSecret]"

definition worker_gate :: "route_gate \<Rightarrow> bool" where
  "worker_gate g \<longleftrightarrow> g = WorkerRole \<or> g = SupportSession \<or> g = AoSession"

fun under_admin :: "seg list \<Rightarrow> bool" where
  "under_admin (Lit l # s # ss) \<longleftrightarrow> l = ''admin''"
| "under_admin _ \<longleftrightarrow> False"

fun starts_literal :: "seg list \<Rightarrow> bool" where
  "starts_literal (Lit l # ss) \<longleftrightarrow> newline \<notin> set l \<and> l \<noteq> []"
| "starts_literal _ \<longleftrightarrow> False"

lemma gate_table:
  "list_all (\<lambda>r. (r \<in> set public_routes \<longleftrightarrow> r_gate r \<noteq> ClientRole \<and> \<not> worker_gate (r_gate r)) \<and>
     (worker_gate (r_gate r) \<longleftrightarrow> under_admin (r_path r)) \<and> starts_literal (r_path r)) app_routes"
  by code_simp

lemma split_at_prefix: "x \<notin> set a \<Longrightarrow> split_at x (a @ x # ys) = a # split_at x ys"
  by (induction a) (auto split: list.splits)

lemma split_at_first: "split_at x xs = a # b # bs \<Longrightarrow> \<exists>ys. xs = a @ x # ys \<and> x \<notin> set a"
proof (induction xs arbitrary: a)
  case (Cons c xs)
  then show ?case by (cases "split_at x xs") (auto split: if_splits list.splits)
qed simp

text \<open>A path under \<open>/admin/\<close> matches exactly patterns that start with that segment and have another.\<close>

lemma match_admin:
  assumes "starts_literal pat" and "match_path pat p"
  shows "prefix ''/admin/'' p \<longleftrightarrow> under_admin pat"
proof -
  obtain rest where p: "p = CHR ''/'' # rest" and m: "list_all2 match_seg pat (split_at (CHR ''/'') rest)"
    using assms(2) by (auto simp: match_path_Cons)
  obtain l ss where pat: "pat = Lit l # ss" using assms(1) by (cases pat rule: starts_literal.cases) auto
  show ?thesis
  proof
    assume "prefix ''/admin/'' p"
    then obtain ys where "rest = ''admin'' @ CHR ''/'' # ys" by (auto simp: p prefix_def)
    then have "split_at (CHR ''/'') rest = ''admin'' # split_at (CHR ''/'') ys"
      using split_at_prefix[of "CHR ''/''" "''admin''" ys] by simp
    then show "under_admin pat" using m by (cases "split_at (CHR ''/'') ys"; cases ss) (auto simp: pat)
  next
    assume "under_admin pat"
    then obtain s ss' where "ss = s # ss'" and "l = ''admin''" by (cases ss) (auto simp: pat)
    then obtain b bs where "split_at (CHR ''/'') rest = ''admin'' # b # bs"
      using m by (auto simp: pat list_all2_Cons1)
    then show "prefix ''/admin/'' p" using split_at_first by (fastforce simp: p)
  qed
qed

lemma matches_admin:
  assumes "starts_literal pat" and "path_matches pat p"
  shows "prefix ''/admin/'' p \<longleftrightarrow> under_admin pat"
proof (cases "match_path pat p")
  case False
  then have p: "p \<noteq> []" "last p = newline" and m: "match_path pat (butlast p)" using assms(2) by (auto simp: path_matches_def)
  have "p = butlast p @ [newline]" using p append_butlast_last_id by metis
  moreover have "''/admin/'' \<noteq> q @ [newline]" for q
  proof
    assume "''/admin/'' = q @ [newline]"
    from arg_cong[OF this, of last] show False by (simp add: newline_def)
  qed
  ultimately have "prefix ''/admin/'' p \<longleftrightarrow> prefix ''/admin/'' (butlast p)" by (metis prefix_snoc)
  then show ?thesis using match_admin[OF assms(1) m] by simp
qed (rule match_admin[OF assms(1)])

lemma resolve_Found:
  assumes "resolve rs m p = Found r"
  shows "r \<in> set rs" and "path_matches (r_path r) p" and "m \<in> set (r_methods r)"
proof -
  have "find (\<lambda>r. path_matches (r_path r) p \<and> list_ex (\<lambda>x. x = m) (r_methods r)) rs = Some r"
    using assms by (auto simp: resolve_def split: option.splits if_splits)
  then show "r \<in> set rs" "path_matches (r_path r) p" "m \<in> set (r_methods r)"
    by (auto simp: find_Some_iff list_ex_iff)
qed

lemma found_gates:
  assumes "resolve app_routes m p = Found r"
  shows "r \<in> set public_routes \<longleftrightarrow> r_gate r \<noteq> ClientRole \<and> \<not> worker_gate (r_gate r)"
    and "worker_gate (r_gate r) \<longleftrightarrow> prefix ''/admin/'' p"
proof -
  note found = resolve_Found[OF assms]
  have "(r \<in> set public_routes \<longleftrightarrow> r_gate r \<noteq> ClientRole \<and> \<not> worker_gate (r_gate r)) \<and>
     (worker_gate (r_gate r) \<longleftrightarrow> under_admin (r_path r)) \<and> starts_literal (r_path r)"
    using gate_table found(1) by (simp only: list_all_iff)
  then show "r \<in> set public_routes \<longleftrightarrow> r_gate r \<noteq> ClientRole \<and> \<not> worker_gate (r_gate r)"
    and "worker_gate (r_gate r) \<longleftrightarrow> prefix ''/admin/'' p"
    using matches_admin[OF _ found(2)] by simp_all
qed











section \<open>Clients of the process\<close>

text \<open>
  The module variables that hold connections: the Redis pool (its URL, once made), the cache of ICM clients with the order
  in which the dict got its keys, and what was asked to close so far. The outcome of each closing is a stream.
\<close>

datatype connection = RedisPool | Engine | IcmConnection icm_instance

record app_state =
  redis_pool :: "string option"
  client_cache :: "client_class \<Rightarrow> icm_instance option"
  client_order :: "client_class list"
  closings :: "connection list"
  close_outcome :: "nat \<Rightarrow> unit res"

definition REDIS_URL :: "env \<Rightarrow> string" where
  "REDIS_URL env = getenv env ''REDIS_URL'' ''redis://localhost:6379/0''"

definition get_redis_pool :: "env \<Rightarrow> (app_state, string) io" where
  "get_redis_pool env s =
     (case redis_pool s of
        Some u \<Rightarrow> (Inr u, s)
      | None \<Rightarrow> (Inr (REDIS_URL env), s\<lparr>redis_pool := Some (REDIS_URL env)\<rparr>))"

text \<open>\<open>get_siebel_client\<close> on the module's cache.\<close>

definition cached_client :: "settings \<Rightarrow> client_class \<Rightarrow> (app_state, icm_instance) io" where
  "cached_client st cls s =
     (let (c, cache) = get_siebel_client st cls (client_cache s) in
      (Inr c, s\<lparr>client_cache := cache, client_order := (if client_cache s cls = None then client_order s @ [cls] else client_order s)\<rparr>))"

definition get_siebel_profile_client where "get_siebel_profile_client st = cached_client st ProfileClient"
definition get_siebel_registration_client where "get_siebel_registration_client st = cached_client st RegistrationClient"
definition get_siebel_sr_client where "get_siebel_sr_client st = cached_client st SRClient"
definition get_siebel_monthly_report_client where "get_siebel_monthly_report_client st = cached_client st MonthlyReportClient"
definition get_siebel_notification_client where "get_siebel_notification_client st = cached_client st NotificationClient"
definition get_siebel_payment_client where "get_siebel_payment_client st = cached_client st PaymentClient"
definition get_siebel_ep_client where "get_siebel_ep_client st = cached_client st EPClient"
definition get_siebel_attachment_client where "get_siebel_attachment_client st = cached_client st AttachmentClient"
definition get_siebel_admin_client where "get_siebel_admin_client st = cached_client st AdminClient"
definition get_siebel_account_client where "get_siebel_account_client st = cached_client st AccountClient"

lemmas accessor_defs = get_siebel_profile_client_def get_siebel_registration_client_def get_siebel_sr_client_def
  get_siebel_monthly_report_client_def get_siebel_notification_client_def get_siebel_payment_client_def get_siebel_ep_client_def
  get_siebel_attachment_client_def get_siebel_admin_client_def get_siebel_account_client_def

section \<open>Start-up and shutdown\<close>

text \<open>\<open>aclose\<close> or \<open>dispose\<close> of one connection.\<close>

definition close_connection :: "connection \<Rightarrow> (app_state, unit) io" where
  "close_connection c s = (close_outcome s (length (closings s)), s\<lparr>closings := closings s @ [c]\<rparr>)"

fun close_clients :: "icm_instance list \<Rightarrow> (app_state, unit) io" where
  "close_clients [] = ret ()"
| "close_clients (c # cs) =
     bind (catch (close_connection (IcmConnection c)) is_exception (\<lambda>_. ret ())) (\<lambda>_. close_clients cs)"

definition cached_clients :: "app_state \<Rightarrow> icm_instance list" where
  "cached_clients s = map (\<lambda>k. the (client_cache s k)) (client_order s)"

definition forget_clients :: "(app_state, unit) io" where
  "forget_clients = modify (\<lambda>s. s\<lparr>client_cache := clear_clients (client_cache s), client_order := []\<rparr>)"

definition startup :: "env \<Rightarrow> (app_state, unit) io" where
  "startup env = lift_res (validate_jwt_config env)"

definition close_pool :: "(app_state, unit) io" where
  "close_pool s = (case redis_pool s of None \<Rightarrow> ret () s | Some _ \<Rightarrow> close_connection RedisPool s)"

definition shutdown :: "(app_state, unit) io" where
  "shutdown =
     bind close_pool (\<lambda>_.
     bind (close_connection Engine) (\<lambda>_.
     bind (reads cached_clients) (\<lambda>cs.
     bind (close_clients cs) (\<lambda>_.
     forget_clients))))"

text \<open>\<open>lifespan\<close>: what runs while the application serves stands at the \<open>yield\<close>.\<close>

definition lifespan :: "env \<Rightarrow> (app_state, unit) io \<Rightarrow> (app_state, unit) io" where
  "lifespan env serve = bind (startup env) (\<lambda>_. bind serve (\<lambda>_. shutdown))"

text \<open>The keys of the cache are those of the dict's order, each once, and each value belongs to its key.\<close>

fun instance_class :: "icm_instance \<Rightarrow> client_class" where
  "instance_class (MockInstance k) = k"
| "instance_class (RealInstance k _ _ _ _) = k"

definition cache_ok :: "app_state \<Rightarrow> bool" where
  "cache_ok s \<longleftrightarrow> distinct (client_order s) \<and> set (client_order s) = dom (client_cache s) \<and>
     (\<forall>k c. client_cache s k = Some c \<longrightarrow> instance_class c = k)"

lemma cached_client_ok: "preserves (cached_client st cls) cache_ok"
  by (auto simp: preserves_def cached_client_def get_siebel_client_def cache_ok_def Let_def split: option.splits)

lemma accessors_ok:
  "\<forall>m \<in> {get_siebel_profile_client st, get_siebel_registration_client st, get_siebel_sr_client st,
     get_siebel_monthly_report_client st, get_siebel_notification_client st, get_siebel_payment_client st,
     get_siebel_ep_client st, get_siebel_attachment_client st, get_siebel_admin_client st, get_siebel_account_client st}.
     preserves m cache_ok"
  by (simp add: accessor_defs cached_client_ok)

lemma close_clients_run:
  assumes "\<forall>i. close_outcome s i \<noteq> Inl CancelledExn"
  shows "close_clients cs s = (Inr (), s\<lparr>closings := closings s @ map IcmConnection cs\<rparr>)"
  using assms
proof (induction cs arbitrary: s)
  case (Cons c cs)
  let ?t = "s\<lparr>closings := closings s @ [IcmConnection c]\<rparr>"
  have "close_outcome s (length (closings s)) \<noteq> Inl CancelledExn" using Cons.prems by simp
  then have "catch (close_connection (IcmConnection c)) is_exception (\<lambda>_. ret ()) s = (Inr (), ?t)"
    by (cases "close_outcome s (length (closings s))") (auto simp: catch_def close_connection_def is_exception_def)
  then have "close_clients (c # cs) s = close_clients cs ?t" by (simp add: bind_Inr)
  also have "\<dots> = (Inr (), ?t\<lparr>closings := closings ?t @ map IcmConnection cs\<rparr>)" using Cons.prems by (intro Cons.IH) simp
  finally show ?case by simp
qed simp

definition pool_connection :: "app_state \<Rightarrow> connection list" where
  "pool_connection s = (case redis_pool s of None \<Rightarrow> [] | Some _ \<Rightarrow> [RedisPool])"

lemma shutdown_run:
  assumes "\<forall>i. close_outcome s i \<noteq> Inl CancelledExn"
    and "\<forall>i < length (pool_connection s @ [Engine]). close_outcome s (length (closings s) + i) = Inr ()"
  shows "shutdown s = (Inr (), s\<lparr>closings := closings s @ pool_connection s @ [Engine] @ map IcmConnection (cached_clients s),
    client_cache := Map.empty, client_order := []\<rparr>)"
proof -
  let ?t = "s\<lparr>closings := closings s @ pool_connection s\<rparr>" and ?u = "s\<lparr>closings := closings s @ pool_connection s @ [Engine]\<rparr>"
  have p: "close_pool s = (Inr (), ?t)"
    using assms(2) by (auto simp: close_pool_def pool_connection_def close_connection_def split: option.splits)
  have e: "close_connection Engine ?t = (Inr (), ?u)"
    using assms(2) by (auto simp: pool_connection_def close_connection_def split: option.splits)
  have c: "close_clients (cached_clients s) ?u = (Inr (), ?u\<lparr>closings := closings ?u @ map IcmConnection (cached_clients s)\<rparr>)"
    using assms(1) by (intro close_clients_run) simp
  have "cached_clients ?u = cached_clients s" by (simp add: cached_clients_def)
  then show ?thesis
    by (simp add: shutdown_def bind_Inr[where m = close_pool, OF p] bind_Inr[where m = "close_connection Engine", OF e]
        bind_Inr[where m = "close_clients (cached_clients s)", OF c] forget_clients_def clear_clients_def)
qed

lemma cached_clients_complete:
  "cache_ok s \<Longrightarrow> set (cached_clients s) = ran (client_cache s) \<and> distinct (cached_clients s)"
proof
  assume ok: "cache_ok s"
  then show "set (cached_clients s) = ran (client_cache s)"
    by (force simp: cached_clients_def cache_ok_def ran_def image_iff dom_def)
  have "map instance_class (cached_clients s) = client_order s"
    using ok by (auto simp: cached_clients_def cache_ok_def intro!: map_idI)
  moreover have "distinct (client_order s)" using ok by (simp add: cache_ok_def)
  ultimately show "distinct (cached_clients s)" using distinct_map by metis
qed

text \<open>
  Shutdown closes everything once: if serving leaves the cache consistent and closing the Redis pool and the
  engine succeeds, then a served application closes the pool (if one was made), the engine and each cached ICM client,
  none twice and whatever errors the clients raise, and leaves the cache of clients empty, so that the next request for a class
  makes a new instance. An insecure signing secret outside the local environments stops the application
  before it serves anything, and closes nothing.
\<close>

theorem shutdown_closes_all:
  assumes "preserves serve cache_ok" and "cache_ok s" and "serve s = (Inr (), t)" and "closings t = []"
    and "\<forall>i. close_outcome t i \<noteq> Inl CancelledExn" and "close_outcome t 0 = Inr ()" and "close_outcome t 1 = Inr ()"
  shows "if is_ok (validate_jwt_config env)
    then \<exists>u. lifespan env serve s = (Inr (), u) \<and> distinct (closings u) \<and>
      set (closings u) = (if redis_pool t = None then {} else {RedisPool}) \<union> {Engine} \<union> IcmConnection ` ran (client_cache t) \<and>
      client_cache u = Map.empty \<and> cache_ok u
    else \<exists>e. lifespan env serve s = (Inl (RuntimeExn e), s)"
proof (cases "validate_jwt_config env")
  case (Inl x)
  then show ?thesis
    by (auto simp: lifespan_def startup_def validate_jwt_config_def split: if_splits)
next
  case (Inr x)
  have "cache_ok t" using preservesD[OF assms(1,2)] assms(3) by simp
  then have c: "set (cached_clients t) = ran (client_cache t)" "distinct (cached_clients t)"
    using cached_clients_complete by blast+
  have "\<forall>i < length (pool_connection t @ [Engine]). close_outcome t (length (closings t) + i) = Inr ()"
    using assms(4,6,7) by (auto simp: pool_connection_def less_Suc_eq split: option.splits)
  note run = shutdown_run[OF assms(5) this]
  let ?u = "t\<lparr>closings := pool_connection t @ [Engine] @ map IcmConnection (cached_clients t), client_cache := Map.empty, client_order := []\<rparr>"
  have "lifespan env serve s = (Inr (), ?u)"
    using run assms(3,4) Inr by (simp add: lifespan_def startup_def bind_Inr)
  moreover have "distinct (closings ?u)" using c(2) by (auto simp: distinct_map inj_on_def pool_connection_def split: option.splits)
  moreover have "set (closings ?u) = (if redis_pool t = None then {} else {RedisPool}) \<union> {Engine} \<union> IcmConnection ` ran (client_cache t)"
    using c(1) by (auto simp: pool_connection_def split: option.splits)
  moreover have "cache_ok ?u" by (simp add: cache_ok_def)
  ultimately show ?thesis using Inr by auto
qed

definition demo_process :: app_state where
  "demo_process = \<lparr>redis_pool = None, client_cache = Map.empty, client_order = [], closings = [],
     close_outcome = (\<lambda>i. if i < 2 then Inr () else Inl ConnectExn)\<rparr>"

definition demo_serving :: "(app_state, unit) io" where
  "demo_serving = bind (get_redis_pool Map.empty) (\<lambda>_. bind (get_siebel_sr_client default_settings) (\<lambda>_. ret ()))"

theorem shutdown_closes_all_witness:
  "\<exists>u. lifespan Map.empty demo_serving demo_process = (Inr (), u) \<and>
     set (closings u) = {RedisPool, Engine, IcmConnection (MockInstance SRClient)}"
proof -
  let ?t = "demo_process\<lparr>redis_pool := Some ''redis://localhost:6379/0'', client_cache := [SRClient \<mapsto> MockInstance SRClient],
    client_order := [SRClient]\<rparr>"
  have pool: "preserves (get_redis_pool Map.empty) cache_ok"
    by (auto simp: preserves_def get_redis_pool_def cache_ok_def split: option.splits)
  have 1: "preserves demo_serving cache_ok"
    unfolding demo_serving_def get_siebel_sr_client_def by (intro preserves_bind pool cached_client_ok preserves_ret)
  have 2: "cache_ok demo_process" by (simp add: cache_ok_def demo_process_def)
  have 3: "demo_serving demo_process = (Inr (), ?t)"
    by (simp add: demo_serving_def get_siebel_sr_client_def cached_client_def get_siebel_client_def get_redis_pool_def demo_process_def
        bind_def Let_def REDIS_URL_def getenv_def use_mock_def default_settings_def is_local_def)
  have v: "validate_jwt_config Map.empty = Inr ()"
    by (simp add: validate_jwt_config_def ENVIRONMENT_def getenv_def is_local_def)
  have 4: "\<forall>i. close_outcome ?t i \<noteq> Inl CancelledExn" "closings ?t = []" "close_outcome ?t 0 = Inr ()" "close_outcome ?t 1 = Inr ()"
    by (simp_all add: demo_process_def)
  have "{RedisPool} \<union> {Engine} \<union> IcmConnection ` ran [SRClient \<mapsto> MockInstance SRClient] =
      {RedisPool, Engine, IcmConnection (MockInstance SRClient)}" by auto
  then show ?thesis
    using shutdown_closes_all[OF 1 2 3 4(2) 4(1) 4(3,4), of Map.empty] by (auto simp add: v)
qed

section \<open>Health\<close>

record health_response =
  health_status :: string
  health_db :: string
  health_redis :: string

text \<open>
  \<open>health_check\<close>. The statement \<open>SELECT 1\<close> is the parameter: what it answers is left to the database.
\<close>

definition succeeds :: "('s, 'a) io \<Rightarrow> ('s, bool) io" where
  "succeeds m = catch (bind m (\<lambda>_. ret True)) is_exception (\<lambda>_. ret False)"

definition redis_ping :: "(('i, 'r, 'z) kvbase_scheme, unit) io" where
  "redis_ping = redis_call (\<lambda>now r. ((), r))"

definition health_check :: "(('i, 'r, 'z) kvbase_scheme, 'a) io \<Rightarrow> (('i, 'r, 'z) kvbase_scheme, health_response) io" where
  "health_check select_one =
     bind (succeeds select_one) (\<lambda>db_ok.
     bind (succeeds redis_ping) (\<lambda>redis_ok.
     ret \<lparr>health_status = (if db_ok \<and> redis_ok then ''ok'' else ''degraded''),
          health_db = (if db_ok then ''ok'' else ''error''), health_redis = (if redis_ok then ''ok'' else ''error'')\<rparr>))"

text \<open>
  The health route answers 200 whatever the database and the store do, unless its task is cancelled, and says \<open>ok\<close>
  exactly when both answered.
\<close>

theorem health_always_answers:
  assumes "fst (select_one s) \<noteq> Inl CancelledExn"
  shows "\<exists>t h. served (health_check select_one) s = (Inr (200, Some h), t) \<and>
    (health_db h = ''ok'' \<longleftrightarrow> is_ok (fst (select_one s))) \<and>
    (health_redis h = ''ok'' \<longleftrightarrow> kv_up (snd (select_one s)) (kv_ix (snd (select_one s)))) \<and>
    (health_status h = ''ok'' \<longleftrightarrow> health_db h = ''ok'' \<and> health_redis h = ''ok'')"
proof -
  let ?t = "snd (select_one s)"
  have "succeeds select_one s = (Inr (is_ok (fst (select_one s))), ?t)"
    using assms by (cases "select_one s"; cases "fst (select_one s)") (auto simp: succeeds_def catch_def bind_def is_exception_def)
  moreover have "\<exists>u. succeeds redis_ping ?t = (Inr (kv_up ?t (kv_ix ?t)), u)"
    by (auto simp: succeeds_def catch_def bind_def redis_ping_def redis_call_def is_exception_def Let_def)
  ultimately show ?thesis
    by (auto simp: served_def health_check_def bind_def)
qed

section \<open>The middleware around the routes\<close>

text \<open>C6.
  The audit trail covers the answered requests of the worker routes and nothing else: for every request that has a route, the middleware
  passes what comes back through, an answer or an exception, and stores exactly one record when the route is one of
  those for workers, it came to an answer, the answer is not a 401 or 403, and the database takes the record; on every
  other route, in every other case, the table, which nothing else of the application writes, stays as it was. In particular a request of a worker that ends in an
  exception without a handler, which the server turns into a 500 outside the middleware, leaves no record, whatever it did
  before. The path the router matches is taken to be the one of \<open>request.url\<close>, which the middleware reads.
\<close>

theorem audit_covers_worker_routes:
  assumes "resolve app_routes (req_method rq) (req_path rq) = Found r"
    and "call_next s = (q, t)" and "audit_tbl t = audit_tbl s"
  shows "\<exists>u. dispatch peek rq call_next s = (q, u) \<and>
    audit_tbl u = audit_tbl s @
      (case q of
         Inl e \<Rightarrow> []
       | Inr (n, x) \<Rightarrow>
           if worker_gate (r_gate r) \<and> n \<notin> {401, 403} \<and> audit_up t (audit_ix t) (next_record peek rq t)
           then [next_record peek rq t] else [])"
proof -
  obtain v u where d: "dispatch peek rq call_next s = (v, u)" by (cases "dispatch peek rq call_next s")
  with dispatch_table[where call_next = call_next, OF assms(2), of peek rq]
  have "v = q" "audit_tbl u = audit_tbl s @
      (case q of
         Inl e \<Rightarrow> []
       | Inr (n, x) \<Rightarrow>
           if worker_gate (r_gate r) \<and> n \<notin> {401, 403} \<and> audit_up t (audit_ix t) (next_record peek rq t)
           then [next_record peek rq t] else [])"
    unfolding found_gates(2)[OF assms(1)] assms(3) by simp_all
  with d show ?thesis by blast
qed

theorem audit_covers_worker_routes_witness:
  "(\<exists>u. dispatch (\<lambda>tok. Some demo_claims) demo_rq (ret (200, ())) demo_views = (Inr (200, ()), u) \<and>
     audit_tbl u = audit_tbl demo_views @ [next_record (\<lambda>tok. Some demo_claims) demo_rq demo_views]) \<and>
   (\<exists>u. dispatch (\<lambda>tok. Some demo_claims) demo_rq (raise ConnectExn :: ((nat, ttl_store) admin_state, nat \<times> unit) io) demo_views = (Inl ConnectExn, u) \<and>
     audit_tbl u = audit_tbl demo_views)"
proof -
  let ?r = "Route [''GET''] [Lit ''admin'', Lit ''support-view'', Lit ''client-data'', Param] SupportSession"
  have "resolve app_routes (req_method demo_rq) (req_path demo_rq) = Found ?r" by code_simp
  note covers = audit_covers_worker_routes[OF this, where s = demo_views and t = demo_views and peek = "\<lambda>tok. Some demo_claims"]
  show ?thesis
    using covers[of "ret (200, ())"  "Inr (200, ())"] covers[of "raise ConnectExn" "Inl ConnectExn"]
    by (simp add: worker_gate_def demo_views_def demo_sv_def)
qed

text \<open>
  The CORS middleware stands inside the audit middleware and answers a preflight itself, with the status \<open>n\<close>; a browser
  sends no token with it. So the trail gets a record of a worker nobody knows for each preflight under \<open>/admin/\<close>.
\<close>

theorem preflights_recorded:
  assumes "prefix ''/admin/'' (req_path rq)" and "req_authorization rq = None" and "n \<in> {200, 400}"
    and "\<forall>a. audit_up s (audit_ix s) a"
  shows "\<exists>a. audit_tbl (snd (dispatch peek rq (ret (n, x)) s)) = audit_tbl s @ [a] \<and>
    audit_idir a = JStr ''unknown'' \<and> audit_role a = JStr ''unknown'' \<and> audit_action a = req_method rq @ '' '' @ req_path rq"
  using dispatch_table[where call_next = "ret (n, x)" and s = s and r = "Inr (n, x)" and t = s, of peek rq] assms
  by (auto simp: next_record_def audit_of_def claims_of_def Let_def)

end
