(* ===== verification/Reg_Concurrent.thy ===== *)
theory Reg_Concurrent
  imports Registration
begin

text \<open>
  The wizard under concurrent requests. The tasks of the server interleave at the awaits, and every statement of the
  service is one transaction: a request is overtaken between the SELECT of its session (\<open>_require_session\<close>) and its UPDATE.
  Here the handlers of \<open>app/routers/registration.py\<close> with two statements run as two steps, any number of them at once, and may
  be dropped in between. Each UPDATE with its row count and commit is one step: the database locks the row and reads the
  WHERE clause again after waiting for the lock.
\<close>

section \<open>The machine\<close>

text \<open>A request between its statements: the row it read and the rest of what it was asked.\<close>

datatype waiting =
    PersonalRead (read_row: reg_row) date personal_info
  | PinRead (read_row: reg_row) pin_request

record reg_sys =
  table :: reg_state
  tasks :: "nat \<Rightarrow> waiting option"

fun resume :: "kdf \<Rightarrow> waiting \<Rightarrow> (reg_state, reg_reply) io" where
  "resume kdf (PersonalRead row today d) = personal_rest row today d"
| "resume kdf (PinRead row req) = pin_rest kdf row req"

text \<open>What a resumed request was.\<close>

fun request_of :: "waiting \<Rightarrow> reg_event" where
  "request_of (PersonalRead row today d) = Personal (r_token row) today d"
| "request_of (PinRead row req) = SetPin (r_token row) req"

fun first_read :: "reg_event \<Rightarrow> (string \<times> (reg_row \<Rightarrow> waiting)) option" where
  "first_read (Personal tok today d) = Some (tok, \<lambda>row. PersonalRead row today d)"
| "first_read (SetPin tok req) = Some (tok, \<lambda>row. PinRead row req)"
| "first_read _ = None"

text \<open>
  A request of one statement; the first and the second step of one with two; a request dropped in between, its task cancelled.
\<close>

datatype sys_event =
    Whole reg_event
  | First nat reg_event
  | Second nat
  | Dropped nat

inductive sstep :: "kdf \<Rightarrow> reg_sys \<Rightarrow> sys_event \<Rightarrow> reg_sys \<Rightarrow> bool" for kdf where
  whole: "first_read e = None \<Longrightarrow> reg_handle kdf e (table s) = (r, t) \<Longrightarrow> sstep kdf s (Whole e) (s\<lparr>table := t\<rparr>)"
| found: "first_read e = Some (tok, k) \<Longrightarrow> tasks s i = None \<Longrightarrow> require_session tok (table s) = (Inr row, t) \<Longrightarrow>
    sstep kdf s (First i e) (s\<lparr>table := t, tasks := (tasks s)(i \<mapsto> k row)\<rparr>)"
| missing: "first_read e = Some (tok, k) \<Longrightarrow> tasks s i = None \<Longrightarrow> require_session tok (table s) = (Inl x, t) \<Longrightarrow>
    sstep kdf s (First i e) (s\<lparr>table := t\<rparr>)"
| second: "tasks s i = Some w \<Longrightarrow> resume kdf w (table s) = (r, t) \<Longrightarrow>
    sstep kdf s (Second i) (s\<lparr>table := t, tasks := (tasks s)(i := None)\<rparr>)"
| dropped: "tasks s i = Some w \<Longrightarrow> sstep kdf s (Dropped i) (s\<lparr>tasks := (tasks s)(i := None)\<rparr>)"

text \<open>The relation is executable: each event has at most one outcome.\<close>

fun sexec :: "kdf \<Rightarrow> reg_sys \<Rightarrow> sys_event \<Rightarrow> reg_sys option" where
  "sexec kdf s (Whole e) =
     (case first_read e of Some _ \<Rightarrow> None | None \<Rightarrow> Some (s\<lparr>table := snd (reg_handle kdf e (table s))\<rparr>))"
| "sexec kdf s (First i e) =
     (case first_read e of None \<Rightarrow> None
      | Some (tok, k) \<Rightarrow>
          (case tasks s i of Some _ \<Rightarrow> None
           | None \<Rightarrow>
               (case require_session tok (table s) of
                  (Inr row, t) \<Rightarrow> Some (s\<lparr>table := t, tasks := (tasks s)(i \<mapsto> k row)\<rparr>)
                | (Inl x, t) \<Rightarrow> Some (s\<lparr>table := t\<rparr>))))"
| "sexec kdf s (Second i) =
     (case tasks s i of None \<Rightarrow> None
      | Some w \<Rightarrow> Some (s\<lparr>table := snd (resume kdf w (table s)), tasks := (tasks s)(i := None)\<rparr>))"
| "sexec kdf s (Dropped i) =
     (case tasks s i of None \<Rightarrow> None | Some w \<Rightarrow> Some (s\<lparr>tasks := (tasks s)(i := None)\<rparr>))"

lemma sstep_iff_sexec: "sstep kdf s a t \<longleftrightarrow> sexec kdf s a = Some t"
proof
  show "sstep kdf s a t \<Longrightarrow> sexec kdf s a = Some t"
    by (induction rule: sstep.induct) auto
  show "sexec kdf s a = Some t \<Longrightarrow> sstep kdf s a t"
    by (cases a) (auto split: option.splits prod.splits sum.splits intro: sstep.intros prod.collapse[symmetric])
qed

definition sys_init :: "(nat \<Rightarrow> instant) \<Rightarrow> (nat \<Rightarrow> string) \<Rightarrow> (nat \<Rightarrow> byte list) \<Rightarrow> reg_sys" where
  "sys_init clk uu rnd = \<lparr>table = reg_init clk uu rnd, tasks = Map.empty\<rparr>"

text \<open>
  The invariant: the table is consistent, and what a waiting request read may be out of date, but only in one direction: its
  row still exists and its step has not gone back.
\<close>

definition sys_inv :: "reg_sys \<Rightarrow> bool" where
  "sys_inv s \<longleftrightarrow> reg_inv (table s) \<and> (\<forall>i w. tasks s i = Some w \<longrightarrow> not_stale (table s) (read_row w))"

lemma sys_inv_init: "sys_inv (sys_init clk uu rnd)"
  by (simp add: sys_inv_def sys_init_def reg_inv_init)

section \<open>A step is a step of the wizard\<close>

text \<open>What a step of the system is for the wizard: a first step reads, a second one is the request it completes.\<close>

fun wizard_event :: "reg_sys \<Rightarrow> sys_event \<Rightarrow> reg_event" where
  "wizard_event s (Whole e) = e"
| "wizard_event s (First i e) = e"
| "wizard_event s (Second i) = (case tasks s i of Some w \<Rightarrow> request_of w | None \<Rightarrow> Link [])"
| "wizard_event s (Dropped i) = (case tasks s i of Some w \<Rightarrow> request_of w | None \<Rightarrow> Link [])"

lemma first_read_row: "first_read e = Some (tok, k) \<Longrightarrow> read_row (k row) = row"
  by (cases e) auto

lemma find_live:
  assumes "rows_unique rows" and "r \<in> set rows"
  shows "List.find (\<lambda>x. has_token (r_token r) x \<and> r_expires r - 1 < r_expires x) rows = Some r"
proof -
  let ?P = "\<lambda>x. has_token (r_token r) x \<and> r_expires r - 1 < r_expires x"
  have "List.find ?P rows \<noteq> None" using assms(2) by (auto simp: find_None_iff has_token_def)
  then obtain x where x: "List.find ?P rows = Some x" by blast
  then have "x \<in> set rows" "r_token x = r_token r" by (auto simp: find_Some_iff has_token_def)
  then have "x = r" using assms by (auto simp: rows_unique_def distinct_map dest: inj_onD)
  with x show ?thesis by simp
qed

lemma resume_effect:
  assumes "resume kdf w s = (r, t)" and "not_stale s (read_row w)" and "reg_inv s"
  shows "effect kdf s (request_of w) t"
proof (cases w)
  case (PersonalRead row today d)
  then show ?thesis using assms by (auto intro: effect_personal_rest)
next
  case (PinRead row req)
  obtain cur where cur: "cur \<in> set (sessions s)" "r_token cur = r_token row" "r_step row \<le> r_step cur"
    using assms(2) PinRead by (auto simp: not_stale_def)
  have "rows_unique (sessions s)" using assms(3) by (simp add: reg_inv_def)
  from find_live[OF this cur(1)] show ?thesis
    using assms(1) PinRead cur(2,3) effect_pin_rest[of kdf row req s r t cur] by simp
qed

lemma sstep_effect:
  assumes "sys_inv s" and "sstep kdf s a t"
  shows "effect kdf (table s) (wizard_event s a) (table t)"
  using assms(2)
proof (cases rule: sstep.cases)
  case (whole e r u)
  then show ?thesis by (auto simp: rstep_iff intro: rstep_effect)
next
  case (found e tok k i row u)
  then show ?thesis using require_session_live[of tok "table s" row u] by (auto intro: quietI)
next
  case (missing e tok k i x u)
  then show ?thesis using require_session_fails[of tok "table s" x u] by (auto intro: quietI)
next
  case (second i w r u)
  then show ?thesis using assms(1) resume_effect[of kdf w "table s" r u] by (auto simp: sys_inv_def)
next
  case (dropped i w)
  then show ?thesis by (auto intro: quietI)
qed

lemma uuids_resume: "preserves (resume kdf w) (uuids_at u k)"
  by (cases w) (auto intro!: preserves_bind simp: personal_rest_def pin_rest_def save_registrant_data_def save_pin_def)

lemma sstep_uuids:
  assumes "sstep kdf s a t"
  shows "r_uuids (table t) = r_uuids (table s) \<and> r_uuid_ix (table s) \<le> r_uuid_ix (table t)"
  using assms
proof (cases rule: sstep.cases)
  case (whole e r u)
  then show ?thesis using rstep_uuids[of kdf "table s" e u] by (auto simp: rstep_iff)
next
  case (found e tok k i row u)
  then show ?thesis using require_session_live[of tok "table s" row u] by simp
next
  case (missing e tok k i x u)
  then show ?thesis by (auto simp: require_session_def get_session_by_token_def bind_def r_now_def split: option.splits)
next
  case (second i w r u)
  then show ?thesis
    using preservesD[OF uuids_resume, of "r_uuids (table s)" "r_uuid_ix (table s)" "table s" kdf w] by (simp add: uuids_at_def)
qed simp

lemma sstep_moves: "sys_inv s \<Longrightarrow> sstep kdf s a t \<Longrightarrow> moves kdf (table s) (table t)"
  unfolding moves_def using sstep_effect sstep_uuids by blast

lemma effect_inv: "reg_inv s \<Longrightarrow> effect kdf s e t \<Longrightarrow> reg_inv t"
  using effect_rows_inv[of s kdf e t] effect_pending[of s kdf e t] by (simp add: reg_inv_def)

lemma effect_not_stale:
  assumes "not_stale s row" and "effect kdf s e t"
  shows "not_stale t row"
proof -
  from assms(1) obtain r where r: "r \<in> set (sessions s)" "r_token r = r_token row" "r_step row \<le> r_step r"
    by (auto simp: not_stale_def)
  from effect_keeps_rows[OF assms(2) r(1)] r(2,3) show ?thesis unfolding not_stale_def by fastforce
qed

lemma sstep_inv:
  assumes "sys_inv s" and "sstep kdf s a t"
  shows "sys_inv t"
proof -
  note eff = sstep_effect[OF assms]
  have "reg_inv (table t)" using assms(1) eff by (auto simp: sys_inv_def intro: effect_inv)
  moreover have "not_stale (table t) (read_row w)" if "tasks s i = Some w" for i w
    using assms(1) that effect_not_stale[OF _ eff] by (auto simp: sys_inv_def)
  moreover have "(\<exists>j. tasks s j = Some w) \<or> not_stale (table t) (read_row w)" if "tasks t i = Some w" for i w
    using assms(2)
  proof (cases rule: sstep.cases)
    case (found e tok k j row u)
    then show ?thesis using that require_session_live[of tok "table s" row u] first_read_row
      by (auto simp: not_stale_def split: if_splits)
  qed (use that in \<open>auto split: if_splits\<close>)
  ultimately show ?thesis unfolding sys_inv_def by blast
qed

text \<open>Every run of the system, the invariant given, is a run of the wizard's writes.\<close>

interpretation conc: simulation "sstep kdf" sys_inv "effect kdf" table "\<lambda>s a. [wizard_event s a]"
  by unfold_locales (auto intro: sstep_inv sstep_effect steps.intros)

section \<open>The wizard under any interleaving\<close>

lemma reachable_inv: "steps (sstep kdf) (sys_init clk uu rnd) as s \<Longrightarrow> sys_inv s"
  using conc.inv_steps sys_inv_init by blast

lemma request_of_no_verify [simp]: "request_of w \<noteq> Verify i"
  by (cases w) auto

lemma verify_is_whole: "sstep kdf s a t \<Longrightarrow> wizard_event s a = Verify i \<Longrightarrow> a = Whole (Verify i)"
  by (erule sstep.cases) auto

text \<open>C3.
  However the statements of concurrent requests interleave, and whatever requests are dropped half-way: the run is, write for
  write, a run of the wizard's five guarded writes; every row is consistent (the step says which data there are), no two
  rows share a token or an invite, and what a waiting request has read lags behind the table in one direction only.
\<close>

theorem concurrent_wizard_consistent:
  assumes "steps (sstep kdf) (sys_init clk uu rnd) as s"
  shows "(\<exists>es. length es = length as \<and> steps (effect kdf) (reg_init clk uu rnd) es (table s)) \<and>
    (\<forall>r \<in> set (sessions (table s)). row_inv r) \<and> rows_unique (sessions (table s)) \<and>
    (\<forall>i w. tasks s i = Some w \<longrightarrow> not_stale (table s) (read_row w))"
proof -
  obtain es where es: "conc.emitted kdf (sys_init clk uu rnd) as es s" "steps (effect kdf) (reg_init clk uu rnd) es (table s)"
    using conc.sim_steps[OF assms sys_inv_init] by (auto simp: sys_init_def)
  from es(1) have "length es = length as" by (induction rule: conc.emitted.induct) auto
  with es(2) reachable_inv[OF assms] show ?thesis by (auto simp: sys_inv_def reg_inv_def)
qed

text \<open>C1.
  No PIN without a verified address, however requests interleave: a session that has a PIN was at some earlier moment opened
  by its own, at that moment unused, invite token, even if the PIN request read its row long before it wrote.
\<close>

theorem concurrent_pin_requires_verification:
  assumes "steps (sstep kdf) (sys_init clk uu rnd) as s" and "r \<in> set (sessions (table s))" and "r_pin_hash r \<noteq> None"
  shows "\<exists>as1 i as2 s1 r1. as = as1 @ Whole (Verify i) # as2 \<and> steps (sstep kdf) (sys_init clk uu rnd) as1 s1 \<and>
    r1 \<in> set (sessions (table s1)) \<and> r_token r1 = r_token r \<and> r_invite r1 = Some i \<and> \<not> r_invite_used r1"
proof -
  have "row_inv r" using reachable_inv[OF assms(1)] assms(2) by (simp add: sys_inv_def reg_inv_def)
  then have "4 \<le> r_step r" using assms(3) by (auto simp: row_inv_def)
  with assms(1,2) show ?thesis
  proof (induction as arbitrary: s r rule: rev_induct)
    case Nil
    then show ?case by (simp add: sys_init_def reg_init_def)
  next
    case (snoc a as)
    from snoc.prems(1) obtain s0 where s0: "steps (sstep kdf) (sys_init clk uu rnd) as s0" "sstep kdf s0 a s"
      by (rule steps_snocE)
    have inv: "sys_inv s0" using s0(1) by (rule reachable_inv)
    then have "rows_unique (sessions (table s0))" by (simp add: sys_inv_def reg_inv_def)
    from effect_step4[OF sstep_effect[OF inv s0(2)] this snoc.prems(2,3)] show ?case
    proof (elim disjE bexE exE conjE)
      fix r0 assume "r0 \<in> set (sessions (table s0))" "r_token r0 = r_token r" "4 \<le> r_step r0"
      with snoc.IH[OF s0(1)] show ?thesis by fastforce
    next
      fix i r0 assume "wizard_event s0 a = Verify i" "r0 \<in> set (sessions (table s0))" "r_token r0 = r_token r"
        "r_invite r0 = Some i" "\<not> r_invite_used r0"
      with verify_is_whole[OF s0(2)] s0(1) show ?thesis by blast
    qed
  qed
qed

interpretation sys_drawn: invariant_machine "\<lambda>s a t. sys_inv s \<and> sstep kdf s a t" "\<lambda>s. invites_drawn (table s)"
  by unfold_locales (auto intro: moves_invites_drawn sstep_moves)

interpretation sys_spent: invariant_machine "\<lambda>s a t. sys_inv s \<and> sstep kdf s a t" "\<lambda>s. spent i (table s)"
  by unfold_locales (auto intro: moves_spent sstep_moves)

interpretation sys_uuids: invariant_machine "sstep kdf" "\<lambda>s. r_uuids (table s) = uu"
  by unfold_locales (simp add: sstep_uuids)

lemma steps_with_inv: "steps (sstep kdf) s as t \<Longrightarrow> sys_inv s \<Longrightarrow> steps (\<lambda>s a t. sys_inv s \<and> sstep kdf s a t) s as t"
  by (induction rule: steps.induct) (auto intro: steps.intros sstep_inv)

text \<open>C2.
  An invite token is single-use, whatever runs at the same time: of all visits of a verification link, also of two that
  arrive together, at most one succeeds, if the generator never repeats a token.
\<close>

theorem concurrent_invite_single_use:
  assumes "steps (sstep kdf) (sys_init clk uu rnd) as s" and "inj uu"
    and "verify_email i (table s) = (Inr rep, t)" and "steps (sstep kdf) (s\<lparr>table := t\<rparr>) as' s'"
  shows "fst (verify_email i (table s')) = Inl (HTTPExn 410 ''This verification link has expired or has already been used'')"
proof -
  have inv: "sys_inv s" using assms(1) by (rule reachable_inv)
  have "invites_drawn (table s)"
    using sys_drawn.inv_steps[OF steps_with_inv[OF assms(1) sys_inv_init]] invites_drawn_init by (simp add: sys_init_def)
  moreover have "r_uuids (table s) = uu"
    using sys_uuids.inv_steps[OF assms(1)] by (simp add: sys_init_def reg_init_def)
  ultimately have "spent i t" using inv assms(2,3) by (intro verify_spends) (auto simp: sys_inv_def)
  have "sstep kdf s (Whole (Verify i)) (s\<lparr>table := t\<rparr>)" using assms(3) by (intro sstep.whole) simp_all
  then have inv': "sys_inv (s\<lparr>table := t\<rparr>)" by (rule sstep_inv[OF inv])
  have "spent i (table s')"
    using sys_spent.inv_steps[OF steps_with_inv[OF assms(4) inv']] \<open>spent i t\<close> by simp
  moreover have "sys_inv s'" using assms(4) inv' by (rule conc.inv_steps)
  ultimately show ?thesis by (intro spent_refused) (simp_all add: sys_inv_def)
qed

section \<open>Instances\<close>

text \<open>A request that runs without being overtaken.\<close>

definition alone :: "reg_sys \<Rightarrow> reg_event \<Rightarrow> sys_event list" where
  "alone s e =
     (case first_read e of None \<Rightarrow> [Whole e]
      | Some (tok, k) \<Rightarrow> (if is_ok (fst (require_session tok (table s))) then [First 0 e, Second 0] else [First 0 e]))"

lemma first_read_handle:
  "first_read e = Some (tok, k) \<Longrightarrow> reg_handle kdf e = bind (require_session tok) (\<lambda>row. resume kdf (k row))"
  by (cases e) (auto simp: two_steps)

text \<open>So every run of the sequential wizard is a run of the system.\<close>

lemma alone_steps:
  assumes "rstep kdf (table s) e t" and "tasks s = Map.empty"
  shows "steps (sstep kdf) s (alone s e) (s\<lparr>table := t\<rparr>)"
proof (cases "first_read e")
  case None
  then show ?thesis using assms(1) by (auto simp: alone_def rstep_iff steps_Cons intro: whole)
next
  case (Some p)
  obtain tok k where p: "first_read e = Some (tok, k)" using Some by (cases p) auto
  obtain r u where rs: "require_session tok (table s) = (r, u)" by (cases "require_session tok (table s)")
  have h: "snd (bind (require_session tok) (\<lambda>row. resume kdf (k row)) (table s)) = t"
    using assms(1) first_read_handle[OF p, of kdf] by (auto simp: rstep_iff)
  show ?thesis
  proof (cases r)
    case (Inl x)
    then have "t = u" using h rs by (simp add: bind_Inl)
    then show ?thesis using Inl rs p assms(2) by (auto simp: alone_def steps_Cons sstep_iff_sexec)
  next
    case (Inr row)
    then have t: "t = snd (resume kdf (k row) u)" using h rs by (simp add: bind_Inr)
    let ?m = "s\<lparr>table := u, tasks := [0 \<mapsto> k row]\<rparr>"
    have "sexec kdf s (First 0 e) = Some ?m" using Inr rs p assms(2) by simp
    moreover have "sexec kdf ?m (Second 0) = Some (s\<lparr>table := t\<rparr>)" using t assms(2) by (simp add: fun_upd_twist)
    ultimately show ?thesis using Inr rs p by (simp add: alone_def steps_Cons sstep_iff_sexec)
  qed
qed

lemma sequential_runs:
  "steps (rstep kdf) s es t \<Longrightarrow>
   \<exists>as. steps (sstep kdf) \<lparr>table = s, tasks = Map.empty\<rparr> as \<lparr>table = t, tasks = Map.empty\<rparr>"
proof (induction rule: steps.induct)
  case (steps_nil s)
  then show ?case by (auto intro: steps.intros)
next
  case (steps_cons s e t es u)
  then show ?case using alone_steps[of kdf "\<lparr>table = s, tasks = Map.empty\<rparr>" e t] steps_append by fastforce
qed

text \<open>Two browser windows that set a PIN: both have read the session before the first one writes.\<close>

definition two_windows :: "sys_event list" where
  "two_windows = [First 1 (SetPin (demo_token 0) demo_pin), First 2 (SetPin (demo_token 0) demo_pin), Second 2, Second 1]"

definition demo_sys :: "reg_state \<Rightarrow> reg_sys" where
  "demo_sys s = \<lparr>table = s, tasks = Map.empty\<rparr>"

lemma demo_two_windows:
  "\<exists>s r. steps (sstep demo_kdf) (demo_sys demo_verified) two_windows s \<and> r \<in> set (sessions (table s)) \<and> r_pin_hash r \<noteq> None \<and>
     r_token r = demo_token 0"
proof -
  have exp: "(0::int) < seconds 604800" by simp
  show ?thesis
    using demo_personal_valid[of "''a@b''"] demo_pin_valid demo_pin_hash[of demo_kdf "[]"]
    by (auto simp: two_windows_def demo_sys_def demo_verified_def demo_run_def reg_eval exp Let_def steps_Cons sstep_iff_sexec
        pin_rest_def)
qed

lemma demo_before:
  "\<exists>as. steps (sstep demo_kdf) (sys_init (\<lambda>_. 0) demo_token (\<lambda>_. [])) as (demo_sys (reg_run demo_kdf (take n demo_run) demo_reg))"
  using sequential_runs[OF steps_reg_run, of demo_kdf demo_reg "take n demo_run"] by (simp add: sys_init_def demo_sys_def demo_reg_def)

theorem concurrent_wizard_consistent_witness:
  "\<exists>as s. steps (sstep demo_kdf) (demo_sys demo_verified) two_windows s \<and>
     steps (sstep demo_kdf) (sys_init (\<lambda>_. 0) demo_token (\<lambda>_. [])) as s \<and>
     (\<exists>es. length es = length as \<and> steps (effect demo_kdf) (reg_init (\<lambda>_. 0) demo_token (\<lambda>_. [])) es (table s)) \<and>
     rows_unique (sessions (table s))"
proof -
  obtain as where as: "steps (sstep demo_kdf) (sys_init (\<lambda>_. 0) demo_token (\<lambda>_. [])) as (demo_sys demo_verified)"
    using demo_before[of 4] by (auto simp: demo_verified_def)
  obtain s where s: "steps (sstep demo_kdf) (demo_sys demo_verified) two_windows s" using demo_two_windows by blast
  note run = steps_append[OF as s]
  show ?thesis using concurrent_wizard_consistent[OF run] run s by blast
qed

theorem concurrent_pin_requires_verification_witness:
  "\<exists>as1 i as2 s1 r1. (\<exists>as. as1 @ Whole (Verify i) # as2 = as @ two_windows) \<and>
     steps (sstep demo_kdf) (sys_init (\<lambda>_. 0) demo_token (\<lambda>_. [])) as1 s1 \<and>
     r1 \<in> set (sessions (table s1)) \<and> r_token r1 = demo_token 0 \<and> r_invite r1 = Some i \<and> \<not> r_invite_used r1"
proof -
  obtain as where as: "steps (sstep demo_kdf) (sys_init (\<lambda>_. 0) demo_token (\<lambda>_. [])) as (demo_sys demo_verified)"
    using demo_before[of 4] by (auto simp: demo_verified_def)
  obtain s r where s: "steps (sstep demo_kdf) (demo_sys demo_verified) two_windows s"
    and r: "r \<in> set (sessions (table s))" "r_pin_hash r \<noteq> None" "r_token r = demo_token 0"
    using demo_two_windows by blast
  obtain as1 i as2 s1 r1 where split: "as @ two_windows = as1 @ Whole (Verify i) # as2"
    and run: "steps (sstep demo_kdf) (sys_init (\<lambda>_. 0) demo_token (\<lambda>_. [])) as1 s1"
    and r1: "r1 \<in> set (sessions (table s1))" "r_token r1 = r_token r" "r_invite r1 = Some i" "\<not> r_invite_used r1"
    using concurrent_pin_requires_verification[OF steps_append[OF as s] r(1,2)] by blast
  then show ?thesis using r(3) by (metis split)
qed

theorem concurrent_invite_single_use_witness:
  "fst (verify_email (demo_token 1)
       (snd (verify_email (demo_token 1) (snd (verify_email (demo_token 1) demo_invited))))) =
     Inl (HTTPExn 410 ''This verification link has expired or has already been used'')"
proof -
  let ?t = "snd (verify_email (demo_token 1) demo_invited)"
  let ?s = "demo_sys demo_invited"
  obtain as where as: "steps (sstep demo_kdf) (sys_init (\<lambda>_. 0) demo_token (\<lambda>_. [])) as ?s"
    using demo_before[of 3] by (auto simp: demo_invited_def)
  have ok: "verify_email (demo_token 1) (table ?s) = (Inr (Redirect (''/registration/'' @ demo_token 0 @ ''/pin'')), ?t)"
    using demo_verify_ok by (simp add: demo_sys_def) (metis prod.collapse)
  let ?u = "?s\<lparr>table := ?t\<rparr>"
  have "steps (sstep demo_kdf) ?u [Whole (Verify (demo_token 1))] (?u\<lparr>table := snd (verify_email (demo_token 1) ?t)\<rparr>)"
    by (simp add: steps_Cons sstep_iff_sexec demo_sys_def)
  from concurrent_invite_single_use[OF as demo_token_inj ok this] show ?thesis by simp
qed

end
