(* ===== verification/Token_Lock.thy ===== *)
theory Token_Lock
  imports Icm_Client
begin

text \<open>
  The OAuth token under concurrent calls: \<open>_ensure_token\<close> and \<open>_fetch_token\<close> of \<open>app/services/icm/client.py\<close>, whose only
  awaits are the lock and the token request. \<open>tstep\<close>: any number of tasks wait for the lock, find the token good, or ask for
  a new one while they hold the lock; tasks may be cancelled at both awaits. \<open>ensure_token\<close> of Icm_Client, which runs in one go,
  is what a task does when nothing happens in between.
\<close>

section \<open>The two halves of the code\<close>

text \<open>The token and its expiry; the test under the lock; what a response of the token endpoint does.\<close>

type_synonym stored_token = "string option \<times> instant"

definition token_stale :: "instant \<Rightarrow> stored_token \<Rightarrow> bool" where
  "token_stale now st \<longleftrightarrow> fst st = None \<or> snd st \<le> now"

definition granted :: "http_resp res \<Rightarrow> (json \<times> json) res" where
  "granted resp =
     bind_res resp (\<lambda>r.
     bind_res (raise_for_status r) (\<lambda>_.
     bind_res (resp_body r) (\<lambda>data.
     bind_res (obj_item data ''access_token'') (\<lambda>tok. Inr (data, tok)))))"

definition token_answer :: "http_resp res \<Rightarrow> instant \<Rightarrow> stored_token \<Rightarrow> unit res \<times> stored_token" where
  "token_answer resp now st =
     (case granted resp of
        Inl e \<Rightarrow> (Inl e, st)
      | Inr (data, tok) \<Rightarrow>
          (case bind_res (obj_get_default data ''expires_in'' (JInt 3600)) json_int of
             Inl e \<Rightarrow> (Inl e, (json_code tok, snd st))
           | Inr ttl \<Rightarrow> (Inr (), (json_code tok, now + seconds ttl - seconds 60))))"

definition token_result :: "unit res \<Rightarrow> stored_token \<Rightarrow> string res" where
  "token_result r st = bind_res r (\<lambda>_. case fst st of None \<Rightarrow> Inl no_token_exn | Some t \<Rightarrow> Inr t)"

text \<open>The method in one go, with the clock's readings and the response it meets.\<close>

definition ensure_seq :: "instant \<Rightarrow> http_resp res \<Rightarrow> instant \<Rightarrow> stored_token \<Rightarrow> string res \<times> stored_token" where
  "ensure_seq now resp now' st =
     (if token_stale now st
      then (let (r, st') = token_answer resp now' st in (token_result r st', st'))
      else (token_result (Inr ()) st, st))"

definition stored_of :: "'n client \<Rightarrow> stored_token" where
  "stored_of s = (token s, token_expiry s)"

lemma fetch_token_answer:
  "fst (fetch_token http cfg s) = fst (token_answer (fst (http (token_req cfg) (net s))) (mono s (mono_ix s)) (stored_of s)) \<and>
   stored_of (snd (fetch_token http cfg s)) =
     snd (token_answer (fst (http (token_req cfg) (net s))) (mono s (mono_ix s)) (stored_of s))"
  by (auto simp: fetch_token_def token_answer_def granted_def stored_of_def send_def bind_def monotonic_def
      split: sum.split prod.split)

lemma ensure_token_seq:
  "let now = mono s (mono_ix s); now' = (if token s = None then now else mono s (Suc (mono_ix s)));
       (r, st) = ensure_seq now (fst (http (token_req cfg) (net s))) now' (stored_of s)
   in fst (ensure_token http cfg s) = r \<and> stored_of (snd (ensure_token http cfg s)) = st"
proof -
  let ?m = "if token s = None then s else s\<lparr>mono_ix := Suc (mono_ix s)\<rparr>"
  let ?now = "mono s (mono_ix s)"
  have split: "ensure_token http cfg s =
    (if token_stale ?now (stored_of s)
     then (case fetch_token http cfg ?m of
         (Inl e, u) \<Rightarrow> (Inl e, u)
       | (Inr _, u) \<Rightarrow> (case token u of None \<Rightarrow> (Inl no_token_exn, u) | Some t \<Rightarrow> (Inr t, u)))
     else (case token s of None \<Rightarrow> (Inl no_token_exn, ?m) | Some t \<Rightarrow> (Inr t, ?m)))"
    by (cases "token s"; cases "token_expiry s \<le> ?now")
      (simp_all add: ensure_token_def token_stale_def stored_of_def bind_def[of "fetch_token http cfg"] bind_assoc
        split: prod.split sum.split option.split)
  have m: "net ?m = net s" "stored_of ?m = stored_of s" "mono ?m = mono s"
    "mono_ix ?m = (if token s = None then mono_ix s else Suc (mono_ix s))"
    by (simp_all add: stored_of_def)
  show ?thesis
  proof (cases "token_stale ?now (stored_of s)")
    case False
    then show ?thesis unfolding split
      by (cases "token s") (auto simp: ensure_seq_def token_result_def stored_of_def token_stale_def)
  next
    case True
    let ?now' = "if token s = None then ?now else mono s (Suc (mono_ix s))"
    obtain r u where u: "fetch_token http cfg ?m = (r, u)" by (cases "fetch_token http cfg ?m")
    obtain r' st where st: "token_answer (fst (http (token_req cfg) (net s))) ?now' (stored_of s) = (r', st)"
      by (cases "token_answer (fst (http (token_req cfg) (net s))) ?now' (stored_of s)")
    have "r = r'" "stored_of u = st"
      using fetch_token_answer[of http cfg ?m] u st unfolding m by (auto split: if_splits)
    then show ?thesis using True u st unfolding split
      by (auto simp: ensure_seq_def token_result_def stored_of_def Let_def split: sum.split option.split)
  qed
qed

lemma ensure_token_is_seq:
  "(fst (ensure_token http cfg s), stored_of (snd (ensure_token http cfg s))) =
     ensure_seq (mono s (mono_ix s)) (fst (http (token_req cfg) (net s)))
       (if token s = None then mono s (mono_ix s) else mono s (Suc (mono_ix s))) (stored_of s)"
  using ensure_token_seq[of s http cfg] by (simp add: Let_def split_beta)

section \<open>Tasks and the lock\<close>

text \<open>
  \<open>holder\<close> is the task that holds the lock across its token request, with the time it read; \<open>asked\<close> counts the token requests,
  \<open>handed\<close> lists what calls returned (both are not fields of the code).
\<close>

record tok_sys =
  stored :: stored_token
  holder :: "(nat \<times> instant) option"
  waiters :: "nat set"
  asked :: nat
  handed :: "(nat \<times> string res) list"

datatype tok_event =
    Queue nat
  | Acquire nat instant
  | Answer "http_resp res" instant
  | Abandon nat

inductive tstep :: "tok_sys \<Rightarrow> tok_event \<Rightarrow> tok_sys \<Rightarrow> bool" where
  queue: "i \<notin> waiters s \<Longrightarrow> (\<forall>t. holder s \<noteq> Some (i, t)) \<Longrightarrow> tstep s (Queue i) (s\<lparr>waiters := insert i (waiters s)\<rparr>)"
| good: "i \<in> waiters s \<Longrightarrow> holder s = None \<Longrightarrow> \<not> token_stale now (stored s) \<Longrightarrow>
    tstep s (Acquire i now)
      (s\<lparr>waiters := waiters s - {i}, handed := handed s @ [(i, token_result (Inr ()) (stored s))]\<rparr>)"
| ask: "i \<in> waiters s \<Longrightarrow> holder s = None \<Longrightarrow> token_stale now (stored s) \<Longrightarrow>
    tstep s (Acquire i now) (s\<lparr>waiters := waiters s - {i}, holder := Some (i, now), asked := Suc (asked s)\<rparr>)"
| answer: "holder s = Some (i, now) \<Longrightarrow> token_answer resp now' (stored s) = (r, st) \<Longrightarrow>
    tstep s (Answer resp now') (s\<lparr>stored := st, holder := None, handed := handed s @ [(i, token_result r st)]\<rparr>)"
| leave: "i \<in> waiters s \<Longrightarrow> tstep s (Abandon i) (s\<lparr>waiters := waiters s - {i}\<rparr>)"
| release: "holder s = Some (i, now) \<Longrightarrow> tstep s (Abandon i) (s\<lparr>holder := None\<rparr>)"

inductive_cases tstep_E: "tstep s e t"
inductive_simps tstep_iff: "tstep s (Queue i) t" "tstep s (Acquire i now) t" "tstep s (Answer resp now) t" "tstep s (Abandon i) t"

definition tok_init :: tok_sys where
  "tok_init = \<lparr>stored = (None, 0), holder = None, waiters = {}, asked = 0, handed = []\<rparr>"

text \<open>While a task holds the lock the token it found stale is still there; a task waits or holds, not both.\<close>

definition tok_inv :: "tok_sys \<Rightarrow> bool" where
  "tok_inv s \<longleftrightarrow> (\<forall>i now. holder s = Some (i, now) \<longrightarrow> token_stale now (stored s) \<and> i \<notin> waiters s)"

lemma tok_inv_init: "tok_inv tok_init"
  by (simp add: tok_inv_def tok_init_def)

lemma tok_inv_step: "tok_inv s \<Longrightarrow> tstep s e t \<Longrightarrow> tok_inv t"
  by (erule tstep_E) (auto simp: tok_inv_def)

section \<open>Linearizability\<close>

text \<open>
  A call: the task, its reading of the clock, and the response of the token endpoint with the second reading, if it sent the
  token request. The calls one after the other: the stored token and the results so far; a call asks exactly if it finds the
  token stale.
\<close>

datatype tok_call = Call (caller: nat) instant "(http_resp res \<times> instant) option"

inductive seq_step :: "stored_token \<times> (nat \<times> string res) list \<Rightarrow> tok_call \<Rightarrow> stored_token \<times> (nat \<times> string res) list \<Rightarrow> bool" where
  seq_call: "ensure_seq now resp now' st = (r, st') \<Longrightarrow> q = (if token_stale now st then Some (resp, now') else None) \<Longrightarrow>
    seq_step (st, rs) (Call i now q) (st', rs @ [(i, r)])"

lemma seq_callers: "steps seq_step p calls q \<Longrightarrow> map fst (snd q) = map fst (snd p) @ map caller calls"
  by (induction rule: steps.induct) (auto elim!: seq_step.cases)

inductive_simps seq_step_iff: "seq_step p (Call i now q) p'"

text \<open>
  The calls of a run, in the order in which they return: one that finds the token good returns at once; one that asks returns
  with the answer, and has the reading of the task that holds the lock.
\<close>

fun completed :: "tok_sys \<Rightarrow> tok_event \<Rightarrow> tok_call list" where
  "completed s (Acquire i now) = (if token_stale now (stored s) then [] else [Call i now None])"
| "completed s (Answer resp now') = (case holder s of None \<Rightarrow> [] | Some (i, now) \<Rightarrow> [Call i now (Some (resp, now'))])"
| "completed s _ = []"

fun texec :: "tok_sys \<Rightarrow> tok_event \<Rightarrow> tok_sys" where
  "texec s (Queue i) = s\<lparr>waiters := insert i (waiters s)\<rparr>"
| "texec s (Acquire i now) =
     (if token_stale now (stored s)
      then s\<lparr>waiters := waiters s - {i}, holder := Some (i, now), asked := Suc (asked s)\<rparr>
      else s\<lparr>waiters := waiters s - {i}, handed := handed s @ [(i, token_result (Inr ()) (stored s))]\<rparr>)"
| "texec s (Answer resp now') =
     (case holder s of
        None \<Rightarrow> s
      | Some (i, now) \<Rightarrow>
          (let (r, st) = token_answer resp now' (stored s)
           in s\<lparr>stored := st, holder := None, handed := handed s @ [(i, token_result r st)]\<rparr>))"
| "texec s (Abandon i) =
     (if i \<in> waiters s then s\<lparr>waiters := waiters s - {i}\<rparr> else s\<lparr>holder := None\<rparr>)"

fun history :: "tok_sys \<Rightarrow> tok_event list \<Rightarrow> tok_call list" where
  "history s [] = []"
| "history s (e # es) = completed s e @ history (texec s e) es"

lemma tstep_texec: "tstep s e t \<Longrightarrow> tok_inv s \<Longrightarrow> t = texec s e"
  by (cases rule: tstep.cases) (auto simp: tok_inv_def)

text \<open>Where the calls of a run come from: an acquisition of the task with that reading, and then the answer.\<close>

fun call_in :: "tok_event list \<Rightarrow> tok_call \<Rightarrow> bool" where
  "call_in es (Call i now q) \<longleftrightarrow>
     (\<exists>as bs. es = as @ Acquire i now # bs \<and> (case q of None \<Rightarrow> True | Some (resp, now') \<Rightarrow> Answer resp now' \<in> set bs))"

lemma call_in_Cons: "call_in es c \<Longrightarrow> call_in (e # es) c"
  by (cases c) (auto, metis append_Cons)

lemma history_call:
  "Call i now q \<in> set (history s es) \<Longrightarrow> call_in es (Call i now q) \<or>
     (\<exists>resp now'. holder s = Some (i, now) \<and> q = Some (resp, now') \<and> Answer resp now' \<in> set es)"
proof (induction es arbitrary: s)
  case (Cons e es)
  show ?case
  proof (cases "Call i now q \<in> set (completed s e)")
    case True
    then show ?thesis by (cases e) (auto split: if_splits option.splits)
  next
    case False
    with Cons.prems Cons.IH[of "texec s e"] consider (in_run) "call_in es (Call i now q)"
      | (held) resp now' where "holder (texec s e) = Some (i, now)" "q = Some (resp, now')" "Answer resp now' \<in> set es"
      by auto
    then show ?thesis
    proof cases
      case in_run
      then show ?thesis using call_in_Cons by blast
    next
      case held
      show ?thesis
      proof (cases "holder s = Some (i, now)")
        case False
        with held(1) have "e = Acquire i now" by (cases e) (auto split: if_splits option.splits prod.splits)
        then have "call_in (e # es) (Call i now q)" using held(2,3)
          by - (simp, rule exI[of _ "[]"], simp)
        then show ?thesis by simp
      qed (use held in auto)
    qed
  qed
qed simp

lemma history_from_events: "\<forall>c \<in> set (history tok_init es). call_in es c"
proof
  fix c assume "c \<in> set (history tok_init es)"
  moreover have "holder tok_init = None" by (simp add: tok_init_def)
  moreover obtain i now q where "c = Call i now q" by (cases c)
  ultimately show "call_in es c" using history_call[of i now q tok_init es] by fastforce
qed

interpretation lin: simulation tstep tok_inv seq_step "\<lambda>s. (stored s, handed s)" completed
proof (unfold_locales, goal_cases)
  case (1 s e t)
  then show ?case by (rule tok_inv_step)
next
  case (2 s e t)
  from 2(2,1) show ?case
    by (cases rule: tstep.cases)
      (auto simp: steps_Cons tok_inv_def ensure_seq_def seq_step_iff prod_eq_iff split_beta)
qed

lemma emitted_history: "lin.emitted s es ls t \<Longrightarrow> tok_inv s \<Longrightarrow> ls = history s es"
  by (induction rule: lin.emitted.induct) (use tstep_texec tok_inv_step in fastforce)+

text \<open>C12.
  The token lock makes concurrent calls of \<open>_ensure_token\<close> linearizable. Take any run of any number of tasks, with their
  waits, token requests, responses and cancellations in any order, and the calls that return in it, each with the reading of
  the clock at which its own task took the lock and, if it asked for a token, the response and the reading of its own answer.
  These very calls, made one after the other in the order in which they returned, give the same results and leave the same
  stored token, and ask for a token where the run does; a cancelled call leaves no trace. The sequential call is the method
  \<open>_ensure_token\<close> itself, with the readings and the response that it meets, for every client.
\<close>

theorem token_calls_linearizable:
  assumes "steps tstep tok_init es s"
  shows "steps seq_step ((None, 0), []) (history tok_init es) (stored s, handed s) \<and>
    map caller (history tok_init es) = map fst (handed s) \<and> (\<forall>c \<in> set (history tok_init es). call_in es c) \<and>
    (\<forall>http cfg (c :: 'n client).
      (fst (ensure_token http cfg c), stored_of (snd (ensure_token http cfg c))) =
      ensure_seq (mono c (mono_ix c)) (fst (http (token_req cfg) (net c)))
        (if token c = None then mono c (mono_ix c) else mono c (Suc (mono_ix c))) (stored_of c))"
proof -
  have run: "steps seq_step ((None, 0), []) (history tok_init es) (stored s, handed s)"
    using lin.sim_steps[OF assms tok_inv_init] emitted_history tok_inv_init by (fastforce simp: tok_init_def)
  moreover have "map caller (history tok_init es) = map fst (handed s)" using seq_callers[OF run] by simp
  moreover note history_from_events
  ultimately show ?thesis using ensure_token_is_seq by blast
qed

section \<open>One request serves all\<close>

text \<open>The tasks that took the lock in a stretch of a run.\<close>

fun acquirer :: "tok_event \<Rightarrow> nat option" where
  "acquirer (Acquire i now) = Some i"
| "acquirer _ = None"

definition acquirers :: "tok_event list \<Rightarrow> nat list" where
  "acquirers es = List.map_filter acquirer es"

lemma acquirers_Cons [simp]:
  "acquirers [] = []" "acquirers (Acquire i now # es) = i # acquirers es"
  "acquirer e = None \<Longrightarrow> acquirers (e # es) = acquirers es"
  by (simp_all add: acquirers_def List.map_filter_simps)

lemma kept_run:
  assumes "steps tstep s es t" and "holder s = None" and "stored s = (Some x, ex)" and "\<forall>i now. Acquire i now \<in> set es \<longrightarrow> now < ex"
  shows "asked t = asked s \<and> holder t = None \<and> stored t = (Some x, ex) \<and>
    handed t = handed s @ map (\<lambda>i. (i, Inr x)) (acquirers es)"
  using assms
proof (induction rule: steps.induct)
  case (steps_cons s e t es u)
  from steps_cons.hyps(1) steps_cons.prems
  have "asked t = asked s \<and> holder t = None \<and> stored t = (Some x, ex) \<and>
      handed t = handed s @ map (\<lambda>i. (i, Inr x)) (acquirers [e])"
    by (cases rule: tstep.cases) (auto simp: token_stale_def token_result_def)
  moreover have "acquirers (e # es) = acquirers [e] @ acquirers es" by (cases e) simp_all
  ultimately show ?case using steps_cons.IH steps_cons.prems(3) by simp
qed simp

text \<open>While a task holds the lock nobody else gets past it.\<close>

lemma held_run:
  assumes "steps tstep s es t" and "holder s = Some (i, now)" and "Abandon i \<notin> set es" and "\<forall>r n. Answer r n \<notin> set es"
  shows "asked t = asked s \<and> holder t = Some (i, now) \<and> stored t = stored s \<and> handed t = handed s"
  using assms
proof (induction rule: steps.induct)
  case (steps_cons s e t es u)
  from steps_cons.hyps(1) steps_cons.prems
  have "asked t = asked s \<and> holder t = Some (i, now) \<and> stored t = stored s \<and> handed t = handed s"
    by (cases rule: tstep.cases) auto
  then show ?case using steps_cons.IH steps_cons.prems by simp
qed simp

lemma steps_split: "steps step s (es @ fs) u \<Longrightarrow> \<exists>t. steps step s es t \<and> steps step t fs u"
  by (induction es arbitrary: s) (auto simp: steps_Cons, blast)

text \<open>C13.
  One token request serves any number of concurrent calls: from the moment a task finds the token missing or expired and asks
  for a new one, until the expiry the answer gives, no other token request is sent; all tasks that wait meanwhile, and all
  that come later, get the token of that one answer.
\<close>

theorem token_single_flight:
  assumes "holder s = None" and "token_stale now (stored s)"
    and "steps tstep s (Acquire i now # es1 @ Answer resp now' # es2) t"
    and "Abandon i \<notin> set es1" and "\<forall>r n. Answer r n \<notin> set es1"
    and "token_answer resp now' (stored s) = (Inr (), (Some x, ex))" and "\<forall>j n. Acquire j n \<in> set es2 \<longrightarrow> n < ex"
  shows "asked t = Suc (asked s) \<and> handed t = handed s @ map (\<lambda>j. (j, Inr x)) (i # acquirers es2) \<and> stored t = (Some x, ex)"
proof -
  from assms(3) obtain u where "tstep s (Acquire i now) u" and run: "steps tstep u (es1 @ Answer resp now' # es2) t"
    by (auto simp: steps_Cons)
  from this(1) have u: "asked u = Suc (asked s)" "holder u = Some (i, now)" "stored u = stored s" "handed u = handed s"
    using assms(1,2) by (auto elim!: tstep.cases)
  from steps_split[OF run] obtain v w where v: "steps tstep u es1 v" and w: "tstep v (Answer resp now') w" "steps tstep w es2 t"
    by (auto simp: steps_Cons)
  note held = held_run[OF v u(2) assms(4,5)]
  from w(1) have "asked w = asked v \<and> holder w = None \<and> stored w = (Some x, ex) \<and> handed w = handed v @ [(i, Inr x)]"
    using held u assms(6) by (auto simp: token_result_def elim!: tstep.cases)
  then show ?thesis using kept_run[OF w(2) _ _ assms(7)] held u by simp
qed

text \<open>A task that waits for a free lock can return within two steps.\<close>

lemma waiter_served:
  assumes "holder s = None" and "i \<in> waiters s"
  shows "\<exists>fs t r. length fs \<le> 2 \<and> steps tstep s fs t \<and> (i, r) \<in> set (handed t) \<and> holder t = None"
proof (cases "token_stale 0 (stored s)")
  case False
  then show ?thesis using good[OF assms(2,1) False] assms(1)
    by (intro exI[of _ "[Acquire i 0]"] exI[of _ "s\<lparr>waiters := waiters s - {i},
        handed := handed s @ [(i, token_result (Inr ()) (stored s))]\<rparr>"] exI[of _ "token_result (Inr ()) (stored s)"])
      (auto simp: steps_Cons)
next
  case True
  let ?u = "s\<lparr>waiters := waiters s - {i}, holder := Some (i, 0), asked := Suc (asked s)\<rparr>"
  obtain r st where st: "token_answer (Inl TimeoutExn) 0 (stored ?u) = (r, st)"
    by (cases "token_answer (Inl TimeoutExn) 0 (stored ?u)")
  have "tstep ?u (Answer (Inl TimeoutExn) 0)
      (?u\<lparr>stored := st, holder := None, handed := handed ?u @ [(i, token_result r st)]\<rparr>)"
    by (rule answer[OF _ st]) simp
  with ask[OF assms(2,1) True] show ?thesis
    by (intro exI[of _ "[Acquire i 0, Answer (Inl TimeoutExn) 0]"]
        exI[of _ "?u\<lparr>stored := st, holder := None, handed := handed ?u @ [(i, token_result r st)]\<rparr>"]
        exI[of _ "token_result r st"]) (auto simp: steps_Cons)
qed

text \<open>C14.
  The token lock cannot be lost: however the request of the task that holds it ends, also by cancellation, the lock is free
  again, and from every reachable state each waiting task can take it and return within three steps, the release among them. (The flag of the
  circuit breaker's probe, which is not reset on cancellation, has no such guarantee.)
\<close>

theorem token_lock_never_lost:
  assumes "steps tstep tok_init es s" and "i \<in> waiters s"
  shows "(\<forall>j now t e. holder s = Some (j, now) \<longrightarrow> (e = Abandon j \<or> (\<exists>r n. e = Answer r n)) \<longrightarrow> tstep s e t \<longrightarrow>
      holder t = None \<and> i \<in> waiters t) \<and>
    (\<exists>fs t r. length fs \<le> 3 \<and> steps tstep s fs t \<and> (i, r) \<in> set (handed t) \<and> holder t = None)"
proof
  have inv: "tok_inv s" using assms(1) tok_inv_init by (rule lin.inv_steps)
  then show "\<forall>j now t e. holder s = Some (j, now) \<longrightarrow> (e = Abandon j \<or> (\<exists>r n. e = Answer r n)) \<longrightarrow> tstep s e t \<longrightarrow>
      holder t = None \<and> i \<in> waiters t"
    using assms(2) by (auto simp: tok_inv_def elim!: tstep.cases)
  show "\<exists>fs t r. length fs \<le> 3 \<and> steps tstep s fs t \<and> (i, r) \<in> set (handed t) \<and> holder t = None"
  proof (cases "holder s")
    case None
    from waiter_served[OF None assms(2)] obtain fs t r where "length fs \<le> 2" "steps tstep s fs t" "(i, r) \<in> set (handed t)" "holder t = None"
      by blast
    then show ?thesis by (intro exI[of _ fs] exI[of _ t] exI[of _ r]) simp
  next
    case (Some p)
    then obtain j now where h: "holder s = Some (j, now)" by (cases p) auto
    obtain fs t r where "length fs \<le> 2" "steps tstep (s\<lparr>holder := None\<rparr>) fs t" "(i, r) \<in> set (handed t)" "holder t = None"
      using waiter_served[of "s\<lparr>holder := None\<rparr>" i] assms(2) by auto
    with release[OF h] show ?thesis
      by (intro exI[of _ "Abandon j # fs"] exI[of _ t] exI[of _ r]) (auto simp: steps_Cons)
  qed
qed

section \<open>Instances\<close>

text \<open>Two tasks at once on a client without a token; the endpoint gives a token for an hour.\<close>

definition demo_grant :: "http_resp res" where
  "demo_grant = Inr \<lparr>resp_status = 200, resp_json = Some (JObj [(''access_token'', JStr ''t'')]), resp_content = []\<rparr>"

definition demo_waiting :: tok_sys where
  "demo_waiting = tok_init\<lparr>waiters := {1, 2}\<rparr>"

definition demo_served :: tok_sys where
  "demo_served = \<lparr>stored = (Some ''t'', seconds 3600 - seconds 60), holder = None, waiters = {}, asked = 1,
     handed = [(1, Inr ''t''), (2, Inr ''t'')]\<rparr>"

lemma demo_answer: "token_answer demo_grant 0 (None, 0) = (Inr (), (Some ''t'', seconds 3600 - seconds 60))"
  by (simp add: token_answer_def granted_def demo_grant_def raise_for_status_def is_success_def resp_body_def obj_get_default_def)

lemma demo_race:
  "steps tstep demo_waiting (Acquire 1 0 # [] @ Answer demo_grant 0 # [Acquire 2 0]) demo_served"
  by (simp add: steps_Cons tstep_iff demo_waiting_def tok_init_def token_stale_def demo_answer token_result_def demo_served_def
      insert_Diff_if seconds_def)

lemma demo_queue: "steps tstep tok_init [Queue 1, Queue 2] demo_waiting"
  by (simp add: steps_Cons tstep_iff demo_waiting_def tok_init_def insert_commute)

theorem token_calls_linearizable_witness:
  "steps seq_step ((None, 0), []) [Call 1 0 (Some (demo_grant, 0)), Call 2 0 None]
      ((Some ''t'', seconds 3600 - seconds 60), [(1, Inr ''t''), (2, Inr ''t'')]) \<and>
   (fst (ensure_token token_http demo_config demo_client), stored_of (snd (ensure_token token_http demo_config demo_client))) =
     ensure_seq (mono demo_client 0) (fst (token_http (token_req demo_config) (net demo_client))) (mono demo_client 0) (None, 0)"
proof -
  note run = steps_append[OF demo_queue demo_race]
  have "history tok_init ([Queue 1, Queue 2] @ Acquire 1 0 # [] @ Answer demo_grant 0 # [Acquire 2 0]) =
      [Call 1 0 (Some (demo_grant, 0)), Call 2 0 None]"
    by (simp add: tok_init_def token_stale_def demo_answer seconds_def)
  note calls = token_calls_linearizable[OF run, where ?'n = unit, unfolded this]
  have "token demo_client = None" "mono_ix demo_client = 0" "stored_of demo_client = (None, 0)"
    by (simp_all add: demo_client_def client_init_def stored_of_def)
  moreover have "stored demo_served = (Some ''t'', seconds 3600 - seconds 60)" "handed demo_served = [(1, Inr ''t''), (2, Inr ''t'')]"
    by (simp_all add: demo_served_def)
  moreover note conjunct1[OF calls]
    spec[OF spec[OF spec[OF conjunct2[OF conjunct2[OF conjunct2[OF calls]]], of token_http], of demo_config], of demo_client]
  ultimately show ?thesis by simp
qed

theorem token_single_flight_witness:
  "asked demo_served = Suc (asked demo_waiting) \<and> handed demo_served = map (\<lambda>j. (j, Inr ''t'')) [1, 2]"
proof -
  have "holder demo_waiting = None" "token_stale 0 (stored demo_waiting)"
    and ans: "token_answer demo_grant 0 (stored demo_waiting) = (Inr (), (Some ''t'', seconds 3600 - seconds 60))"
    by (simp_all add: demo_waiting_def tok_init_def token_stale_def demo_answer)
  from token_single_flight[OF this(1,2) demo_race _ _ ans] show ?thesis
    by (simp add: demo_waiting_def tok_init_def seconds_def)
qed

theorem token_lock_never_lost_witness:
  "\<exists>fs t r. length fs \<le> 3 \<and> steps tstep demo_waiting fs t \<and> (2, r) \<in> set (handed t) \<and> holder t = None"
  using conjunct2[OF token_lock_never_lost[OF demo_queue, of 2]] by (simp add: demo_waiting_def)

end
