(* ===== verification/Icm_Retry.thy ===== *)
theory Icm_Retry
  imports Icm_Client
begin

text \<open>
  The retry loop of \<open>_call\<close> and \<open>_call_bytes\<close> (\<open>app/services/icm/client.py\<close>) as the loop that it is: Icm_Client takes
  it as a function with the laws of \<open>tenacity\<close>; here \<open>AsyncRetrying\<close> is a parameter with the one law that its documentation
  gives (\<open>async_retrying\<close>): it goes round until an attempt returns, raises what is not retried, or the stop condition holds.
  Whether it returns is a theorem. Also the waits between attempts, and \<open>_SecretStr\<close>.
\<close>

section \<open>The loop\<close>

text \<open>
  A loop for a stop condition, the waits and what is retried: attempt \<open>k\<close>, after the waits \<open>slept\<close>; \<open>None\<close> is a loop that never
  ends. The least function that obeys the law is \<open>retry_while\<close>.
\<close>

type_synonym ('s, 'a) retrier =
  "(nat \<Rightarrow> bool) \<Rightarrow> (nat \<Rightarrow> nat) \<Rightarrow> (exn \<Rightarrow> bool) \<Rightarrow> ('s, 'a) io \<Rightarrow> nat \<Rightarrow> nat list \<Rightarrow> 's \<Rightarrow> (('a res \<times> 's) \<times> nat list) option"

definition async_retrying :: "('s, 'a) retrier \<Rightarrow> bool" where
  "async_retrying loop \<longleftrightarrow>
     (\<forall>stop wait p m k slept s. loop stop wait p m k slept s =
        (case m s of
           (Inr x, t) \<Rightarrow> Some ((Inr x, t), slept)
         | (Inl e, t) \<Rightarrow>
             (if p e \<and> \<not> stop k then loop stop wait p m (Suc k) (slept @ [wait k]) t
              else Some ((Inl e, t), slept))))"

partial_function (option) retry_while ::
  "(nat \<Rightarrow> bool) \<Rightarrow> (nat \<Rightarrow> nat) \<Rightarrow> (exn \<Rightarrow> bool) \<Rightarrow> ('s, 'a) io \<Rightarrow> nat \<Rightarrow> nat list \<Rightarrow> 's \<Rightarrow> (('a res \<times> 's) \<times> nat list) option" where
  "retry_while stop wait p m k slept s =
     (case m s of
        (Inr x, t) \<Rightarrow> Some ((Inr x, t), slept)
      | (Inl e, t) \<Rightarrow>
          (if p e \<and> \<not> stop k then retry_while stop wait p m (Suc k) (slept @ [wait k]) t
           else Some ((Inl e, t), slept)))"

lemma retry_while_law: "async_retrying retry_while"
  unfolding async_retrying_def by (intro allI) (rule retry_while.simps)

text \<open>The arguments the client gives: the stop condition, and the seconds before the next attempt.\<close>

definition stop_after_attempt :: "nat \<Rightarrow> nat \<Rightarrow> bool" where
  "stop_after_attempt n k \<longleftrightarrow> n \<le> k"

definition wait_exponential :: "nat \<Rightarrow> nat \<Rightarrow> nat \<Rightarrow> nat \<Rightarrow> nat" where
  "wait_exponential multiplier low high k = max low (min high (multiplier * 2 ^ (k - 1)))"

definition retry_wait :: "bool \<Rightarrow> nat \<Rightarrow> nat" where
  "retry_wait test_no_wait = (if test_no_wait then (\<lambda>_. 0) else wait_exponential 1 1 4)"

definition call_loop ::
  "('n client, json) retrier \<Rightarrow> 'n http \<Rightarrow> config \<Rightarrow> bool \<Rightarrow> icm_req \<Rightarrow> 'n client \<Rightarrow> ((json res \<times> 'n client) \<times> nat list) option" where
  "call_loop loop http cfg test_no_wait req =
     loop (stop_after_attempt 3) (retry_wait test_no_wait) is_retryable (attempt http cfg req) 1 []"

definition call_bytes_loop ::
  "('n client, string) retrier \<Rightarrow> 'n http \<Rightarrow> config \<Rightarrow> bool \<Rightarrow> icm_req \<Rightarrow> 'n client \<Rightarrow> ((string res \<times> 'n client) \<times> nat list) option" where
  "call_bytes_loop loop http cfg test_no_wait req =
     loop (stop_after_attempt 3) (retry_wait test_no_wait) is_retryable (attempt_bytes http cfg req) 1 []"

section \<open>It ends\<close>

text \<open>With a limit of \<open>n\<close> attempts the loop returns, with the result of the function on \<open>n\<close>, by induction on the attempts left.\<close>

lemma loop_stops:
  assumes law: "async_retrying loop"
  shows "k + d = Suc n \<Longrightarrow> 0 < d \<Longrightarrow>
   \<exists>j < d. loop (stop_after_attempt n) wait p m k slept s = Some (retry_loop d p m s, slept @ map wait [k ..< k + j])"
proof (induction d arbitrary: k slept s)
  case (Suc d)
  obtain r t where m: "m s = (r, t)" by (cases "m s")
  show ?case
  proof (cases "\<exists>e. r = Inl e \<and> p e \<and> 0 < d")
    case True
    then obtain e where e: "r = Inl e" "p e" "0 < d" by blast
    then have go: "\<not> stop_after_attempt n k" using Suc.prems(1) by (simp add: stop_after_attempt_def)
    from Suc.IH[of "Suc k" "slept @ [wait k]" t] Suc.prems(1) e(3) obtain j where
      j: "j < d" "loop (stop_after_attempt n) wait p m (Suc k) (slept @ [wait k]) t =
        Some (retry_loop d p m t, (slept @ [wait k]) @ map wait [Suc k ..< Suc k + j])" by auto
    have "[k ..< k + Suc j] = k # [Suc k ..< Suc k + j]" by (simp add: upt_conv_Cons)
    then show ?thesis using m e go j
      by (intro exI[of _ "Suc j"]) (simp add: law[unfolded async_retrying_def, rule_format, of _ _ _ _ k])
  next
    case False
    then have "loop (stop_after_attempt n) wait p m k slept s = Some (m s, slept)"
      using m Suc.prems(1) by (cases r) (auto simp: law[unfolded async_retrying_def, rule_format, of _ _ _ _ k] stop_after_attempt_def)
    moreover have "retry_loop (Suc d) p m s = m s" using m False by (cases r) auto
    ultimately show ?thesis by (intro exI[of _ 0]) simp
  qed
qed simp

text \<open>Where every attempt raises what is retried, only the stop condition ends the loop.\<close>

lemma retry_while_stopped:
  assumes "retry_while stop wait p m k slept s = Some y"
  shows "(\<forall>s. \<exists>e t. m s = (Inl e, t) \<and> p e) \<longrightarrow> (\<exists>j. stop j)"
proof (rule retry_while.raw_induct[where P = "\<lambda>stop wait p m k slept s y. (\<forall>s. \<exists>e t. m s = (Inl e, t) \<and> p e) \<longrightarrow> (\<exists>j. stop j)", OF _ assms])
  fix rec stop wait p m k slept s y
  assume IH: "\<And>stop wait p (m :: ('s, 'a) io) k slept s y. rec stop wait p m k slept s = Some y \<Longrightarrow> (\<forall>s. \<exists>e t. m s = (Inl e, t) \<and> p e) \<longrightarrow> (\<exists>j. stop j)"
    and eq: "(case m s of
        (Inr x, t) \<Rightarrow> Some ((Inr x, t), slept)
      | (Inl e, t) \<Rightarrow>
          (if p e \<and> \<not> stop k then rec stop wait p m (Suc k) (slept @ [wait k]) t
           else Some ((Inl e, t), slept))) = Some y"
  show "(\<forall>s. \<exists>e t. m s = (Inl e, t) \<and> p e) \<longrightarrow> (\<exists>j. stop j)"
  proof
    assume af: "\<forall>s. \<exists>e t. m s = (Inl e, t) \<and> p e"
    then obtain e t where "m s = (Inl e, t)" "p e" by blast
    then show "\<exists>j. stop j" using eq IH af by (cases "stop k") auto
  qed
qed

section \<open>Every call returns\<close>

lemma tenacity_unique: "tenacity retrying \<Longrightarrow> 0 < n \<Longrightarrow> retrying n p m s = retry_loop n p m s"
proof (induction n arbitrary: s)
  case (Suc n)
  then show ?case
    by (cases "m s"; cases "fst (m s)"; cases n)
      (auto simp: tenacity.retry_step[OF Suc.prems(1)] rl.retry_step)
qed simp

text \<open>C15.
  Every call of the client returns: a loop that obeys the law of \<open>AsyncRetrying\<close> ends for every network, token and clock, with the
  value and the state of the function that Icm_Client uses in its place, after waiting nothing, one second, or one and two seconds;
  never the four seconds of the class comment, as there is no wait after the third attempt. It is the limit of attempts that ends
  it: without one the law allows a loop that never ends, against hosts that cannot be reached.
\<close>

theorem calls_return:
  assumes "async_retrying loop" and "async_retrying bloop"
  shows "(\<exists>slept. call_loop loop http cfg False req s = Some (call http retry_loop cfg req s, slept) \<and> slept \<in> {[], [1], [1, 2]}) \<and>
   (\<exists>slept. call_bytes_loop bloop http cfg False req s = Some (call_bytes http retry_loop cfg req s, slept) \<and> slept \<in> {[], [1], [1, 2]}) \<and>
   (unreachable http \<longrightarrow> retry_while (\<lambda>_. False) wait is_retryable (attempt http cfg req) 1 [] s = None)"
proof (intro conjI impI)
  have slept: "map (wait_exponential 1 1 4) [1 ..< 1 + j] \<in> {[], [1], [1, 2]}" if "j < 3" for j
  proof -
    consider "j = 0" | "j = 1" | "j = 2" using \<open>j < 3\<close> by linarith
    then show ?thesis by cases (simp_all add: wait_exponential_def upt_rec)
  qed
  show "\<exists>slept. call_loop loop http cfg False req s = Some (call http retry_loop cfg req s, slept) \<and> slept \<in> {[], [1], [1, 2]}"
    using loop_stops[OF assms(1), of 1 3 3 "wait_exponential 1 1 4" is_retryable "attempt http cfg req" "[]" s] slept
    by (auto simp: call_loop_def call_def retry_wait_def)
  show "\<exists>slept. call_bytes_loop bloop http cfg False req s = Some (call_bytes http retry_loop cfg req s, slept) \<and> slept \<in> {[], [1], [1, 2]}"
    using loop_stops[OF assms(2), of 1 3 3 "wait_exponential 1 1 4" is_retryable "attempt_bytes http cfg req" "[]" s] slept
    by (auto simp: call_bytes_loop_def call_bytes_def retry_wait_def)
  assume "unreachable http"
  then have fails: "\<forall>s. \<exists>e t. attempt http cfg req s = (Inl e, t) \<and> is_retryable e"
    using always_failsD[OF unreachable_attempt[of http cfg req]] by fastforce
  show "retry_while (\<lambda>_. False) wait is_retryable (attempt http cfg req) 1 [] s = None"
  proof (rule ccontr)
    assume "retry_while (\<lambda>_. False) wait is_retryable (attempt http cfg req) 1 [] s \<noteq> None"
    then obtain y where "retry_while (\<lambda>_. False) wait is_retryable (attempt http cfg req) 1 [] s = Some y" by blast
    from retry_while_stopped[OF this] fails show False by blast
  qed
qed

theorem calls_return_witness:
  "(\<exists>slept. call_loop retry_while down_http demo_config False (get_ep_detail_req ''7'') demo_client =
     Some (call down_http retry_loop demo_config (get_ep_detail_req ''7'') demo_client, slept)) \<and>
   retry_while (\<lambda>_. False) (\<lambda>_. 0) is_retryable (attempt down_http demo_config (get_ep_detail_req ''7'')) 1 [] demo_client = None"
proof -
  have "unreachable down_http" by (simp add: unreachable_def down_http_def)
  then show ?thesis
    using calls_return[OF retry_while_law retry_while_law, of down_http demo_config "get_ep_detail_req ''7''" demo_client "\<lambda>_. 0"] by blast
qed

section \<open>Secrets\<close>

text \<open>\<open>_SecretStr\<close>: the client's secret, which no log or traceback shows.\<close>

datatype secret_str = SecretStr (secret_get: string)

definition secret_repr :: "secret_str \<Rightarrow> string" where "secret_repr x = ''**REDACTED**''"
definition secret_show :: "secret_str \<Rightarrow> string" where "secret_show x = ''**REDACTED**''"

lemma secret_opaque: "secret_repr x = secret_repr y \<and> secret_show x = secret_show y \<and> secret_get (SecretStr t) = t"
  by (simp add: secret_repr_def secret_show_def)

end
