(* ===== verification/Migrate.thy ===== *)
theory Migrate
  imports Schema Auth
begin

text \<open>
  \<open>alembic/env.py\<close>: how \<open>alembic upgrade head\<close> gets its database and runs the pending revisions, on a connection in one
  transaction or, offline, as a script. Which revisions are pending after the one in the table \<open>alembic_version\<close> is decided by
  alembic: the parameter \<open>pending\<close>, with the law \<open>follows_chain\<close>. The transaction is that of PostgreSQL, where DDL can be rolled back.
\<close>

record migrated_db =
  db_catalog :: catalog
  db_version :: "string option"

text \<open>\<open>os.getenv("DATABASE_URL") or config.get_main_option("sqlalchemy.url")\<close>.\<close>

definition migration_url :: "env \<Rightarrow> string \<Rightarrow> string" where
  "migration_url env ini = (case env ''DATABASE_URL'' of None \<Rightarrow> ini | Some u \<Rightarrow> if u = [] then ini else u)"

type_synonym revision = "string \<times> string option \<times> ddl list \<times> ddl list"

text \<open>What alembic documents of an upgrade to the head: the revisions after the current one, in the order of \<open>down_revision\<close>.\<close>

type_synonym planner = "string option \<Rightarrow> revision list"

definition follows_chain :: "planner \<Rightarrow> bool" where
  "follows_chain pending \<longleftrightarrow>
     pending None = revisions \<and> (\<forall>k < length revisions. pending (Some (fst (revisions ! k))) = drop (Suc k) revisions)"

definition upgrades :: "revision list \<Rightarrow> ddl list" where
  "upgrades rs = concat (map (\<lambda>(_, _, up, _). up) rs)"

text \<open>\<open>with context.begin_transaction(): context.run_migrations()\<close>: whether it succeeded, and the database after it.\<close>

definition do_run_migrations :: "planner \<Rightarrow> migrated_db \<Rightarrow> bool \<times> migrated_db" where
  "do_run_migrations pending d =
     (let rs = pending (db_version d) in
      case run_ddl (upgrades rs) (db_catalog d) of
        None \<Rightarrow> (False, d)
      | Some c \<Rightarrow> (True, \<lparr>db_catalog = c, db_version = (if rs = [] then db_version d else Some (fst (last rs)))\<rparr>))"

text \<open>The databases by URL; the engine connects to the one of \<open>migration_url\<close> and is disposed.\<close>

definition run_migrations_online :: "planner \<Rightarrow> env \<Rightarrow> string \<Rightarrow> (string \<Rightarrow> migrated_db) \<Rightarrow> bool \<times> (string \<Rightarrow> migrated_db)" where
  "run_migrations_online pending env ini dbs =
     (let u = migration_url env ini; (ok, d) = do_run_migrations pending (dbs u) in (ok, dbs(u := d)))"

definition run_migrations_offline :: "planner \<Rightarrow> ddl list" where
  "run_migrations_offline pending = upgrades (pending None)"

text \<open>The databases an upgrade may have left at a revision.\<close>

definition at_version :: "(string option \<times> catalog) list" where
  "at_version =
     [(None, no_catalog), (Some ''2208d981358e'', at_2208), (Some ''0003'', at_0003), (Some ''0004'', at_0004), (Some ''0005'', at_0005)]"

lemma pending_at:
  assumes "follows_chain pending"
  shows "pending None = revisions" "pending (Some ''2208d981358e'') = drop 1 revisions" "pending (Some ''0003'') = drop 2 revisions"
    "pending (Some ''0004'') = drop 3 revisions" "pending (Some ''0005'') = []"
proof -
  have nth: "pending (Some (fst (revisions ! k))) = drop (Suc k) revisions" if "k < length revisions" for k
    using assms that by (simp add: follows_chain_def)
  show "pending None = revisions" using assms by (simp add: follows_chain_def)
  show "pending (Some ''2208d981358e'') = drop 1 revisions" "pending (Some ''0003'') = drop 2 revisions"
    "pending (Some ''0004'') = drop 3 revisions" "pending (Some ''0005'') = []"
    using nth[of 0] nth[of 1] nth[of 2] nth[of 3] by (simp_all add: revisions_def)
qed

lemma upgrades_at:
  assumes "follows_chain pending" and "(v, c) \<in> set at_version"
  shows "run_ddl (upgrades (pending v)) c = Some at_0005"
proof -
  have "run_ddl (upgrades revisions) no_catalog = Some at_0005"
    "run_ddl (upgrades (drop 1 revisions)) at_2208 = Some at_0005"
    "run_ddl (upgrades (drop 2 revisions)) at_0003 = Some at_0005"
    "run_ddl (upgrades (drop 3 revisions)) at_0004 = Some at_0005"
    by (simp_all add: upgrades_def revisions_def run_ddl_append up_2208 up_0003 up_0004 up_0005)
  then show ?thesis using assms(2)
    by (auto simp: at_version_def pending_at[OF assms(1)] upgrades_def)
qed

lemma last_pending:
  "follows_chain pending \<Longrightarrow> (v, c) \<in> set at_version \<Longrightarrow>
   (if pending v = [] then v else Some (fst (last (pending v)))) = Some ''0005''"
  by (auto simp: at_version_def pending_at revisions_def)

text \<open>
  Migrating converges: from an empty database and from every earlier revision one run reaches the same catalog and the last
  revision, a further run changes nothing, and no other database is touched. A run that fails leaves every database as it was.
  The offline script, run on an empty database, gives the same catalog.
\<close>

theorem migrations_converge:
  assumes "u = migration_url env ini" and "follows_chain pending"
  shows "((db_version (dbs u), db_catalog (dbs u)) \<in> set at_version \<longrightarrow>
      (let dbs' = dbs(u := \<lparr>db_catalog = at_0005, db_version = Some ''0005''\<rparr>)
       in run_migrations_online pending env ini dbs = (True, dbs') \<and> run_migrations_online pending env ini dbs' = (True, dbs'))) \<and>
    (fst (run_migrations_online pending env ini dbs) = False \<longrightarrow> snd (run_migrations_online pending env ini dbs) = dbs) \<and>
    run_ddl (run_migrations_offline pending) no_catalog = Some at_0005"
proof (intro conjI impI)
  have step: "do_run_migrations pending d = (True, \<lparr>db_catalog = at_0005, db_version = Some ''0005''\<rparr>)"
    if "(db_version d, db_catalog d) \<in> set at_version" for d
    using upgrades_at[OF assms(2) that] last_pending[OF assms(2) that] by (simp add: do_run_migrations_def Let_def)
  assume "(db_version (dbs u), db_catalog (dbs u)) \<in> set at_version"
  note first = step[OF this]
  have "(Some ''0005'', at_0005) \<in> set at_version" by (simp add: at_version_def)
  with step[of "\<lparr>db_catalog = at_0005, db_version = Some ''0005''\<rparr>"] first assms(1)
  show "let dbs' = dbs(u := \<lparr>db_catalog = at_0005, db_version = Some ''0005''\<rparr>)
       in run_migrations_online pending env ini dbs = (True, dbs') \<and> run_migrations_online pending env ini dbs' = (True, dbs')"
    by (simp add: run_migrations_online_def)
next
  assume "fst (run_migrations_online pending env ini dbs) = False"
  then show "snd (run_migrations_online pending env ini dbs) = dbs"
    by (auto simp: run_migrations_online_def do_run_migrations_def Let_def split: option.splits prod.splits if_splits)
next
  show "run_ddl (run_migrations_offline pending) no_catalog = Some at_0005"
    using upgrades_at[OF assms(2), of None no_catalog] by (simp add: run_migrations_offline_def at_version_def)
qed

text \<open>A planner that does this, from the list of the revisions.\<close>

definition next_revisions :: planner where
  "next_revisions v = (case v of None \<Rightarrow> revisions | Some x \<Rightarrow> tl (dropWhile (\<lambda>r. fst r \<noteq> x) revisions))"

lemma next_revisions_chain: "follows_chain next_revisions"
proof -
  have "next_revisions (Some (fst (revisions ! k))) = drop (Suc k) revisions" if "k < 4" for k
  proof -
    consider "k = 0" | "k = 1" | "k = 2" | "k = 3" using \<open>k < 4\<close> by linarith
    then show ?thesis by cases (simp_all add: next_revisions_def revisions_def)
  qed
  then show ?thesis by (simp add: follows_chain_def next_revisions_def) (simp add: revisions_def)
qed

end
