(* ===== verification/Draft_Concurrent.thy ===== *)
theory Draft_Concurrent
  imports Service_Requests
begin

text \<open>
  Drafts under concurrent requests. \<open>submit_sr\<close> (\<open>app/domains/service_requests/service.py\<close>) awaits ICM for each PIN, reads the
  draft, awaits ICM for its answers, and deletes the draft, without a lock or a condition that ties these together;
  \<open>create_sr\<close> awaits ICM and then inserts the draft. Here both run in the parts between their awaits, any number of them at
  once, between the other requests (one request to ICM or one statement each), and may be dropped in between.
\<close>

section \<open>The parts\<close>

text \<open>A submission: the declaration and the PIN; the spouse's PIN; the draft with the PDF, whose value is the answers.\<close>

definition submit_pin_check ::
  "'i icm_fun \<Rightarrow> user_context \<Rightarrow> submit_request \<Rightarrow> (('i, 'z) sr_state_scheme, unit) io" where
  "submit_pin_check icm u r =
     bind (lift_res (case must_be_true r of Inr x \<Rightarrow> Inr x | Inl _ \<Rightarrow> Inl unprocessable)) (\<lambda>r.
     validate_or_raise icm (pin_owner u) (submit_pin r))"

definition submit_spouse_check ::
  "'i icm_fun \<Rightarrow> user_context \<Rightarrow> submit_request \<Rightarrow> (('i, 'z) sr_state_scheme, unit) io" where
  "submit_spouse_check icm u r = check_spouse icm (pin_owner u) (spouse_pin r)"

definition submit_read :: "user_context \<Rightarrow> string \<Rightarrow> (('i, 'z) sr_state_scheme, json) io" where
  "submit_read u sr_id =
     bind (get_draft full_service sr_id (Some (user_id u))) (\<lambda>draft.
     let answers = draft_answers draft; t = map_option response_type draft in
     bind (case t of
         Some x \<Rightarrow> if requires_pdf x then bind (lift_res (generate_pdf (sr_value x) answers)) (\<lambda>_. ret ()) else ret ()
       | None \<Rightarrow> ret ()) (\<lambda>_. ret answers))"

text \<open>\<open>finalize_sr_form\<close>; the value is the number.\<close>

definition submit_send :: "'i icm_fun \<Rightarrow> string \<Rightarrow> json \<Rightarrow> (('i, 'z) sr_state_scheme, json) io" where
  "submit_send icm sr_id answers =
     bind (icm_call icm (finalize_sr_form_req sr_id answers)) (\<lambda>result.
     lift_res (obj_get_default result ''sr_number'' (JStr [])))"

text \<open>The draft is deleted, and the answer built.\<close>

definition submit_finish :: "user_context \<Rightarrow> string \<Rightarrow> json \<Rightarrow> (('i, 'z) sr_state_scheme, submit_response) io" where
  "submit_finish u sr_id number =
     bind (repo_delete sr_id (Some (user_id u))) (\<lambda>_.
     bind now_utc (\<lambda>now.
     lift_res (case number of
         JStr n \<Rightarrow> Inr \<lparr>submitted_id = sr_id, submitted_number = n, submitted_at = now\<rparr>
       | _ \<Rightarrow> Inl ValidationExn)))"

text \<open>A creation: ICM gives the id; the row is inserted.\<close>

definition create_ask :: "'i icm_fun \<Rightarrow> user_context \<Rightarrow> sr_type \<Rightarrow> (('i, 'z) sr_state_scheme, json) io" where
  "create_ask icm u t =
     bind (icm_call icm (create_sr_req (sr_value t) (user_id u))) (\<lambda>result.
     lift_res (obj_get_default result ''sr_id'' (JStr [])))"

definition create_insert :: "user_context \<Rightarrow> sr_type \<Rightarrow> json \<Rightarrow> (('i, 'z) sr_state_scheme, draft_response) io" where
  "create_insert u t sr_id =
     bind (repo_create sr_id (user_id u) (sr_value t)) (\<lambda>_.
     bind now_utc (\<lambda>now. lift_res (draft_answer sr_id t None (Aware now))))"

lemma submit_in_parts:
  "submit_service_request icm (Inr u) i r =
     bind (submit_pin_check icm u r) (\<lambda>_. bind (submit_spouse_check icm u r) (\<lambda>_.
     bind (submit_read u i) (\<lambda>a. bind (submit_send icm i a) (\<lambda>n. submit_finish u i n))))"
proof (rule ext)
  fix s
  show "submit_service_request icm (Inr u) i r s =
     bind (submit_pin_check icm u r) (\<lambda>_. bind (submit_spouse_check icm u r) (\<lambda>_.
     bind (submit_read u i) (\<lambda>a. bind (submit_send icm i a) (\<lambda>n. submit_finish u i n)))) s"
  proof (cases "declaration_accepted r")
    case True
    then show ?thesis
      by (simp add: submit_service_request_def submit_pin_check_def submit_spouse_check_def submit_read_def submit_send_def
          submit_finish_def as_user_def submit_sr_def submit_draft_def full_service_def bind_assoc Let_def must_be_true_def)
  next
    case False
    then show ?thesis
      by (simp add: submit_service_request_def submit_pin_check_def as_user_def must_be_true_def bind_def)
  qed
qed

lemma create_in_parts:
  "create_service_request icm (Inr u) t =
     catch (bind (create_ask icm u t) (create_insert u t)) is_conflict
       (\<lambda>_. raise (HTTPExn 409 ''An active service request of this type already exists''))"
  by (simp add: create_service_request_def create_ask_def create_insert_def[abs_def] as_user_def create_sr_def full_service_def bind_assoc)

section \<open>The machine\<close>

datatype submission =
    Inserting user_context sr_type json
  | PinChecked user_context string submit_request
  | Cleared user_context string
  | Unsent user_context string json
  | Unfinished user_context string json

record 'i draft_sys =
  db :: "'i sr_state"
  running :: "nat \<Rightarrow> submission option"

text \<open>
  Another request of a user; the two parts of the creation \<open>k\<close>; the five parts of the submission \<open>k\<close>; either one dropped, its
  task cancelled.
\<close>

datatype draft_event =
    Request user_context sr_op
  | Ask nat user_context sr_type
  | Insert nat
  | Begin nat user_context string submit_request
  | Spouse nat
  | Read nat
  | Send nat
  | Finish nat
  | Drop nat

text \<open>What is left of a part that raised: nothing; of one that returned: the next.\<close>

definition after :: "'a res \<Rightarrow> ('a \<Rightarrow> submission option) \<Rightarrow> submission option" where
  "after r k = (case r of Inl e \<Rightarrow> None | Inr x \<Rightarrow> k x)"

definition advance :: "'i draft_sys \<Rightarrow> nat \<Rightarrow> 'i sr_state \<Rightarrow> submission option \<Rightarrow> 'i draft_sys" where
  "advance s k d w = s\<lparr>db := d, running := (running s)(k := w)\<rparr>"

lemma advance_sel [simp]: "db (advance s k d w) = d" "running (advance s k d w) = (running s)(k := w)"
  by (simp_all add: advance_def)

fun one_part :: "sr_op \<Rightarrow> bool" where
  "one_part (Submit i r) = False"
| "one_part (Create t) = False"
| "one_part _ = True"

inductive dstep :: "'i icm_fun \<Rightarrow> coercions \<Rightarrow> 'i draft_sys \<Rightarrow> draft_event \<Rightarrow> 'i draft_sys \<Rightarrow> bool"
  for icm :: "'i icm_fun" and co :: coercions where
  request: "one_part e \<Longrightarrow> dstep icm co s (Request u e) (s\<lparr>db := snd (sr_handle icm co u e (db s))\<rparr>)"
| ask: "running s k = None \<Longrightarrow> create_ask icm u t (db s) = (r, d) \<Longrightarrow>
    dstep icm co s (Ask k u t) (advance s k d (after r (\<lambda>i. Some (Inserting u t i))))"
| inserted: "running s k = Some (Inserting u t i) \<Longrightarrow> create_insert u t i (db s) = (r, d) \<Longrightarrow>
    dstep icm co s (Insert k) (advance s k d None)"
| begun: "running s k = None \<Longrightarrow> submit_pin_check icm u r (db s) = (q, d) \<Longrightarrow>
    dstep icm co s (Begin k u i r) (advance s k d (after q (\<lambda>_. Some (PinChecked u i r))))"
| cleared: "running s k = Some (PinChecked u i r) \<Longrightarrow> submit_spouse_check icm u r (db s) = (q, d) \<Longrightarrow>
    dstep icm co s (Spouse k) (advance s k d (after q (\<lambda>_. Some (Cleared u i))))"
| read_draft: "running s k = Some (Cleared u i) \<Longrightarrow> submit_read u i (db s) = (r, d) \<Longrightarrow>
    dstep icm co s (Read k) (advance s k d (after r (\<lambda>a. Some (Unsent u i a))))"
| sent: "running s k = Some (Unsent u i a) \<Longrightarrow> submit_send icm i a (db s) = (r, d) \<Longrightarrow>
    dstep icm co s (Send k) (advance s k d (after r (\<lambda>n. Some (Unfinished u i n))))"
| finished: "running s k = Some (Unfinished u i n) \<Longrightarrow> submit_finish u i n (db s) = (r, d) \<Longrightarrow>
    dstep icm co s (Finish k) (advance s k d None)"
| dropped: "dstep icm co s (Drop k) (s\<lparr>running := (running s)(k := None)\<rparr>)"

inductive_cases dstep_E: "dstep icm co s e t"
inductive_simps dstep_iff:
  "dstep icm co s (Request u e) t" "dstep icm co s (Begin k u i r) t" "dstep icm co s (Spouse k) t" "dstep icm co s (Read k) t"
  "dstep icm co s (Send k) t" "dstep icm co s (Finish k) t"

definition idle :: "'i sr_state \<Rightarrow> 'i draft_sys" where
  "idle d = \<lparr>db = d, running = Map.empty\<rparr>"

text \<open>Alone, the five parts are the request.\<close>

lemma parts_alone:
  assumes "submit_service_request icm (Inr u) i r (db s) = (Inr x, d)" and "running s k = None"
  shows "steps (dstep icm co) s [Begin k u i r, Spouse k, Read k, Send k, Finish k] (s\<lparr>db := d\<rparr>)"
proof -
  from assms(1) obtain d1 d2 a d3 n d4 where
    "submit_pin_check icm u r (db s) = (Inr (), d1)" "submit_spouse_check icm u r d1 = (Inr (), d2)"
    "submit_read u i d2 = (Inr a, d3)" "submit_send icm i a d3 = (Inr n, d4)" "submit_finish u i n d4 = (Inr x, d)"
    unfolding submit_in_parts by (elim bind_InrE) auto
  with assms(2) show ?thesis
    by (auto simp: steps_Cons dstep_iff after_def advance_def fun_upd_idem)
qed

section \<open>What the table keeps\<close>

lemma check_keeps:
  "preserves (submit_pin_check icm u r) (\<lambda>s. Q (drafts s))" "preserves (submit_spouse_check icm u r) (\<lambda>s. Q (drafts s))"
  unfolding submit_pin_check_def submit_spouse_check_def by (intro frame_intros draft_frame)+

lemma read_keeps: "preserves (submit_read u i) (\<lambda>s. Q (drafts s))"
  unfolding submit_read_def get_draft_def Let_def by (intro frame_intros draft_frame)

lemma ask_keeps: "preserves (create_ask icm u t) (\<lambda>s. Q (drafts s))"
  unfolding create_ask_def by (intro frame_intros draft_frame)

lemma send_keeps: "preserves (submit_send icm i a) (\<lambda>s. Q (drafts s))"
  unfolding submit_send_def by (intro frame_intros draft_frame)

lemma insert_keeps: "kept_by_writing Q (user_id u) \<Longrightarrow> preserves (create_insert u t i) (\<lambda>s. Q (drafts s))"
  unfolding create_insert_def by (intro frame_intros draft_frame preserves_repo_create)

lemma finish_keeps:
  assumes "\<And>ds. Q ds \<Longrightarrow> Q (filter (\<lambda>d. \<not> scoped i (Some (user_id u)) d) ds)"
  shows "preserves (submit_finish u i n) (\<lambda>s. Q (drafts s))"
  unfolding submit_finish_def repo_delete_def[abs_def]
  by (intro frame_intros draft_frame preserves_session_if preserves_statement) (simp add: assms)

lemma part_keeps: "preserves m (\<lambda>s. Q (drafts s)) \<Longrightarrow> m s = (r, d) \<Longrightarrow> Q (drafts s) \<Longrightarrow> Q (drafts d)"
  by (auto simp: preserves_def)

text \<open>Three kinds of steps write: requests of one part, the INSERT of a creation, and the last part of a submission.\<close>

lemma dstep_keeps:
  assumes "dstep icm co s e t" and "Q (drafts (db s))"
    and writes: "\<And>u op. e = Request u op \<Longrightarrow> kept_by_writing Q (user_id u)"
    and inserts: "\<And>k u ty i. e = Insert k \<Longrightarrow> running s k = Some (Inserting u ty i) \<Longrightarrow> kept_by_writing Q (user_id u)"
    and deletes: "\<And>k u i n ds. e = Finish k \<Longrightarrow> running s k = Some (Unfinished u i n) \<Longrightarrow> Q ds \<Longrightarrow>
      Q (filter (\<lambda>d. \<not> scoped i (Some (user_id u)) d) ds)"
  shows "Q (drafts (db t))"
  using assms(1)
proof (cases rule: dstep.cases)
  case (request op u)
  have "\<forall>i r. op \<noteq> Submit i r" using request(3) by auto
  from preservesD[OF sr_handle_writes[OF writes[OF request(1)] this] assms(2)] request show ?thesis by simp
next
  case (ask k u ty r d)
  with part_keeps[where Q = Q, OF ask_keeps] assms(2) show ?thesis by simp
next
  case (inserted k u ty i r d)
  from part_keeps[where Q = Q, OF insert_keeps[OF inserts[OF inserted(1,3)]] inserted(4) assms(2)] inserted(2)
  show ?thesis by simp
next
  case (begun k u r q d i)
  with part_keeps[where Q = Q, OF check_keeps(1)] assms(2) show ?thesis by simp
next
  case (cleared k u i r q d)
  with part_keeps[where Q = Q, OF check_keeps(2)] assms(2) show ?thesis by simp
next
  case (read_draft k u i r d)
  with part_keeps[where Q = Q, OF read_keeps] assms(2) show ?thesis by simp
next
  case (sent k u i a r d)
  with part_keeps[where Q = Q, OF send_keeps] assms(2) show ?thesis by simp
next
  case (finished k u i n r d)
  then have "preserves (submit_finish u i n) (\<lambda>s. Q (drafts s))" using deletes by (intro finish_keeps) blast
  from part_keeps[where Q = Q, OF this finished(4) assms(2)] finished show ?thesis by simp
qed (use assms(2) in simp)

text \<open>Whose step it is.\<close>

definition on_behalf :: "'i draft_sys \<Rightarrow> draft_event \<Rightarrow> string \<Rightarrow> bool" where
  "on_behalf s e a \<longleftrightarrow>
     (case e of
        Request u op \<Rightarrow> user_id u = a
      | Insert k \<Rightarrow> (case running s k of Some (Inserting u t i) \<Rightarrow> user_id u = a | _ \<Rightarrow> False)
      | Finish k \<Rightarrow> (case running s k of Some (Unfinished u i n) \<Rightarrow> user_id u = a | _ \<Rightarrow> False)
      | _ \<Rightarrow> False)"

text \<open>The invariants of the table hold under any interleaving: it stays well-formed, and nobody touches the drafts of another.\<close>

lemma dstep_kept:
  assumes "dstep icm co s e t" and "Q (drafts (db s))" and "\<And>a. on_behalf s e a \<Longrightarrow> kept_by Q a"
  shows "Q (drafts (db t))"
  by (rule dstep_keeps[where Q = Q, OF assms(1,2)]) (use assms(3) in \<open>auto simp: on_behalf_def kept_by_def\<close>)

lemma dstep_drafts_of:
  assumes "dstep icm co s e t" and "\<not> on_behalf s e a"
  shows "drafts_of a (drafts (db t)) = drafts_of a (drafts (db s))"
proof (rule dstep_kept[OF assms(1), where Q = "\<lambda>ds. drafts_of a ds = drafts_of a (drafts (db s))"])
  fix b assume "on_behalf s e b"
  with assms(2) have "b \<noteq> a" by blast
  then show "kept_by (\<lambda>ds. drafts_of a ds = drafts_of a (drafts (db s))) b" by (rule kept_by_other)
qed simp


interpretation typed_parts: invariant_machine "dstep icm co" "\<lambda>s. table_from ds0 (drafts (db s))"
  for icm :: "'i icm_fun" and co and ds0
  by unfold_locales (auto elim!: dstep_kept intro: kept_table_from)

interpretation others_parts: invariant_machine
  "\<lambda>s e t. dstep icm co s e t \<and> \<not> on_behalf s e a" "\<lambda>s. drafts_of a (drafts (db s)) = K"
  for icm :: "'i icm_fun" and co and a and K
  by unfold_locales (metis dstep_drafts_of)

section \<open>A draft leaves the table only when ICM has it\<close>














text \<open>A form stored, an answer accepted, a draft deleted: the requests and the steps, with the states they leave.\<close>

lemma form_stored:
  assumes "filter (scoped i (Some (user_id u))) (drafts s) = [x]" and "map_of sr_types (d_type x) = Some ty"
    and "has_session s" and "db_up s (db_ix s)"
  shows "update_form_draft (Inr u) i b p s =
    (Inr \<lparr>response_id = d_id x, response_type = ty, response_json = Some [(''answers'', JObj b), (''page_index'', JInt p)],
        response_updated = Aware (clock s (ticks s))\<rparr>,
     s\<lparr>ticks := Suc (ticks s), db_ix := Suc (db_ix s),
       drafts := update_where (scoped i (Some (user_id u))) (filled b p (clock s (ticks s))) (drafts s)\<rparr>)"
  using assms
  by (simp add: update_form_draft_def as_user_def or_404_def save_form_draft_def full_service_def optional_row_def repo_update_form_def
      bind_def now_utc_def statement_def Let_def one_or_none_def row_response_def filled_def[abs_def])

lemma send_accepted:
  assumes "fst (icm (finalize_sr_form_req i a) (icm_st s)) = Inr (JObj ob)" and "map_of ob ''sr_number'' = Some (JStr n)"
  shows "submit_send icm i a s = (Inr (JStr n), snd (icm_call icm (finalize_sr_form_req i a) s))"
  using assms by (simp add: submit_send_def bind_def icm_call_def)

lemma draft_deleted:
  assumes "has_session s" and "db_up s (db_ix s)"
  shows "submit_finish u i (JStr n) s =
    (Inr \<lparr>submitted_id = i, submitted_number = n, submitted_at = clock s (ticks s)\<rparr>,
     s\<lparr>ticks := Suc (ticks s), db_ix := Suc (db_ix s), drafts := filter (\<lambda>d. \<not> scoped i (Some (user_id u)) d) (drafts s)\<rparr>)"
  using assms by (simp add: submit_finish_def repo_delete_def bind_def now_utc_def statement_def Let_def)

lemma no_draft_404:
  assumes "filter (scoped i (Some (user_id u))) (drafts s) = []" and "has_session s" and "db_up s (db_ix s)"
  shows "fst (get_draft_route (Inr u) i s) = Inl (HTTPExn 404 ''SR draft not found'')"
  using assms
  by (simp add: get_draft_route_def as_user_def or_404_def get_draft_def full_service_def optional_row_def repo_get_def bind_def
      statement_def Let_def one_or_none_def)

text \<open>C27.
  It is not the draft as it was when it is deleted: answers that the form route stores, and acknowledges with 200, between the
  read and the deletion are lost. ICM gets the old answers, the draft with the new ones is deleted, and nothing ever sends them.
\<close>

theorem acknowledged_answers_lost:
  assumes "running s k = Some (Unsent u i a)" and "filter (scoped i (Some (user_id u))) (drafts (db s)) = [x]"
    and "map_of sr_types (d_type x) = Some ty" and "has_session (db s)" and "\<forall>n. db_up (db s) n"
    and "fst (icm (finalize_sr_form_req i a) (icm_st (db s))) = Inr (JObj ob)" and "map_of ob ''sr_number'' = Some (JStr n)"
  shows "\<exists>r d t. update_form_draft (Inr u) i b p (db s) = (Inr r, d) \<and>
      response_json r = Some [(''answers'', JObj b), (''page_index'', JInt p)] \<and>
      steps (dstep icm co) s [Request u (SaveForm i b p), Send k, Finish k] t \<and>
      icm_log (db t) = icm_log (db s) @ [finalize_sr_form_req i a] \<and>
      filter (scoped i (Some (user_id u))) (drafts (db t)) = [] \<and>
      fst (get_draft_route (Inr u) i (db t)) = Inl (HTTPExn 404 ''SR draft not found'')"
proof -
  obtain r d where stored: "update_form_draft (Inr u) i b p (db s) = (Inr r, d)"
    "response_json r = Some [(''answers'', JObj b), (''page_index'', JInt p)]"
    and d: "has_session d" "\<forall>n. db_up d n" "icm_st d = icm_st (db s)" "icm_log d = icm_log (db s)"
    using form_stored[OF assms(2-4), of b p] assms(4,5) by simp
  define d1 where "d1 = snd (icm_call icm (finalize_sr_form_req i a) d)"
  have sent: "submit_send icm i a d = (Inr (JStr n), d1)" unfolding d1_def by (rule send_accepted) (use assms(6,7) d in simp_all)
  have d1: "has_session d1" "\<forall>n. db_up d1 n" "icm_log d1 = icm_log (db s) @ [finalize_sr_form_req i a]"
    using d by (simp_all add: d1_def icm_call_def)
  define d2 where "d2 = snd (submit_finish u i (JStr n) d1)"
  have d2: "has_session d2" "\<forall>n. db_up d2 n" "icm_log d2 = icm_log d1" "filter (scoped i (Some (user_id u))) (drafts d2) = []"
    using draft_deleted[of d1 u i n] d1 by (simp_all add: d2_def)
  let ?s1 = "s\<lparr>db := d\<rparr>" and ?s2 = "advance (s\<lparr>db := d\<rparr>) k d1 (Some (Unfinished u i (JStr n)))"
  have "steps (dstep icm co) s [Request u (SaveForm i b p), Send k, Finish k] (advance ?s2 k d2 None)"
  proof (intro steps_cons steps_nil)
    have "snd (sr_handle icm co u (SaveForm i b p) (db s)) = d" using stored(1) by (simp add: discard_def bind_def)
    then show "dstep icm co s (Request u (SaveForm i b p)) ?s1"
      using request[of "SaveForm i b p" icm co s u] by simp
    show "dstep icm co ?s1 (Send k) ?s2"
      using dstep.sent[of ?s1 k u i a icm "Inr (JStr n)" d1 co] assms(1) sent by (simp add: after_def)
    show "dstep icm co ?s2 (Finish k) (advance ?s2 k d2 None)"
      using finished[of ?s2 k u i "JStr n" _ d2 icm co] d2_def by (simp add: prod_eq_iff)
  qed simp
  with stored d2 d1(3) no_draft_404[of i u d2] show ?thesis
    by - (rule exI[of _ r], rule exI[of _ d], rule exI, auto)
qed

section \<open>Instances\<close>

definition demo_saved :: sr_draft where
  "demo_saved = \<lparr>d_id = ''1'', d_user = ''a'', d_type = ''ASSIST'',
     d_json = JObj [(''answers'', JObj [(''reason'', JStr ''old'')]), (''page_index'', JInt 0)], d_updated = Aware 0\<rparr>"

definition demo_db :: "nat sr_state" where
  "demo_db = demo_table\<lparr>drafts := [demo_saved]\<rparr>"

lemma demo_db_simps [simp]: "drafts demo_db = [demo_saved]" "has_session demo_db" "db_up demo_db = (\<lambda>n. True)"
  by (simp_all add: demo_db_def demo_table_def)

lemma demo_saved_simps [simp]: "scoped ''1'' (Some ''a'') demo_saved" "d_type demo_saved = ''ASSIST''" "d_id demo_saved = ''1''"
  "d_user demo_saved = ''a''" "map_of sr_types ''ASSIST'' = Some ASSIST" "\<not> requires_pdf ASSIST"
  by (simp_all add: demo_saved_def scoped_def sr_types_def requires_pdf_def PDF_TYPES_def)

definition old_answers :: json where
  "old_answers = JObj [(''reason'', JStr ''old'')]"

text \<open>The parts of a submission of the one draft, up to the read.\<close>

lemma demo_parts:
  "submit_pin_check demo_accepts (demo_user ''a'') demo_form s = (Inr (), snd (icm_call demo_accepts (validate_pin_req ''a'' ''1234'') s))"
  "submit_spouse_check demo_accepts (demo_user ''a'') demo_form s = (Inr (), s)"
  by (simp_all add: submit_pin_check_def submit_spouse_check_def must_be_true_def validate_or_raise_def pin_validate_def
      check_spouse_def bind_def icm_call_def demo_accepts_def obj_get_default_def)

lemma demo_read:
  assumes "drafts s = [demo_saved]" and "has_session s" and "db_up s (db_ix s)"
  shows "submit_read (demo_user ''a'') ''1'' s = (Inr old_answers, s\<lparr>db_ix := Suc (db_ix s)\<rparr>)"
proof -
  have r: "row_response demo_saved = Inr \<lparr>response_id = ''1'', response_type = ASSIST,
      response_json = Some [(''answers'', old_answers), (''page_index'', JInt 0)], response_updated = Aware 0\<rparr>"
    by (simp add: row_response_def) (simp add: demo_saved_def old_answers_def)
  from assms show ?thesis
    by (simp add: submit_read_def get_draft_def full_service_def optional_row_def repo_get_def bind_def statement_def Let_def
        one_or_none_def r draft_answers_def)
qed

lemma demo_reached:
  "\<exists>s. steps (dstep demo_accepts plain) (idle demo_db) [Begin 0 (demo_user ''a'') ''1'' demo_form, Spouse 0, Read 0] s \<and>
     running s = [0 \<mapsto> Unsent (demo_user ''a'') ''1'' old_answers] \<and> drafts (db s) = [demo_saved] \<and> has_session (db s) \<and>
     (\<forall>n. db_up (db s) n)"
proof -
  let ?u = "demo_user ''a''"
  define d1 where "d1 = snd (icm_call demo_accepts (validate_pin_req ''a'' ''1234'') demo_db)"
  define d2 where "d2 = d1\<lparr>db_ix := Suc (db_ix d1)\<rparr>"
  have d1: "drafts d1 = [demo_saved]" "has_session d1" "db_up d1 = (\<lambda>n. True)" by (simp_all add: d1_def icm_call_def)
  let ?s1 = "advance (idle demo_db) 0 d1 (Some (PinChecked ?u ''1'' demo_form))"
  let ?s2 = "advance ?s1 0 d1 (Some (Cleared ?u ''1''))" and ?s3 = "advance ?s1 0 d2 (Some (Unsent ?u ''1'' old_answers))"
  have "dstep demo_accepts plain (idle demo_db) (Begin 0 ?u ''1'' demo_form) ?s1"
    using begun[of "idle demo_db" 0 demo_accepts ?u demo_form "Inr ()" d1 plain "''1''"]
    by (simp add: idle_def demo_parts d1_def after_def)
  moreover have "dstep demo_accepts plain ?s1 (Spouse 0) ?s2"
    using cleared[of ?s1 0 ?u "''1''" demo_form demo_accepts "Inr ()" d1 plain] by (simp add: demo_parts after_def)
  moreover have "dstep demo_accepts plain ?s2 (Read 0) (advance ?s2 0 d2 (Some (Unsent ?u ''1'' old_answers)))"
    using read_draft[of ?s2 0 ?u "''1''" "Inr old_answers" d2 demo_accepts plain] d1
    by (simp add: demo_read d2_def after_def)
  ultimately have "steps (dstep demo_accepts plain) (idle demo_db) [Begin 0 ?u ''1'' demo_form, Spouse 0, Read 0]
      (advance ?s2 0 d2 (Some (Unsent ?u ''1'' old_answers)))"
    by (meson steps_cons steps_nil)
  with d1 show ?thesis
    by - (rule exI[of _ "advance ?s2 0 d2 (Some (Unsent ?u ''1'' old_answers))"], simp add: d2_def idle_def)
qed

theorem acknowledged_answers_lost_witness:
  "\<exists>s r e t. steps (dstep demo_accepts plain) (idle demo_db) [Begin 0 (demo_user ''a'') ''1'' demo_form, Spouse 0, Read 0] s \<and>
     running s 0 = Some (Unsent (demo_user ''a'') ''1'' old_answers) \<and>
     update_form_draft (Inr (demo_user ''a'')) ''1'' [(''reason'', JStr ''new'')] 1 (db s) = (Inr r, e) \<and>
     steps (dstep demo_accepts plain) s
       [Request (demo_user ''a'') (SaveForm ''1'' [(''reason'', JStr ''new'')] 1), Send 0, Finish 0] t \<and>
     icm_log (db t) = icm_log (db s) @ [finalize_sr_form_req ''1'' old_answers] \<and>
     fst (get_draft_route (Inr (demo_user ''a'')) ''1'' (db t)) = Inl (HTTPExn 404 ''SR draft not found'')"
proof -
  let ?u = "demo_user ''a''"
  obtain s where s: "steps (dstep demo_accepts plain) (idle demo_db) [Begin 0 ?u ''1'' demo_form, Spouse 0, Read 0] s"
    "running s = [0 \<mapsto> Unsent ?u ''1'' old_answers]" "drafts (db s) = [demo_saved]" "has_session (db s)" "\<forall>n. db_up (db s) n"
    using demo_reached by blast
  have r0: "running s 0 = Some (Unsent ?u ''1'' old_answers)" using s(2) by simp
  obtain r e t where "update_form_draft (Inr ?u) ''1'' [(''reason'', JStr ''new'')] 1 (db s) = (Inr r, e)"
    "steps (dstep demo_accepts plain) s [Request ?u (SaveForm ''1'' [(''reason'', JStr ''new'')] 1), Send 0, Finish 0] t"
    "icm_log (db t) = icm_log (db s) @ [finalize_sr_form_req ''1'' old_answers]"
    "fst (get_draft_route (Inr ?u) ''1'' (db t)) = Inl (HTTPExn 404 ''SR draft not found'')"
    using acknowledged_answers_lost[of s 0 ?u "''1''" old_answers demo_saved ASSIST demo_accepts
        "[(''valid'', JBool True), (''sr_number'', JStr ''N1'')]" "''N1''" "[(''reason'', JStr ''new'')]" 1 plain, OF r0] s(3-5)
    by (auto simp: demo_accepts_def)
  with s(1) r0 show ?thesis
    by - (rule exI[of _ s], rule exI[of _ r], rule exI[of _ e], rule exI[of _ t], simp)
qed


end
