(* ===== verification/Spec2Isabelle.thy ===== *)
theory Spec2Isabelle
  imports Icm_Errors Machines Circuit_Breaker Icm_Port Icm_Client Validators Pin_Hash Reg_Schemas Registration
    Eligibility Session_Store Auth Ao_Registration Support_View Account Payment Employment_Plans Notifications
    Service_Requests Monthly_Reports Attachments Mock_Icm Seed_Db App Reg_Concurrent Token_Lock Icm_Retry Migrate
    Draft_Concurrent
begin

text \<open>
  The MySelfServe API (\<open>app/\<close>): the back end of a client portal for income assistance. It answers
  HTTP requests of clients and workers, keeps registration sessions and drafts in a database, caches
  and sessions in Redis, and does everything else by requests to ICM (Siebel). This library models the
  Python code of \<open>app/\<close> and states what it promises, and where it does not keep a promise it makes.

  The model. Stateful code is \<open>('s, 'a) io\<close>: a function of a state record that gives an exception or
  a value and the state as it was left. Every \<open>raise\<close>, early return and \<open>except\<close> clause is a branch.
  Each component extends the state it shares with others: \<open>base\<close> (ICM and the log of requests made to
  it, the clock, the source of UUIDs) in Icm_Port, \<open>kvbase\<close> (Redis) in Redis_Store, and a table or
  more per component. A route takes the result of its role gate (Auth) as its first argument. An
  exception that leaves a route is turned into a response by the handlers of Icm_Errors or is a 500.

  The theories, from the bottom up:
  \<^item> Prelude: exceptions, results, the combinators \<open>bind\<close> and \<open>catch\<close> with frame rules, JSON, datetimes,
    tables as lists of rows. Machines: runs of step relations and the interface \<open>invariant_machine\<close>.
    Dates, Decimals (Python's Decimal with its context, rounding and overflow included), Pydantic (reading models out of JSON).
  \<^item> Icm_Errors: \<open>services/icm/exceptions.py\<close>, \<open>error_mapping.py\<close>, \<open>exception_handlers.py\<close>. Icm_Port: the
    request every Siebel client method builds. Circuit_Breaker and Icm_Client: \<open>services/icm/client.py\<close>,
    the breaker with concurrent callers, token, retries; the client refines the breaker.
    Token_Lock: the token under its lock with any number of tasks, against the calls one after the other.
    Icm_Retry: the retry loop as the loop it is, with its waits, and that it returns; \<open>_SecretStr\<close>.
  \<^item> Validators, Reg_Schemas, Pin_Hash, Registration: \<open>domains/registration\<close> and its router, the wizard
    over the session table with its background task. Reg_Concurrent: its requests cut at their awaits and
    interleaved, some dropped half-way.
  \<^item> Redis_Store, Session_Store: \<open>cache/keys.py\<close>, \<open>dependencies/session_store.py\<close>; the locales \<open>kv_store\<close>
    (what Redis promises) and \<open>session_store\<close> (what a session module promises).
  \<^item> Eligibility: \<open>domains/eligibility\<close>, its router and the rates that migration 0003 seeds, against the
    estimate in cents.
  \<^item> Auth: \<open>auth/\<close>, \<open>config.py\<close>, worker roles, feature flags, choice of ICM clients. Ao_Registration and
    Support_View: the worker side, with the audit middleware.
  \<^item> Account: account and PIN services, and the locale \<open>gate\<close> (a check in front of an operation) that the
    PIN check instantiates. Payment, Employment_Plans, Notifications: their domains and routers.
  \<^item> Service_Requests: drafts in the table \<open>sr_drafts\<close>, submission. Draft_Concurrent: creations and submissions cut
    at their awaits and interleaved with other requests. Monthly_Reports: the cached period and gated submission.
    Attachments: uploads, virus scan results, base64, file names, downloads.
  \<^item> Mock_Data, Mock_Icm: \<open>services/icm/mock\<close>, the canned answers and the mock clients, and which of
    them the services above accept.
  \<^item> Schema, Migrate, Seed_Db: the migrations of \<open>alembic/versions\<close> and the tables of \<open>app/models\<close> as catalogs,
    \<open>alembic/env.py\<close>, which runs the pending ones, and \<open>scripts/seed_db.py\<close> over a database with such a catalog.
  \<^item> App: \<open>main.py\<close>, the table of all routes with what the dependencies of each ask of a request (the \<open>APIRouter\<close> objects of \<open>routers/\<close>) and
    how a request finds its route, \<open>lifespan\<close>, the cached clients of \<open>services/icm/deps.py\<close>, \<open>cache/redis_client.py\<close>, the health
    route, and what the audit middleware sees of all this.

  The lemmas. For the components with a state that lives between requests (breaker, registration
  sessions, AO sessions, support view sessions, drafts, scan jobs) runs of arbitrary requests are a step
  relation, and the properties are invariants of runs or refinements of an abstract state; for the breaker, the
  token, the wizard and the drafts the steps are what runs between two awaits, in any interleaving (of the requests on drafts,
  creations and submissions are cut; the others make one request to ICM or one statement and are one step); for the
  services each route is characterised on all its branches, failures of ICM, Redis and the database
  included; pure code (validators, calculator, hashing, base64, file names) is proved against a
  reference or a round trip. Below, the properties that span components.

  Parameters, never defined here: ICM as a function of the request and its own state, Redis as four
  operations with the laws of \<open>kv_store\<close> (\<open>ttl_ops\<close> satisfies them), the database's choice of which
  statements fail, PBKDF2, bcrypt, PyJWT, the HTTP transport and tenacity (hypotheses \<open>tenacity\<close>, \<open>async_retrying\<close>), the revisions
  alembic finds pending (\<open>follows_chain\<close>),
  pydantic's coercions, \<open>datetime.fromisoformat\<close>. Streams give clock readings and UUIDs, with no assumption unless stated.
  There is no fuel: all loops of the program but one are over finite data, so that their definitions are total. The
  retry loop, whose law also a loop without end obeys, is proved to return, so that no claim of the form "if it returns"
  is made.

  Not modelled: the rate limiter's counting (slowapi), the session factory of \<open>db/session.py\<close>, the Celery
  tasks (stubs without a body), logging, what the CORS middleware answers (it is a parameter of
  the lemma on preflights), and how FastAPI reads a body: routes start from parsed bodies. JSON numbers are integers. Of Starlette's router App has the matching of paths, which its documentation describes.
\<close>

section \<open>Properties that span components\<close>

text \<open>C35.
  The three downloads whose content comes in ICM's JSON never deliver a document: no JSON value is bytes. The T5 slip route
  always fails, and the download of an attachment of a service request or of a message, if it succeeds, has an
  empty content (ICM gave none, or null); any real content makes io.BytesIO raise TypeError (500). The fourth download, the PDF of
  a monthly report, asks ICM for bytes and delivers exactly these, or fails as ICM does.
\<close>

theorem downloads_never_serve_content:
  "(case fst (get_t5_pdf_route env icm auth yr s) of Inl e \<Rightarrow> True | Inr pdf \<Rightarrow> False) \<and>
   (case fst (download_sr_attachment icm auth sr s) of Inl e \<Rightarrow> True | Inr (content, h) \<Rightarrow> content = []) \<and>
   (case fst (download_message_attachment icm auth msg att s) of Inl e \<Rightarrow> True | Inr (content, h) \<Rightarrow> content = []) \<and>
   fst (get_report_pdf_route bytes (Inr u) report s) =
     map_sum id (\<lambda>pdf. (pdf, ''inline; filename='' @ report @ ''.pdf'')) (fst (bytes (report_pdf_req report (Some (user_id u))) (icm_st s)))"
proof -
  have "fst (get_report_pdf_route bytes (Inr u) report s) =
     map_sum id (\<lambda>pdf. (pdf, ''inline; filename='' @ report @ ''.pdf'')) (fst (bytes (report_pdf_req report (Some (user_id u))) (icm_st s)))"
    by (simp add: get_report_pdf_route_def get_report_pdf_def as_user_def bind_def icm_call_def split: sum.split prod.split)
  then show ?thesis
    by (auto simp: get_t5_pdf_route_fails split: sum.split dest: download_sr_empty download_message_empty)
qed

text \<open>C36.
  Where the program checks the PIN, and where it does not. Without ICM saying that the PIN is valid, signing a message and submitting a
  service request both fail, leave the drafts as they were, and ask ICM for at most that one PIN check. Signing an employment
  plan is not behind this check: whatever ICM would say about the PIN, the first request is the one that sends the plan, with the
  PIN in it, the second the one that marks the message as submitted, and the PIN check is never asked for (only an empty PIN is refused,
  by validation).
\<close>

theorem pin_gates_signing:
  fixes s :: "('i, 'z) sr_state_scheme"
  assumes "\<not> pin_ok icm (pin_owner u) p s"
  shows "(\<exists>e t. sign_and_send_route icm (Inr u) msg p s = (Inl e, t) \<and> drafts t = drafts s \<and>
      icm_log t \<in> {icm_log s, icm_log s @ [validate_pin_req (pin_owner u) p]}) \<and>
    (\<exists>e t. submit_service_request icm (Inr u) sr \<lparr>submit_pin = p, spouse_pin = sp, declaration_accepted = d\<rparr> s = (Inl e, t) \<and>
      drafts t = drafts s \<and> icm_log t \<in> {icm_log s, icm_log s @ [validate_pin_req (pin_owner u) p]}) \<and>
    icm_log (snd (sign_employment_plan icm (Inr u) ep p m s)) \<in>
      (if p = [] then {icm_log s}
       else {icm_log s @ [send_to_icm_req (show_int ep) p],
         icm_log s @ [send_to_icm_req (show_int ep) p, mark_form_submitted_req (show_int ep) m]})"
proof (intro conjI)
  have keep: "drafts (snd (validate_or_raise icm (pin_owner u) p s)) = drafts s" using pin_checks_keep(1) by blast
  show "\<exists>e t. sign_and_send_route icm (Inr u) msg p s = (Inl e, t) \<and> drafts t = drafts s \<and>
      icm_log t \<in> {icm_log s, icm_log s @ [validate_pin_req (pin_owner u) p]}"
    using pin.refused[OF assms, of "bind (icm_call icm (sign_message_req msg p)) (\<lambda>_. ret ())"] keep
    by (auto simp: sign_and_send_route_def as_user_def sign_and_send_def)
  show "\<exists>e t. submit_service_request icm (Inr u) sr \<lparr>submit_pin = p, spouse_pin = sp, declaration_accepted = d\<rparr> s = (Inl e, t) \<and>
      drafts t = drafts s \<and> icm_log t \<in> {icm_log s, icm_log s @ [validate_pin_req (pin_owner u) p]}"
    using pin.refused[OF assms, of "bind (check_spouse icm (pin_owner u) sp) (\<lambda>_. submit_draft icm full_service sr (Some (user_id u)))"] keep
    by (auto simp: submit_service_request_def as_user_def must_be_true_def submit_sr_def full_service_def)
  show "icm_log (snd (sign_employment_plan icm (Inr u) ep p m s)) \<in>
      (if p = [] then {icm_log s}
       else {icm_log s @ [send_to_icm_req (show_int ep) p],
         icm_log s @ [send_to_icm_req (show_int ep) p, mark_form_submitted_req (show_int ep) m]})"
    by (auto simp: sign_employment_plan_def as_user_def reraise_def catch_def ep_sign_and_send_def bind_def icm_call_def now_utc_def
        split: sum.splits prod.splits)
qed

definition refuses_pins :: "nat icm_fun" where
  "refuses_pins rq n = (Inr (JObj [(''valid'', JBool False)]), n)"

theorem pin_gates_signing_witness:
  "(\<exists>e t. sign_and_send_route refuses_pins (Inr (demo_user ''a'')) ''7'' ''0000'' demo_table = (Inl e, t) \<and> drafts t = [demo_draft]) \<and>
   send_to_icm_req (show_int 3) ''0000'' \<in> set (icm_log (snd (sign_employment_plan refuses_pins (Inr (demo_user ''a'')) 3 ''0000'' 7 demo_table)))"
proof -
  have "\<not> pin_ok refuses_pins (pin_owner (demo_user ''a'')) ''0000'' demo_table"
    by (simp add: pin_ok_def says_valid_def refuses_pins_def)
  note gates = pin_gates_signing[OF this, where msg = "''7''" and ep = 3 and m = 7]
  from conjunct1[OF gates] have "\<exists>e t. sign_and_send_route refuses_pins (Inr (demo_user ''a'')) ''7'' ''0000'' demo_table = (Inl e, t) \<and>
      drafts t = [demo_draft]" by auto
  moreover from conjunct2[OF conjunct2[OF gates]] have "send_to_icm_req (show_int 3) ''0000'' \<in>
      set (icm_log (snd (sign_employment_plan refuses_pins (Inr (demo_user ''a'')) 3 ''0000'' 7 demo_table)))"
    by (auto split: if_splits)
  ultimately show ?thesis by blast
qed

text \<open>C37.
  Eight routes do not depend on who calls them. For any two clients, reading or withdrawing a service
  request, reading, answering or deleting a message, reading or signing an employment plan and reading
  the period of a case behave the same and send ICM the same requests, none of which names the
  caller: whether the object belongs to the caller is checked nowhere in this program.
\<close>

theorem unscoped_object_access:
  "get_service_request_detail icm co (Inr u) sr = get_service_request_detail icm co (Inr v) sr \<and>
   withdraw_service_request icm (Inr u) sr reason = withdraw_service_request icm (Inr v) sr reason \<and>
   get_message_detail_route icm co (Inr u) msg = get_message_detail_route icm co (Inr v) msg \<and>
   reply_to_message icm co (Inr u) msg reply_text ids = reply_to_message icm co (Inr v) msg reply_text ids \<and>
   delete_message_route icm (Inr u) msg = delete_message_route icm (Inr v) msg \<and>
   get_employment_plan_detail icm co (Inr u) ep = get_employment_plan_detail icm co (Inr v) ep \<and>
   sign_employment_plan icm (Inr u) ep p m = sign_employment_plan icm (Inr v) ep p m \<and>
   get_current_period_route ops icm co (Inr u) case_no = get_current_period_route ops icm co (Inr v) case_no"
  by (simp add: get_service_request_detail_def withdraw_service_request_def get_message_detail_route_def reply_to_message_def
      delete_message_route_def get_employment_plan_detail_def sign_employment_plan_def get_current_period_route_def as_user_def
      ep_sign_and_send_def)

definition audit_columns :: "string list" where
  "audit_columns = map cname (columns WorkerAuditRecord_table)"

text \<open>C40.
  On a database that the migrations made no request is ever audited: the audit table they create lacks the worker's role and
  the address, the middleware swallows the refusal of the INSERT, and so the table stays as it was after every
  request, whatever it was and however it ended. On the tables that \<open>create_all\<close> makes of the models, as the tests do, the
  same INSERT is well formed.
\<close>

theorem audit_lost_after_migrations:
  assumes "upgrade_head no_catalog = Some c"
    and "call_next s = (r, t)" and "audit_tbl t = audit_tbl s"
    and "\<forall>n a. audit_up t n a \<longrightarrow> insert_resolves c (tname WorkerAuditRecord_table) audit_columns"
  shows "audit_tbl (snd (dispatch peek rq call_next s)) = audit_tbl s \<and>
    insert_resolves (create_all model_tables no_catalog) (tname WorkerAuditRecord_table) audit_columns"
proof
  have "c = at_0005" using assms(1) by (simp add: upgrade_head)
  then have "\<not> insert_resolves c (tname WorkerAuditRecord_table) audit_columns"
    by (simp add: audit_columns_def model_table_defs insert_resolves_def has_columns_def table_defs)
  then show "audit_tbl (snd (dispatch peek rq call_next s)) = audit_tbl s"
    using assms(3,4) dispatch_table[where call_next = call_next, OF assms(2), of peek rq] by (auto split: sum.split)
  show "insert_resolves (create_all model_tables no_catalog) (tname WorkerAuditRecord_table) audit_columns"
    unfolding audit_columns_def by code_simp
qed

theorem audit_lost_after_migrations_witness:
  "audit_tbl (snd (dispatch (\<lambda>tok. Some demo_claims) demo_rq (ret (200, ()))
     (demo_views\<lparr>audit_up := \<lambda>n a. insert_resolves at_0005 ''workerauditrecord'' audit_columns\<rparr>))) = []"
proof -
  let ?s = "demo_views\<lparr>audit_up := \<lambda>n a. insert_resolves at_0005 ''workerauditrecord'' audit_columns\<rparr>"
  have "\<forall>n a. audit_up ?s n a \<longrightarrow> insert_resolves at_0005 (tname WorkerAuditRecord_table) audit_columns"
    by (simp add: WorkerAuditRecord_table_def)
  from audit_lost_after_migrations[OF upgrade_head _ refl this, of "ret (200, ())"]
  show ?thesis by (simp add: demo_views_def demo_sv_def)
qed

end
